(* ===== verification/Py_Prelude.thy ===== *)
theory Py_Prelude
  imports Complex_Main
begin

text \<open>
  Shared vocabulary of the development: the exceptions a run of the notebook can
  end with, results as sums, runs that keep the state a raise leaves behind, numeric
  series as lists of reals, and the facts about
  sums over lists that the fitters, the Monte Carlo engine and the report share.

  Python floats are read as real numbers throughout: rounding is not modelled, and a
  missing value (NaN) is modelled only where the program depends on it, in the
  loader (theory \<open>Frame\<close>), as \<open>None\<close>.
\<close>

section \<open>Fact collections\<close>

named_theorems nb_defs \<open>definitions of script-level operations, unfolded together\<close>
named_theorems sum_expand \<open>expansions of list sums into elementary sums\<close>

section \<open>Exceptions and results\<close>

datatype py_error =
    TypeError
  | ValueError
  | KeyError
  | IndexError
  | ZeroDivisionError
  | LinAlgError
  | Exception

type_synonym 'a result = "py_error + 'a"

type_synonym series = "real list"

definition rbind :: "'a result \<Rightarrow> ('a \<Rightarrow> 'b result) \<Rightarrow> 'b result" where
  "rbind m f = (case m of Inl e \<Rightarrow> Inl e | Inr v \<Rightarrow> f v)"

definition is_ok :: "'a result \<Rightarrow> bool" where
  "is_ok m = (case m of Inl _ \<Rightarrow> False | Inr _ \<Rightarrow> True)"

lemma rbind_Inl [simp]: "rbind (Inl e) f = Inl e"
  by (simp add: rbind_def)

lemma rbind_Inr [simp]: "rbind (Inr v) f = f v"
  by (simp add: rbind_def)

lemma rbind_eq_Inr_iff: "rbind m f = Inr r \<longleftrightarrow> (\<exists>v. m = Inr v \<and> f v = Inr r)"
  by (cases m) simp_all

lemma rbind_eq_Inl_iff:
  "rbind m f = Inl e \<longleftrightarrow> m = Inl e \<or> (\<exists>v. m = Inr v \<and> f v = Inl e)"
  by (cases m) auto

lemma rbind_assoc: "rbind (rbind m f) g = rbind m (\<lambda>v. rbind (f v) g)"
  by (cases m) simp_all

lemma is_ok_simps [simp]: "is_ok (Inr v)" "\<not> is_ok (Inl e)"
  by (simp_all add: is_ok_def)

lemma is_ok_iff: "is_ok m \<longleftrightarrow> (\<exists>v. m = Inr v)"
  by (cases m) simp_all

lemma is_ok_rbind_iff: "is_ok (rbind m f) \<longleftrightarrow> (\<exists>v. m = Inr v \<and> is_ok (f v))"
  by (cases m) simp_all

lemma is_ok_rbind_const:
  "(\<And>v. is_ok (f v) \<longleftrightarrow> P) \<Longrightarrow> is_ok (rbind m f) \<longleftrightarrow> is_ok m \<and> P"
  by (cases m) simp_all

definition item :: "'a list \<Rightarrow> nat \<Rightarrow> 'a result" where
  "item xs i = (if i < length xs then Inr (xs ! i) else Inl IndexError)"

lemma item_Inr_iff: "item xs i = Inr v \<longleftrightarrow> i < length xs \<and> xs ! i = v"
  by (simp add: item_def)

lemma item_Inl_iff: "item xs i = Inl e \<longleftrightarrow> length xs \<le> i \<and> e = IndexError"
  by (auto simp: item_def)

lemma item_Cons [simp]: "item (x # xs) 0 = Inr x" "item (x # xs) (Suc i) = item xs i"
  by (simp_all add: item_def)

lemma item_numeral_Cons [simp]: "item (x # xs) (numeral k) = item xs (pred_numeral k)"
  by (simp add: item_def)

subsection \<open>Runs: an outcome together with the state left behind\<close>

text \<open>
  A computation on a state that may raise ends in a run: what it returned or raised,
  and the state it leaves behind, which a raise does not undo. \<open>attempt\<close> turns an
  operation that either changes the state or raises without touching it into a run;
  \<open>and_then\<close> continues a run that returned and stops at one that raised.
\<close>

type_synonym ('a, 's) run = "'a result \<times> 's"

definition and_then :: "('a, 's) run \<Rightarrow> ('a \<Rightarrow> 's \<Rightarrow> ('b, 's) run) \<Rightarrow> ('b, 's) run" where
  "and_then r k = (case r of (Inl e, s) \<Rightarrow> (Inl e, s) | (Inr v, s) \<Rightarrow> k v s)"

definition attempt :: "('s \<Rightarrow> 's result) \<Rightarrow> 's \<Rightarrow> (unit, 's) run" where
  "attempt op s = (case op s of Inl e \<Rightarrow> (Inl e, s) | Inr s' \<Rightarrow> (Inr (), s'))"

lemma and_then_simps [simp]:
  "and_then (Inr v, s) k = k v s" "and_then (Inl e, s) k = (Inl e, s)"
  by (simp_all add: and_then_def)

lemma attempt_simps:
  "op s = Inr s' \<Longrightarrow> attempt op s = (Inr (), s')"
  "op s = Inl e \<Longrightarrow> attempt op s = (Inl e, s)"
  by (simp_all add: attempt_def)

lemma attempt_cases:
  obtains (returned) s' where "op s = Inr s'" "attempt op s = (Inr (), s')"
  | (raised) e where "op s = Inl e" "attempt op s = (Inl e, s)"
  by (cases "op s") (auto simp: attempt_def)

lemma is_ok_and_then_iff:
  "is_ok (fst (and_then r k)) \<longleftrightarrow> (\<exists>v. fst r = Inr v \<and> is_ok (fst (k v (snd r))))"
  by (cases r; cases "fst r") (auto simp: and_then_def)

lemma is_ok_attempt [simp]: "is_ok (fst (attempt op s)) \<longleftrightarrow> is_ok (op s)"
  by (cases "op s") (simp_all add: attempt_def)

lemma fst_attempt_Inr_iff [simp]: "fst (attempt op s) = Inr v \<longleftrightarrow> is_ok (op s)"
  by (cases "op s") (simp_all add: attempt_def)

lemma Inr_unit_iff: "r = Inr () \<longleftrightarrow> is_ok r"
  by (cases r) simp_all

lemma fst_attempt_Inl_iff [simp]: "fst (attempt op s) = Inl e \<longleftrightarrow> op s = Inl e"
  by (cases "op s") (simp_all add: attempt_def)

fun collect :: "'a result list \<Rightarrow> 'a list result" where
  "collect [] = Inr []"
| "collect (r # rs) = rbind r (\<lambda>v. rbind (collect rs) (\<lambda>vs. Inr (v # vs)))"

lemma collect_eq_Inr_iff: "collect rs = Inr vs \<longleftrightarrow> rs = map Inr vs"
  by (induction rs arbitrary: vs) (auto simp: rbind_eq_Inr_iff)

lemma collect_map_Inr [simp]: "collect (map Inr vs) = Inr vs"
  by (simp add: collect_eq_Inr_iff)

lemma collect_ok_iff: "is_ok (collect rs) \<longleftrightarrow> (\<forall>r \<in> set rs. is_ok r)"
  by (induction rs) (auto simp: is_ok_iff rbind_eq_Inr_iff)

lemma collect_eq_Inl_iff:
  "collect rs = Inl e \<longleftrightarrow>
     (\<exists>k < length rs. rs ! k = Inl e \<and> (\<forall>j < k. is_ok (rs ! j)))"
proof (induction rs)
  case Nil
  show ?case by simp
next
  case (Cons r rs)
  show ?case
  proof (cases r)
    case (Inl e')
    have k0: "k = 0" if "\<forall>j < k. is_ok ((r # rs) ! j)" for k
      using that Inl by (cases k) auto
    show ?thesis
    proof
      assume "collect (r # rs) = Inl e"
      with Inl have "(r # rs) ! 0 = Inl e" by simp
      then show "\<exists>k < length (r # rs). (r # rs) ! k = Inl e \<and> (\<forall>j < k. is_ok ((r # rs) ! j))"
        by (intro exI [of _ 0]) simp
    next
      assume "\<exists>k < length (r # rs). (r # rs) ! k = Inl e \<and> (\<forall>j < k. is_ok ((r # rs) ! j))"
      then obtain k where "(r # rs) ! k = Inl e" "\<forall>j < k. is_ok ((r # rs) ! j)" by blast
      with k0 [of k] have "r = Inl e" by simp
      then show "collect (r # rs) = Inl e" by simp
    qed
  next
    case (Inr v)
    have "collect (r # rs) = Inl e \<longleftrightarrow> collect rs = Inl e"
      using Inr by (cases "collect rs") simp_all
    also have "\<dots> \<longleftrightarrow> (\<exists>k < length rs. rs ! k = Inl e \<and> (\<forall>j < k. is_ok (rs ! j)))"
      by (rule Cons.IH)
    also have "\<dots> \<longleftrightarrow> (\<exists>k < length (r # rs). (r # rs) ! k = Inl e \<and> (\<forall>j < k. is_ok ((r # rs) ! j)))"
      (is "?L \<longleftrightarrow> ?R")
    proof
      assume ?L
      then obtain k where "k < length rs" "rs ! k = Inl e" "\<forall>j < k. is_ok (rs ! j)" by blast
      with Inr have "Suc k < length (r # rs) \<and> (r # rs) ! Suc k = Inl e
          \<and> (\<forall>j < Suc k. is_ok ((r # rs) ! j))"
        by (auto simp: nth_Cons split: nat.splits)
      then show ?R by blast
    next
      assume ?R
      then obtain k where k: "k < length (r # rs)" "(r # rs) ! k = Inl e"
        "\<forall>j < k. is_ok ((r # rs) ! j)" by blast
      with Inr obtain k' where "k = Suc k'" by (cases k) auto
      with k have "k' < length rs \<and> rs ! k' = Inl e \<and> (\<forall>j < k'. is_ok (rs ! j))" by auto
      then show ?L by blast
    qed
    finally show ?thesis .
  qed
qed

section \<open>Index ranges\<close>

lemma upt_0_Suc_map: "[0..<Suc m] = 0 # map Suc [0..<m]"
  by (simp add: upt_conv_Cons map_Suc_upt del: upt_Suc)

lemma map_upt_eq_map_imp_length:
  "map f [0..<n] = map g vs \<Longrightarrow> length vs = n"
  by (metis length_map length_upt diff_zero)

lemma map_nth_upt_take: "n \<le> length xs \<Longrightarrow> map (\<lambda>i. f (xs ! i)) [0..<n] = map f (take n xs)"
  by (simp add: list_eq_iff_nth_eq)

lemma map_upt_eq_map_nth:
  "map f [0..<n] = map g vs \<Longrightarrow> k < n \<Longrightarrow> f k = g (vs ! k)"
  by (metis add_0 length_map length_upt diff_zero nth_map nth_upt)

section \<open>Sums over series\<close>

definition dot :: "series \<Rightarrow> series \<Rightarrow> real" where
  "dot xs ys = sum_list (map2 (*) xs ys)"

definition mean :: "series \<Rightarrow> real" where
  "mean xs = sum_list xs / real (length xs)"

lemma dot_Nil [simp]: "dot [] ys = 0" "dot xs [] = 0"
  by (simp_all add: dot_def)

lemma dot_Cons [simp]: "dot (x # xs) (y # ys) = x * y + dot xs ys"
  by (simp add: dot_def)

lemma dot_commute: "dot xs ys = dot ys xs"
  by (induction xs ys rule: list_induct2') (simp_all add: mult.commute)

lemma dot_self_nonneg: "0 \<le> dot xs xs"
  by (induction xs) simp_all

lemma dot_self_eq_0_iff: "dot xs xs = 0 \<longleftrightarrow> (\<forall>x \<in> set xs. x = 0)"
proof (induction xs)
  case Nil
  show ?case by simp
next
  case (Cons x xs)
  have "x * x + dot xs xs = 0 \<longleftrightarrow> x * x = 0 \<and> dot xs xs = 0"
    using dot_self_nonneg [of xs] by (intro add_nonneg_eq_0_iff) simp_all
  with Cons show ?case by simp
qed

lemma dot_replicate_left: "length ys = n \<Longrightarrow> dot (replicate n c) ys = c * sum_list ys"
  by (induction ys arbitrary: n) (auto simp: algebra_simps)

lemma dot_map_affine:
  "dot ws (map (\<lambda>x. a * x + b) xs) = a * dot ws xs + b * sum_list (take (length xs) ws)"
  by (induction ws xs rule: list_induct2') (simp_all add: algebra_simps)

lemma sum_list_map_affine:
  "sum_list (map (\<lambda>x. a * x + b) xs) = a * sum_list xs + b * real (length xs)"
  by (induction xs) (simp_all add: algebra_simps)

lemma sum_list_const: "(\<forall>x \<in> set xs. x = c) \<Longrightarrow> sum_list xs = real (length xs) * c"
  by (induction xs) (simp_all add: algebra_simps)

lemma dot_const_left: "(\<forall>x \<in> set xs. x = c) \<Longrightarrow> length ys = length xs \<Longrightarrow> dot xs ys = c * sum_list ys"
  by (induction xs ys rule: list_induct2') (simp_all add: algebra_simps)

lemma sum_list_abs_le:
  fixes xs :: series
  shows "\<bar>sum_list xs\<bar> \<le> sum_list (map abs xs)"
  by (rule sum_list_abs)

lemma dot_diff_right:
  "length ys = length zs \<Longrightarrow> dot ws (map2 (-) ys zs) = dot ws ys - dot ws zs"
proof (induction ys zs arbitrary: ws rule: list_induct2)
  case Nil
  show ?case by simp
next
  case (Cons y ys z zs)
  then show ?case by (cases ws) (simp_all add: algebra_simps)
qed

lemma dot_abs_le:
  assumes "list_all2 (\<lambda>d h. \<bar>d\<bar> \<le> h) ds hs" and "length ws = length ds"
  shows "\<bar>dot ws ds\<bar> \<le> dot (map abs ws) hs"
  using assms
proof (induction ds hs arbitrary: ws rule: list_all2_induct)
  case Nil
  then show ?case by simp
next
  case (Cons d ds h hs)
  from Cons.prems obtain w ws' where ws: "ws = w # ws'" and len: "length ws' = length ds"
    by (cases ws) auto
  have "\<bar>w * d\<bar> \<le> \<bar>w\<bar> * h"
    using Cons.hyps(1) by (simp add: abs_mult mult_left_mono)
  moreover have "\<bar>dot ws' ds\<bar> \<le> dot (map abs ws') hs"
    using len by (rule Cons.IH)
  ultimately show ?case unfolding ws by simp
qed

lemma sum_list_pos:
  fixes xs :: series
  shows "xs \<noteq> [] \<Longrightarrow> (\<forall>x \<in> set xs. 0 < x) \<Longrightarrow> 0 < sum_list xs"
  by (induction xs) (auto intro: add_pos_nonneg sum_list_nonneg less_imp_le)

lemma mean_pos: "xs \<noteq> [] \<Longrightarrow> (\<forall>x \<in> set xs. 0 < x) \<Longrightarrow> 0 < mean xs"
  by (simp add: mean_def sum_list_pos)

lemma mean_singleton [simp]: "mean [x] = x"
  by (simp add: mean_def)

lemma mean_const: "xs \<noteq> [] \<Longrightarrow> (\<forall>x \<in> set xs. x = c) \<Longrightarrow> mean xs = c"
  by (simp add: mean_def sum_list_const)

end
