(* ===== verification/Regression.thy ===== *)
theory Regression
  imports Py_Prelude
begin

text \<open>
  The unweighted straight-line fitter of the notebook: \<^verbatim>\<open>np.polyfit(x, y, deg=1)\<close> as
  called in the second cell (lines 44-45) and inside \<^verbatim>\<open>regress_data\<close> (lines 115-117).

  \<open>polyfit1\<close> is numpy's routine in exact arithmetic: its two argument checks
  (an empty \<open>x\<close> and vectors of different length raise \<open>TypeError\<close>), then the
  least-squares problem on the design matrix with columns \<open>x\<close> and \<open>1\<close>, each column
  divided by its Euclidean norm before \<open>lstsq\<close> is called. \<open>lstsq_line\<close> gives what
  that computation returns:
  \<^item> if every \<open>x\<^sub>i\<close> is zero the first column is scaled by \<open>0/0\<close> and \<open>lstsq\<close> fails
    on the resulting NaN matrix (\<open>LinAlgError\<close>);
  \<^item> if all \<open>x\<^sub>i\<close> are the same non-zero number the matrix has rank one and \<open>lstsq\<close>
    returns the solution of minimum norm in the scaled coordinates (numpy only warns;
    the warning is not part of the model);
  \<^item> otherwise the unique solution of the normal equations.

  The abstract specification is the least-squares contract of numpy's documentation:
  the returned pair minimises \<open>sse\<close>, the sum of squared residuals. The theorems show
  that \<open>polyfit1\<close> implements it on every input it accepts, that the minimiser is
  unique exactly when the positions are not all equal, that among the minimisers of
  the rank-deficient case the value the model returns is the one of least norm in the
  scaled coordinates, on which inputs the fit returns, and how the fitted slope
  depends on the observed values (used by the Monte Carlo bounds).
\<close>

section \<open>Model\<close>

subsection \<open>np.polyfit, degree one\<close>

definition gram_det :: "series \<Rightarrow> real" where
  "gram_det x = real (length x) * dot x x - (sum_list x)\<^sup>2"

definition lstsq_line :: "series \<Rightarrow> series \<Rightarrow> (real \<times> real) result" where
  "lstsq_line x y =
     (let n = real (length x); sx = sum_list x; sy = sum_list y;
          sxx = dot x x; sxy = dot x y
      in if sxx = 0 then Inl LinAlgError
         else if gram_det x = 0 then Inr (sy / (2 * sx), sy / (2 * n))
         else Inr ((n * sxy - sx * sy) / gram_det x, (sxx * sy - sx * sxy) / gram_det x))"

definition polyfit1 :: "series \<Rightarrow> series \<Rightarrow> (real \<times> real) result" where
  "polyfit1 x y =
     (if x = [] then Inl TypeError
      else if length x \<noteq> length y then Inl TypeError
      else lstsq_line x y)"

subsection \<open>The notebook's uses of it\<close>

text \<open>Lines 115-117: \<^verbatim>\<open>slope, intercept = np.polyfit(x, y, deg=1); return slope, intercept\<close>.\<close>

definition regress_data :: "series \<Rightarrow> series \<Rightarrow> (real \<times> real) result" where
  "regress_data x y = rbind (polyfit1 x y) (\<lambda>(slope, intercept). Inr (slope, intercept))"

text \<open>Lines 44-45: \<^verbatim>\<open>a, b = np.polyfit(x, y, deg=1); model = a*x + b\<close>.\<close>

definition ols_trend :: "series \<Rightarrow> series \<Rightarrow> (real \<times> real \<times> series) result" where
  "ols_trend x y = rbind (polyfit1 x y) (\<lambda>(a, b). Inr (a, b, map (\<lambda>xi. a * xi + b) x))"

subsection \<open>Specification vocabulary\<close>

definition residuals :: "series \<Rightarrow> series \<Rightarrow> real \<times> real \<Rightarrow> series" where
  "residuals x y p = map2 (\<lambda>xi yi. yi - (fst p * xi + snd p)) x y"

definition sse :: "series \<Rightarrow> series \<Rightarrow> real \<times> real \<Rightarrow> real" where
  "sse x y p = sum_list (map (\<lambda>r. r\<^sup>2) (residuals x y p))"

definition slope_weights :: "series \<Rightarrow> series" where
  "slope_weights x = map (\<lambda>xi. real (length x) * xi - sum_list x) x"

lemmas polyfit1_eval = polyfit1_def lstsq_line_def gram_det_def power2_eq_square

section \<open>Sums of residuals\<close>

lemma length_residuals [simp]: "length (residuals x y p) = min (length x) (length y)"
  by (simp add: residuals_def)

lemma sum_residuals [sum_expand]:
  "length x = length y \<Longrightarrow>
   sum_list (residuals x y (a, b)) = sum_list y - a * sum_list x - b * real (length x)"
  by (induction x y rule: list_induct2) (simp_all add: residuals_def algebra_simps)

lemma dot_residuals [sum_expand]:
  "length x = length y \<Longrightarrow>
   dot x (residuals x y (a, b)) = dot x y - a * dot x x - b * sum_list x"
  by (induction x y rule: list_induct2) (simp_all add: residuals_def algebra_simps)

lemma sum_sq_affine:
  "sum_list (map (\<lambda>xi. (da * xi + db)\<^sup>2) x)
     = da\<^sup>2 * dot x x + 2 * da * db * sum_list x + real (length x) * db\<^sup>2"
  by (induction x) (simp_all add: power2_eq_square algebra_simps)

text \<open>
  Moving from the line \<open>(a, b)\<close> to another line changes the squared error by two
  cross terms, which the normal equations cancel, and a sum of squares.
\<close>

lemma sse_shift:
  "length x = length y \<Longrightarrow>
   sse x y (a', b') = sse x y (a, b)
     + 2 * (a - a') * dot x (residuals x y (a, b))
     + 2 * (b - b') * sum_list (residuals x y (a, b))
     + sum_list (map (\<lambda>xi. ((a - a') * xi + (b - b'))\<^sup>2) x)"
  by (induction x y rule: list_induct2)
     (simp_all add: sse_def residuals_def power2_eq_square algebra_simps)

section \<open>The determinant of the normal equations\<close>

lemma gram_det_centered:
  assumes "x \<noteq> []"
  shows "gram_det x = real (length x) * sum_list (map (\<lambda>xi. (xi - mean x)\<^sup>2) x)"
proof -
  have e: "sum_list (map (\<lambda>xi. (xi - m)\<^sup>2) x)
      = dot x x - 2 * m * sum_list x + real (length x) * m\<^sup>2" for m
    by (induction x) (simp_all add: power2_eq_square algebra_simps)
  from assms have n: "real (length x) \<noteq> 0" by simp
  show ?thesis
    unfolding e gram_det_def mean_def using n
    by (simp add: power2_eq_square field_simps)
qed

lemma gram_det_nonneg: "0 \<le> gram_det x"
proof (cases "x = []")
  case True
  then show ?thesis by (simp add: gram_det_def)
next
  case False
  have "0 \<le> sum_list (map (\<lambda>xi. (xi - mean x)\<^sup>2) x)"
    by (rule sum_list_nonneg) auto
  with False show ?thesis by (simp add: gram_det_centered)
qed

lemma gram_det_eq_0_iff:
  assumes "x \<noteq> []"
  shows "gram_det x = 0 \<longleftrightarrow> (\<forall>xi \<in> set x. xi = mean x)"
proof -
  have "sum_list (map (\<lambda>xi. (xi - mean x)\<^sup>2) x) = 0
      \<longleftrightarrow> (\<forall>v \<in> set (map (\<lambda>xi. (xi - mean x)\<^sup>2) x). v = 0)"
    by (rule sum_list_nonneg_eq_0_iff) auto
  with assms show ?thesis by (auto simp: gram_det_centered)
qed

lemma gram_det_nonzero_dot:
  assumes "gram_det x \<noteq> 0"
  shows "dot x x \<noteq> 0"
proof
  assume "dot x x = 0"
  then have z: "\<forall>xi \<in> set x. xi = 0" by (simp add: dot_self_eq_0_iff)
  then have "sum_list x = 0" by (simp add: sum_list_const [where c = 0])
  with \<open>dot x x = 0\<close> assms show False by (simp add: gram_det_def)
qed

lemma gram_det_nonzero_nonempty: "gram_det x \<noteq> 0 \<Longrightarrow> x \<noteq> []"
  by (auto simp: gram_det_def)

lemma affine_form_definite:
  assumes d: "gram_det x \<noteq> 0" and q: "sum_list (map (\<lambda>xi. (da * xi + db)\<^sup>2) x) = 0"
  shows "da = 0 \<and> db = 0"
proof -
  let ?n = "real (length x)"
  from d have ne: "x \<noteq> []" by (rule gram_det_nonzero_nonempty)
  from d gram_det_nonneg [of x] have pos: "0 < gram_det x" by simp
  have "(?n * db + sum_list x * da)\<^sup>2 + da\<^sup>2 * gram_det x
          = ?n * sum_list (map (\<lambda>xi. (da * xi + db)\<^sup>2) x)"
    unfolding sum_sq_affine gram_det_def by (simp add: power2_eq_square algebra_simps)
  with q have z: "(?n * db + sum_list x * da)\<^sup>2 + da\<^sup>2 * gram_det x = 0" by simp
  have "0 \<le> da\<^sup>2 * gram_det x" using pos by simp
  with z have "(?n * db + sum_list x * da)\<^sup>2 = 0" and "da\<^sup>2 * gram_det x = 0"
    by (simp_all add: add_nonneg_eq_0_iff)
  with pos ne show ?thesis by simp
qed

section \<open>The fitter satisfies the normal equations\<close>

lemma polyfit1_Inr_iff:
  "polyfit1 x y = Inr p \<longleftrightarrow> x \<noteq> [] \<and> length x = length y \<and> lstsq_line x y = Inr p"
  by (simp add: polyfit1_def)

lemma regress_data_eq [simp]: "regress_data x y = polyfit1 x y"
  by (cases "polyfit1 x y") (simp_all add: regress_data_def split: prod.splits)

lemma lstsq_line_normal_equations:
  assumes fit: "lstsq_line x y = Inr (a, b)" and len: "length x = length y"
  shows "sum_list (residuals x y (a, b)) = 0" and "dot x (residuals x y (a, b)) = 0"
proof -
  let ?n = "real (length x)"
  from fit have sxx: "dot x x \<noteq> 0"
    by (auto simp: lstsq_line_def Let_def split: if_splits)
  then have ne: "x \<noteq> []" by auto
  have "sum_list y - a * sum_list x - b * ?n = 0 \<and> dot x y - a * dot x x - b * sum_list x = 0"
  proof (cases "gram_det x = 0")
    case False
    with fit sxx have a: "a = (?n * dot x y - sum_list x * sum_list y) / gram_det x"
      and b: "b = (dot x x * sum_list y - sum_list x * dot x y) / gram_det x"
      by (auto simp: lstsq_line_def Let_def)
    have g: "?n * dot x x - sum_list x * sum_list x = gram_det x"
      by (simp add: gram_det_def power2_eq_square)
    from False show ?thesis
      unfolding a b by (simp add: field_simps flip: g)
  next
    case True
    with fit sxx have a: "a = sum_list y / (2 * sum_list x)" and b: "b = sum_list y / (2 * ?n)"
      by (auto simp: lstsq_line_def Let_def)
    from True ne have c: "\<forall>xi \<in> set x. xi = mean x" by (simp add: gram_det_eq_0_iff)
    then have sx: "sum_list x = ?n * mean x" by (rule sum_list_const)
    from c have dxx: "dot x x = mean x * sum_list x" by (rule dot_const_left) simp
    from c len have dxy: "dot x y = mean x * sum_list y" by (intro dot_const_left) simp_all
    from sxx dxx have m: "mean x \<noteq> 0" by auto
    from ne have n: "?n \<noteq> 0" by simp
    from m n show ?thesis unfolding a b dxx dxy sx by (simp add: field_simps)
  qed
  then show "sum_list (residuals x y (a, b)) = 0" and "dot x (residuals x y (a, b)) = 0"
    using len by (simp_all add: sum_expand)
qed

section \<open>Least squares: the contract and its implementation\<close>

text \<open>
  C4 (refinement). Whenever \<open>polyfit1\<close> returns a line, that line minimises the sum of
  squared residuals over all lines: no slope and intercept fit the data better. This is
  the contract of \<^verbatim>\<open>np.polyfit\<close> that \<^verbatim>\<open>regress_data\<close> and the first trend of the
  notebook rely on; it holds in the rank-deficient case too.
\<close>

theorem polyfit1_least_squares:
  assumes "polyfit1 x y = Inr p"
  shows "sse x y p \<le> sse x y q"
proof -
  obtain a b a' b' where p: "p = (a, b)" and q: "q = (a', b')"
    by (cases p, cases q) blast
  from assms p have len: "length x = length y" and fit: "lstsq_line x y = Inr (a, b)"
    by (simp_all add: polyfit1_Inr_iff)
  have "0 \<le> sum_list (map (\<lambda>xi. ((a - a') * xi + (b - b'))\<^sup>2) x)"
    by (rule sum_list_nonneg) auto
  then show ?thesis
    unfolding p q sse_shift [OF len, of a' b' a b]
    by (simp add: lstsq_line_normal_equations [OF fit len])
qed

theorem polyfit1_least_squares_witness:
  "polyfit1 [0, 1, 2, 3] [1, 2, 3, 41/10] = Inr (103/100, 49/50)
   \<and> sse [0, 1, 2, 3] [1, 2, 3, 41/10] (103/100, 49/50)
       \<le> sse [0, 1, 2, 3] [1, 2, 3, 41/10] (1, 1)"
proof -
  have fit: "polyfit1 [0, 1, 2, 3] [1, 2, 3, 41/10] = Inr (103/100, 49/50)"
    by (simp add: polyfit1_eval)
  from polyfit1_least_squares [OF fit, of "(1, 1)"] fit show ?thesis by simp
qed

text \<open>
  C15 (functional). When the positions are not all equal (\<open>gram_det x \<noteq> 0\<close>), the line
  returned by \<open>polyfit1\<close> is the only minimiser: any line whose squared error is not
  larger is that line.
\<close>

theorem polyfit1_unique:
  assumes fit: "polyfit1 x y = Inr p" and d: "gram_det x \<noteq> 0"
    and best: "sse x y p' \<le> sse x y p"
  shows "p' = p"
proof -
  obtain a b a' b' where p: "p = (a, b)" and p': "p' = (a', b')"
    by (cases p, cases p') blast
  from fit p have len: "length x = length y" and l: "lstsq_line x y = Inr (a, b)"
    by (simp_all add: polyfit1_Inr_iff)
  have nonneg: "0 \<le> sum_list (map (\<lambda>xi. ((a - a') * xi + (b - b'))\<^sup>2) x)"
    by (rule sum_list_nonneg) auto
  from best have "sum_list (map (\<lambda>xi. ((a - a') * xi + (b - b'))\<^sup>2) x) \<le> 0"
    unfolding p p' sse_shift [OF len, of a' b' a b]
    by (simp add: lstsq_line_normal_equations [OF l len])
  with nonneg have "sum_list (map (\<lambda>xi. ((a - a') * xi + (b - b'))\<^sup>2) x) = 0" by simp
  with d have "a - a' = 0 \<and> b - b' = 0" by (rule affine_form_definite)
  with p p' show ?thesis by simp
qed

theorem polyfit1_unique_witness:
  "polyfit1 [0, 1, 2] [1, 3, 5] = Inr (2, 1) \<and> gram_det [0, 1, 2] \<noteq> 0
   \<and> sse [0, 1, 2] [1, 3, 5] (4 / 2, 1) \<le> sse [0, 1, 2] [1, 3, 5] (2, 1)
   \<and> (4 / 2, 1) = (2 :: real, 1 :: real)"
proof -
  have fit: "polyfit1 [0, 1, 2] [1, 3, 5] = Inr (2, 1)" by (simp add: polyfit1_eval)
  have d: "gram_det [0, 1, 2] \<noteq> 0" by (simp add: gram_det_def power2_eq_square)
  have best: "sse [0, 1, 2] [1, 3, 5] (4 / 2, 1) \<le> sse [0, 1, 2] [1, 3, 5] (2, 1)"
    by (simp add: sse_def residuals_def)
  from polyfit1_unique [OF fit d best] fit d best show ?thesis by simp
qed

text \<open>
  C28 (roundtrip). Data that lie exactly on a line \<open>y = a x + b\<close>, at positions that are
  not all equal, are fitted by exactly that line.
\<close>

theorem polyfit1_exact_line:
  assumes "gram_det x \<noteq> 0"
  shows "polyfit1 x (map (\<lambda>xi. a * xi + b) x) = Inr (a, b)"
proof -
  let ?n = "real (length x)" and ?y = "map (\<lambda>xi. a * xi + b) x"
  from assms have ne: "x \<noteq> []" by (rule gram_det_nonzero_nonempty)
  have sy: "sum_list ?y = a * sum_list x + b * ?n" by (rule sum_list_map_affine)
  have sxy: "dot x ?y = a * dot x x + b * sum_list x" by (simp add: dot_map_affine)
  have g: "?n * dot x x - sum_list x * sum_list x = gram_det x"
    by (simp add: gram_det_def power2_eq_square)
  have "(?n * dot x ?y - sum_list x * sum_list ?y) / gram_det x = a"
    using assms unfolding sy sxy by (simp add: field_simps flip: g)
  moreover have "(dot x x * sum_list ?y - sum_list x * dot x ?y) / gram_det x = b"
    using assms unfolding sy sxy by (simp add: field_simps flip: g)
  ultimately show ?thesis
    using assms ne gram_det_nonzero_dot [OF assms]
    by (simp add: polyfit1_def lstsq_line_def Let_def)
qed

theorem polyfit1_exact_line_witness:
  "gram_det [1, 2, 4] \<noteq> 0
   \<and> polyfit1 [1, 2, 4] (map (\<lambda>xi. 3 * xi + (-2)) [1, 2, 4]) = Inr (3, -2)"
proof -
  have d: "gram_det [1, 2, 4] \<noteq> 0" by (simp add: gram_det_def power2_eq_square)
  from polyfit1_exact_line [OF d, of 3 "-2"] d show ?thesis by simp
qed

section \<open>The rank-deficient case\<close>

lemma gram_det_0_const:
  assumes "gram_det x = 0" "x \<noteq> []"
  obtains c where "\<forall>xi \<in> set x. xi = c" "sum_list x = real (length x) * c"
    "dot x x = real (length x) * c\<^sup>2"
proof -
  from assms have c: "\<forall>xi \<in> set x. xi = mean x" by (simp add: gram_det_eq_0_iff)
  then have "sum_list x = real (length x) * mean x" by (rule sum_list_const)
  moreover from c have "dot x x = mean x * sum_list x" by (rule dot_const_left) simp
  ultimately show ?thesis using c by (intro that [of "mean x"]) (simp_all add: power2_eq_square)
qed

text \<open>
  C21 (functional). When all positions are equal, infinitely many lines minimise the
  squared error and \<^verbatim>\<open>np.polyfit\<close> returns the one its least-squares solver selects: the
  minimiser of smallest Euclidean norm in the coordinates in which numpy solves, where
  each column of the design matrix is divided by its norm, so that the slope counts with
  weight \<open>dot x x\<close> and the intercept with weight \<open>length x\<close>. The line \<open>polyfit1\<close> returns
  has strictly smaller scaled norm than every other minimiser.
\<close>

theorem polyfit1_minimum_norm:
  assumes fit: "polyfit1 x y = Inr (a, b)" and d: "gram_det x = 0"
    and best: "sse x y (a', b') \<le> sse x y (a, b)" and other: "(a', b') \<noteq> (a, b)"
  shows "a\<^sup>2 * dot x x + b\<^sup>2 * real (length x) < a'\<^sup>2 * dot x x + b'\<^sup>2 * real (length x)"
proof -
  let ?n = "real (length x)"
  from fit have ne: "x \<noteq> []" and len: "length x = length y"
    and l: "lstsq_line x y = Inr (a, b)"
    by (simp_all add: polyfit1_Inr_iff)
  from l have sxx: "dot x x \<noteq> 0" by (auto simp: lstsq_line_def Let_def split: if_splits)
  from d ne obtain c where c: "\<forall>xi \<in> set x. xi = c" and sx: "sum_list x = ?n * c"
    and cc: "dot x x = ?n * c\<^sup>2"
    by (rule gram_det_0_const)
  from ne have n: "0 < ?n" by simp
  from sxx cc have c0: "c \<noteq> 0" by auto
  from l d sxx have "a = sum_list y / (2 * sum_list x)" "b = sum_list y / (2 * ?n)"
    by (auto simp: lstsq_line_def Let_def)
  then have "a * c = sum_list y / (2 * ?n)" "b = sum_list y / (2 * ?n)"
    using c0 by (simp_all add: sx)
  then have ab: "a * c = b" by simp
  have "0 \<le> sum_list (map (\<lambda>xi. ((a - a') * xi + (b - b'))\<^sup>2) x)"
    by (rule sum_list_nonneg) auto
  moreover from best have "sum_list (map (\<lambda>xi. ((a - a') * xi + (b - b'))\<^sup>2) x) \<le> 0"
    unfolding sse_shift [OF len, of a' b' a b]
    by (simp add: lstsq_line_normal_equations [OF l len])
  ultimately have "sum_list (map (\<lambda>xi. ((a - a') * xi + (b - b'))\<^sup>2) x) = 0" by simp
  then have "\<forall>xi \<in> set x. ((a - a') * xi + (b - b'))\<^sup>2 = 0"
    by (subst (asm) sum_list_nonneg_eq_0_iff) auto
  with ne c have "(a - a') * c + (b - b') = 0" by (cases x) auto
  with ab have a': "a' * c = 2 * b - b'" by (simp add: algebra_simps)
  have "b' \<noteq> b"
  proof
    assume "b' = b"
    with a' ab have "a' * c = a * c" by simp
    with c0 have "a' = a" by simp
    with \<open>b' = b\<close> other show False by simp
  qed
  then have "0 < 2 * ?n * (b - b')\<^sup>2" using n by simp
  also have "2 * ?n * (b - b')\<^sup>2 = ?n * ((a' * c)\<^sup>2 + b'\<^sup>2) - ?n * ((a * c)\<^sup>2 + b\<^sup>2)"
    unfolding a' ab by (simp add: power2_eq_square algebra_simps)
  finally show ?thesis unfolding cc by (simp add: power_mult_distrib algebra_simps)
qed

theorem polyfit1_minimum_norm_witness:
  "polyfit1 [2, 2, 2] [1, 2, 3] = Inr (1 / 2, 1) \<and> gram_det [2, 2, 2] = 0
   \<and> sse [2, 2, 2] [1, 2, 3] (1, 0) \<le> sse [2, 2, 2] [1, 2, 3] (1 / 2, 1)
   \<and> (1 / 2)\<^sup>2 * dot [2, 2, 2] [2, 2, 2] + 1\<^sup>2 * real (length [2, 2, 2 :: real])
       < 1\<^sup>2 * dot [2, 2, 2] [2, 2, 2] + 0\<^sup>2 * real (length [2, 2, 2 :: real])"
proof -
  have fit: "polyfit1 [2, 2, 2] [1, 2, 3] = Inr (1 / 2, 1)" by (simp add: polyfit1_eval)
  have d: "gram_det [2, 2, 2] = 0" by (simp add: gram_det_def)
  have s: "sse [2, 2, 2] [1, 2, 3] (1, 0) \<le> sse [2, 2, 2] [1, 2, 3] (1 / 2, 1)"
    by (simp add: sse_def residuals_def)
  from polyfit1_minimum_norm [OF fit d s] fit d s show ?thesis by simp
qed

section \<open>When the fit returns\<close>

lemma polyfit1_ok_iff:
  "is_ok (polyfit1 x y) \<longleftrightarrow> length x = length y \<and> (\<exists>xi \<in> set x. xi \<noteq> 0)"
  by (auto simp: polyfit1_def lstsq_line_def Let_def dot_self_eq_0_iff)

section \<open>The slope as a linear function of the values\<close>

lemma dot_slope_weights:
  assumes "length y = length x"
  shows "dot (slope_weights x) y = real (length x) * dot x y - sum_list x * sum_list y"
proof -
  have "dot (map (\<lambda>xi. n * xi - s) x) y = n * dot x y - s * sum_list y" for n s
    using assms by (induction y x rule: list_induct2) (simp_all add: algebra_simps)
  then show ?thesis by (simp add: slope_weights_def)
qed

lemma polyfit1_slope:
  assumes "polyfit1 x y = Inr (a, b)" "gram_det x \<noteq> 0"
  shows "a = dot (slope_weights x) y / gram_det x"
  using assms
  by (auto simp: polyfit1_def lstsq_line_def Let_def dot_slope_weights split: if_splits)

lemma polyfit1_slope_diff:
  assumes "polyfit1 x y = Inr (a, b)" "polyfit1 x y' = Inr (a', b')" "gram_det x \<noteq> 0"
  shows "a' - a = dot (slope_weights x) (map2 (-) y' y) / gram_det x"
proof -
  from assms have "length y' = length y" by (simp add: polyfit1_Inr_iff)
  then show ?thesis
    by (simp add: polyfit1_slope [OF assms(1,3)] polyfit1_slope [OF assms(2,3)]
          dot_diff_right diff_divide_distrib)
qed

lemma ols_trend_Inr_iff:
  "ols_trend x y = Inr (a, b, m) \<longleftrightarrow> polyfit1 x y = Inr (a, b) \<and> m = map (\<lambda>xi. a * xi + b) x"
  by (auto simp: ols_trend_def rbind_eq_Inr_iff)

end
