(* ===== verification/Linalg.thy ===== *)
theory Linalg
  imports Regression
begin

text \<open>
  The cell of lines 63 to 73: the unweighted fit by the normal equations
  \<open>BA = inv(X\<^sup>T X) X\<^sup>T y\<close>, the weighted fit
  \<open>BA_w = inv(X\<^sup>T inv(unc) X) (X\<^sup>T inv(unc) y)\<close> with \<open>unc = diag(1 / unc_y)\<close>, and the
  weighted model \<open>BA_w[0] + BA_w[1] * x\<close>.

  A two-dimensional numpy array is a \<open>matrix\<close>: its shape and its entries, which are
  zero outside the shape (\<open>mk\<close>), so that two matrices are equal when they agree inside
  it. One-dimensional arrays are series. \<^verbatim>\<open>np.c_\<close>, the transpose, \<^verbatim>\<open>@\<close> (\<open>matmul\<close> and
  \<open>matvec\<close>) and \<^verbatim>\<open>np.diag\<close> are defined entry by entry, with \<open>ValueError\<close> for shapes that
  do not fit. The values \<open>y\<close> are a column of the frame, and a product of an array with
  a pandas series is computed by the series (\<open>rmatmul_series\<close>: the series dotted with
  the transposed array), which raises a bare \<open>Exception\<close> when the lengths differ and
  returns an array. \<^verbatim>\<open>np.linalg.inv\<close> is the inverse in exact arithmetic, computed by
  cofactors, and \<open>LinAlgError\<close> for a matrix that is not square or whose determinant
  is zero; \<open>det\<close> expands along the first row. Rounding, and with it the inverse numpy
  returns for a matrix that is singular only up to rounding, is outside the model. The
  list comprehension of line 69 divides Python floats, so an uncertainty of zero
  raises \<open>ZeroDivisionError\<close>.
  The operations of lines 64 and 70 are composed in Python's evaluation order, which
  decides the exception when more than one call would raise.

  The lemmas compute the inverse of a diagonal matrix and of a two-by-two matrix and
  the products with the design matrix, and from them the closed forms of both fits.
  The theorems relate the unweighted fit to \<open>polyfit1\<close>, identify the weights line 70
  really uses, and list every way the cell can end.
\<close>

section \<open>Model\<close>

subsection \<open>Arrays of two dimensions\<close>

datatype matrix = Matrix (nrow: nat) (ncol: nat) (entry: "nat \<Rightarrow> nat \<Rightarrow> real")

definition mk :: "nat \<Rightarrow> nat \<Rightarrow> (nat \<Rightarrow> nat \<Rightarrow> real) \<Rightarrow> matrix" where
  "mk r c f = Matrix r c (\<lambda>i j. if i < r \<and> j < c then f i j else 0)"

definition ones :: "nat \<Rightarrow> series" where
  "ones n = replicate n 1"

definition np_c :: "series \<Rightarrow> series \<Rightarrow> matrix result" where
  "np_c u v =
     (if length u \<noteq> length v then Inl ValueError
      else Inr (mk (length u) 2 (\<lambda>i j. if j = 0 then u ! i else v ! i)))"

definition transpose_mat :: "matrix \<Rightarrow> matrix" where
  "transpose_mat A = mk (ncol A) (nrow A) (\<lambda>i j. entry A j i)"

definition matmul :: "matrix \<Rightarrow> matrix \<Rightarrow> matrix result" where
  "matmul A B =
     (if ncol A \<noteq> nrow B then Inl ValueError
      else Inr (mk (nrow A) (ncol B) (\<lambda>i j. \<Sum>k<ncol A. entry A i k * entry B k j)))"

definition matvec :: "matrix \<Rightarrow> series \<Rightarrow> series result" where
  "matvec A v =
     (if ncol A \<noteq> length v then Inl ValueError
      else Inr (map (\<lambda>i. \<Sum>k<ncol A. entry A i k * v ! k) [0..<nrow A]))"

definition rmatmul_series :: "matrix \<Rightarrow> series \<Rightarrow> series result" where
  "rmatmul_series A v =
     (let B = transpose_mat A
      in if length v \<noteq> nrow B then Inl Exception
         else Inr (map (\<lambda>j. \<Sum>k<nrow B. v ! k * entry B k j) [0..<ncol B]))"

definition np_diag :: "series \<Rightarrow> matrix" where
  "np_diag d = mk (length d) (length d) (\<lambda>i j. if i = j then d ! i else 0)"

definition skip :: "nat \<Rightarrow> nat \<Rightarrow> nat" where
  "skip i a = (if a < i then a else Suc a)"

definition minor :: "(nat \<Rightarrow> nat \<Rightarrow> real) \<Rightarrow> nat \<Rightarrow> nat \<Rightarrow> nat \<Rightarrow> nat \<Rightarrow> real" where
  "minor f i j = (\<lambda>a b. f (skip i a) (skip j b))"

fun det :: "nat \<Rightarrow> (nat \<Rightarrow> nat \<Rightarrow> real) \<Rightarrow> real" where
  "det 0 f = 1"
| "det (Suc n) f = (\<Sum>j<Suc n. (- 1) ^ j * f 0 j * det n (minor f 0 j))"

definition np_inv :: "matrix \<Rightarrow> matrix result" where
  "np_inv A =
     (if nrow A \<noteq> ncol A then Inl LinAlgError
      else if det (nrow A) (entry A) = 0 then Inl LinAlgError
      else Inr (mk (nrow A) (nrow A)
        (\<lambda>i j. (- 1) ^ (i + j) * det (nrow A - 1) (minor (entry A) j i) / det (nrow A) (entry A))))"

fun reciprocals :: "series \<Rightarrow> series result" where
  "reciprocals [] = Inr []"
| "reciprocals (val # vals) =
     (if val = 0 then Inl ZeroDivisionError
      else rbind (reciprocals vals) (\<lambda>rs. Inr (1 / val # rs)))"

definition normal_fit :: "series \<Rightarrow> series \<Rightarrow> (matrix \<times> series) result" where
  "normal_fit x y =
     rbind (np_c (ones (length x)) x) (\<lambda>X.
     rbind (matmul (transpose_mat X) X) (\<lambda>XtX.
     rbind (np_inv XtX) (\<lambda>XtX_inv.
     rbind (matmul XtX_inv (transpose_mat X)) (\<lambda>M.
     rbind (rmatmul_series M y) (\<lambda>BA. Inr (X, BA))))))"

definition weighted_fit :: "matrix \<Rightarrow> series \<Rightarrow> series \<Rightarrow> series result" where
  "weighted_fit X y unc_y =
     rbind (reciprocals unc_y) (\<lambda>rs.
     let unc = np_diag rs in
     rbind (np_inv unc) (\<lambda>W.
     rbind (matmul (transpose_mat X) W) (\<lambda>XtW.
     rbind (matmul XtW X) (\<lambda>XtWX.
     rbind (np_inv XtWX) (\<lambda>XtWX_inv.
     rbind (np_inv unc) (\<lambda>W'.
     rbind (matmul (transpose_mat X) W') (\<lambda>XtW'.
     rbind (rmatmul_series XtW' y) (\<lambda>XtWy.
       matvec XtWX_inv XtWy))))))))"

definition fit_cell ::
  "series \<Rightarrow> series \<Rightarrow> series \<Rightarrow> (series \<times> series \<times> series) result" where
  "fit_cell x y unc_y =
     rbind (normal_fit x y) (\<lambda>(X, BA).
     rbind (weighted_fit X y unc_y) (\<lambda>BA_w.
     rbind (item BA_w 0) (\<lambda>b0.
     rbind (item BA_w 1) (\<lambda>b1.
       Inr (BA, BA_w, map (\<lambda>xi. b0 + b1 * xi) x)))))"

subsection \<open>Vocabulary of the lemmas\<close>

text \<open>
  The design matrix of line 63 as a value; the determinant and the solution of the
  two-by-two system that line 70 solves, written with sums over the data; diagonal and
  two-by-two entry functions.
\<close>

definition design :: "series \<Rightarrow> matrix" where
  "design x = mk (length x) 2 (\<lambda>i j. if j = 0 then 1 else x ! i)"

definition weighted_det :: "series \<Rightarrow> series \<Rightarrow> real" where
  "weighted_det w x = sum_list w * dot (map2 (*) w x) x - dot w x * dot w x"

definition weighted_line :: "series \<Rightarrow> series \<Rightarrow> series \<Rightarrow> (real \<times> real) result" where
  "weighted_line w x y =
     (let sw = sum_list w; swx = dot w x; swxx = dot (map2 (*) w x) x;
          swy = dot w y; swxy = dot (map2 (*) w x) y
      in if weighted_det w x = 0 then Inl LinAlgError
         else Inr ((swxx * swy - swx * swxy) / weighted_det w x,
                   (sw * swxy - swx * swy) / weighted_det w x))"

definition dg :: "nat \<Rightarrow> (nat \<Rightarrow> real) \<Rightarrow> nat \<Rightarrow> nat \<Rightarrow> real" where
  "dg n h = (\<lambda>i j. if i < n \<and> j < n \<and> i = j then h i else 0)"

definition mat2 :: "real \<Rightarrow> real \<Rightarrow> real \<Rightarrow> real \<Rightarrow> matrix" where
  "mat2 a b c d = mk 2 2 (\<lambda>i j. if i = 0 then (if j = 0 then a else b) else (if j = 0 then c else d))"

section \<open>Shapes and entries\<close>

lemma mk_sel [simp]:
  "nrow (mk r c f) = r" "ncol (mk r c f) = c"
  "entry (mk r c f) i j = (if i < r \<and> j < c then f i j else 0)"
  by (simp_all add: mk_def)

lemma mk_eq_iff: "mk r c f = mk r' c' g \<longleftrightarrow> r = r' \<and> c = c' \<and> (\<forall>i<r. \<forall>j<c. f i j = g i j)"
  by (auto simp: mk_def fun_eq_iff)

lemma mk_cong: "(\<And>i j. i < r \<Longrightarrow> j < c \<Longrightarrow> f i j = g i j) \<Longrightarrow> mk r c f = mk r c g"
  by (simp add: mk_eq_iff)

lemma skip_simps [simp]: "skip 0 a = Suc a" "skip (Suc i) 0 = 0" "skip (Suc i) (Suc a) = Suc (skip i a)"
  by (simp_all add: skip_def)

lemma skip_neq [simp]: "skip i a \<noteq> i" "i \<noteq> skip i a"
  by (simp_all add: skip_def)

lemma skip_inj [simp]: "skip i a = skip i b \<longleftrightarrow> a = b"
  by (auto simp: skip_def)

lemma skip_less_Suc: "i \<le> n \<Longrightarrow> skip i a < Suc n \<longleftrightarrow> a < n"
  by (auto simp: skip_def)

section \<open>Determinants of diagonal matrices\<close>

lemma minor_dg: "i \<le> n \<Longrightarrow> minor (dg (Suc n) h) i i = dg n (\<lambda>a. h (skip i a))"
  by (auto simp: minor_def dg_def fun_eq_iff skip_less_Suc)

lemma det_dg: "det n (dg n h) = (\<Prod>k<n. h k)"
proof (induction n arbitrary: h)
  case 0
  show ?case by simp
next
  case (Suc n)
  have "det (Suc n) (dg (Suc n) h) = h 0 * det n (minor (dg (Suc n) h) 0 0)"
    unfolding det.simps sum.lessThan_Suc_shift by (simp add: dg_def)
  also have "\<dots> = h 0 * (\<Prod>k<n. h (Suc k))"
    by (simp add: minor_dg Suc.IH)
  finally show ?case by (simp add: prod.lessThan_Suc_shift del: prod.lessThan_Suc)
qed

lemma det_zero_row: "a < n \<Longrightarrow> (\<And>b. b < n \<Longrightarrow> f a b = 0) \<Longrightarrow> det n f = 0"
proof (induction n arbitrary: a f)
  case 0
  then show ?case by simp
next
  case (Suc n)
  show ?case
  proof (cases a)
    case 0
    with Suc.prems show ?thesis by simp
  next
    case (Suc a')
    have "det n (minor f 0 j) = 0" if "j < Suc n" for j
    proof (rule Suc.IH [of a'])
      show "a' < n" using Suc.prems(1) Suc by simp
      show "minor f 0 j a' b = 0" if "b < n" for b
        using Suc.prems(2) [of "skip j b"] that Suc by (simp add: minor_def skip_def)
    qed
    then show ?thesis by simp
  qed
qed

lemma prod_skip: "i \<le> m \<Longrightarrow> (\<Prod>k<Suc m. h k) = h i * (\<Prod>k<m. h (skip i k))"
proof (induction m arbitrary: i h)
  case 0
  then show ?case by simp
next
  case (Suc m)
  show ?case
  proof (cases i)
    case 0
    then show ?thesis by (simp add: prod.lessThan_Suc_shift del: prod.lessThan_Suc)
  next
    case (Suc i')
    with Suc.prems have "i' \<le> m" by simp
    from Suc.IH [OF this, of "\<lambda>k. h (Suc k)"] Suc show ?thesis
      by (simp add: prod.lessThan_Suc_shift [of h] prod.lessThan_Suc_shift [of "\<lambda>k. h (skip (Suc i') k)"]
          ac_simps del: prod.lessThan_Suc)
  qed
qed

lemma minor_dg_off: "i \<le> n \<Longrightarrow> j \<le> n \<Longrightarrow> i \<noteq> j \<Longrightarrow> det n (minor (dg (Suc n) h) j i) = 0"
proof (rule det_zero_row [of "if i < j then i else i - 1"])
  assume "i \<le> n" "j \<le> n" "i \<noteq> j"
  then show "(if i < j then i else i - 1) < n" by auto
  fix b
  show "minor (dg (Suc n) h) j i (if i < j then i else i - 1) b = 0"
    using \<open>i \<noteq> j\<close> by (auto simp: minor_def dg_def skip_def)
qed

lemma entry_np_diag: "entry (np_diag d) = dg (length d) (\<lambda>i. d ! i)"
  by (auto simp: np_diag_def dg_def fun_eq_iff)

lemma np_diag_shape [simp]: "nrow (np_diag d) = length d" "ncol (np_diag d) = length d"
  by (simp_all add: np_diag_def)

lemma np_inv_np_diag:
  assumes "\<forall>v \<in> set d. v \<noteq> 0"
  shows "np_inv (np_diag d) = Inr (np_diag (map inverse d))"
proof -
  let ?n = "length d" and ?h = "\<lambda>i. d ! i"
  have nz: "(\<Prod>k<?n. ?h k) \<noteq> 0" using assms by simp
  have *: "(- 1) ^ (i + j) * det (?n - 1) (minor (dg ?n ?h) j i) / (\<Prod>k<?n. ?h k)
      = (if i = j then map inverse d ! i else 0)" if "i < ?n" "j < ?n" for i j
  proof (cases "i = j")
    case True
    from that obtain m where m: "?n = Suc m" "i \<le> m" by (cases ?n) auto
    with prod_skip [of i m ?h] nz True that show ?thesis
      by (simp add: minor_dg det_dg field_simps)
  next
    case False
    from that obtain m where m: "?n = Suc m" "i \<le> m" "j \<le> m" by (cases ?n) auto
    with False show ?thesis by (simp add: minor_dg_off)
  qed
  have "mk ?n ?n
      (\<lambda>i j. (- 1) ^ (i + j) * det (?n - 1) (minor (dg ?n ?h) j i) / (\<Prod>k<?n. ?h k))
      = np_diag (map inverse d)"
    unfolding np_diag_def length_map by (intro mk_cong *)
  with nz show ?thesis by (simp add: np_inv_def entry_np_diag det_dg)
qed

section \<open>Sums over indices and sums over lists\<close>

lemma sum_nth_map: "(\<Sum>k<length xs. f (xs ! k)) = sum_list (map f xs)"
  by (simp add: sum_list_sum_nth atLeast0LessThan)

lemma sum_nth_dot: "length ys = length xs \<Longrightarrow> (\<Sum>k<length xs. xs ! k * ys ! k) = dot xs ys"
  by (simp add: dot_def sum_list_sum_nth atLeast0LessThan)

lemma sum_nth_dot3:
  "length x = length w \<Longrightarrow> length y = length w \<Longrightarrow>
   (\<Sum>k<length w. w ! k * x ! k * y ! k) = dot (map2 (*) w x) y"
  using sum_nth_dot [of y "map2 (*) w x"] by simp

lemma sum_affine_dot:
  "length y = length x \<Longrightarrow>
   (\<Sum>k<length x. (p + q * x ! k) * y ! k) = p * sum_list y + q * dot x y"
  using sum_nth_map [of "\<lambda>v. v" y] sum_nth_dot [of y x]
  by (simp add: distrib_right sum.distrib mult.assoc flip: sum_distrib_left)

lemma sum_pick:
  fixes n :: nat and h :: "nat \<Rightarrow> real"
  shows "j < n \<Longrightarrow> (\<Sum>k<n. g k * (if k = j then h k else 0)) = g j * h j"
proof -
  have "g k * (if k = j then h k else 0) = (if k = j then g j * h j else 0)" for k by simp
  then show "j < n \<Longrightarrow> ?thesis" by simp
qed

section \<open>Matrices with two rows and two columns\<close>

lemma mk_2_2: "mk 2 2 f = mat2 (f 0 0) (f 0 1) (f 1 0) (f 1 1)"
  unfolding mat2_def by (rule mk_cong) (auto simp: less_Suc_eq numeral_2_eq_2)

lemma mat2_sel [simp]:
  "nrow (mat2 a b c d) = 2" "ncol (mat2 a b c d) = 2"
  "entry (mat2 a b c d) 0 0 = a" "entry (mat2 a b c d) 0 (Suc 0) = b"
  "entry (mat2 a b c d) (Suc 0) 0 = c" "entry (mat2 a b c d) (Suc 0) (Suc 0) = d"
  by (simp_all add: mat2_def)

lemma det_mat2: "det 2 (entry (mat2 a b c d)) = a * d - b * c"
  by (simp add: numeral_2_eq_2 minor_def)

lemma np_inv_mat2:
  "np_inv (mat2 a b c d) =
     (if a * d - b * c = 0 then Inl LinAlgError
      else Inr (mat2 (d / (a * d - b * c)) (- b / (a * d - b * c))
                     (- c / (a * d - b * c)) (a / (a * d - b * c))))"
  by (simp add: np_inv_def det_mat2 mk_2_2 minor_def)

lemma matvec_mat2:
  "matvec (mat2 a b c d) [u, v] = Inr [a * u + b * v, c * u + d * v]"
  by (simp add: matvec_def numeral_2_eq_2)

section \<open>Products with the design matrix\<close>

lemma np_c_ones: "np_c (ones (length x)) x = Inr (design x)"
  by (simp add: np_c_def ones_def design_def mk_eq_iff)

lemma design_shape [simp]: "nrow (design x) = length x" "ncol (design x) = 2"
  by (simp_all add: design_def)

lemma transpose_design:
  "transpose_mat (design x) = mk 2 (length x) (\<lambda>i j. if i = 0 then 1 else x ! j)"
  by (simp add: transpose_mat_def design_def mk_eq_iff)

lemma matmul_rows_design:
  "matmul (mk 2 (length x) f) (design x) =
     Inr (mat2 (\<Sum>k<length x. f 0 k) (\<Sum>k<length x. f 0 k * x ! k)
               (\<Sum>k<length x. f 1 k) (\<Sum>k<length x. f 1 k * x ! k))"
  by (simp add: matmul_def mk_2_2 design_def cong: sum.cong_simp)

lemma matvec_rows:
  "matvec (mk 2 n f) y =
     (if length y \<noteq> n then Inl ValueError
      else Inr [\<Sum>k<n. f 0 k * y ! k, \<Sum>k<n. f 1 k * y ! k])"
  by (simp add: matvec_def numeral_2_eq_2 cong: sum.cong_simp)

lemma rmatmul_series_eq:
  "rmatmul_series A v = (if length v \<noteq> ncol A then Inl Exception else matvec A v)"
  by (simp add: rmatmul_series_def matvec_def transpose_mat_def mult.commute
      cong: sum.cong_simp)

lemma rmatmul_series_rows:
  "rmatmul_series (mk 2 n f) y =
     (if length y \<noteq> n then Inl Exception
      else Inr [\<Sum>k<n. f 0 k * y ! k, \<Sum>k<n. f 1 k * y ! k])"
  by (simp add: rmatmul_series_eq matvec_rows)

lemma matmul_mat2_rows:
  "matmul (mat2 a b c d) (mk 2 n f) =
     Inr (mk 2 n (\<lambda>i j. if i = 0 then a * f 0 j + b * f 1 j else c * f 0 j + d * f 1 j))"
  by (auto simp: matmul_def mk_eq_iff numeral_2_eq_2 less_Suc_eq)

lemma matmul_rows_diag:
  "matmul (mk 2 n f) (np_diag w) =
     (if length w \<noteq> n then Inl ValueError else Inr (mk 2 n (\<lambda>i j. f i j * w ! j)))"
  by (auto simp: matmul_def np_diag_def mk_eq_iff sum_pick cong: sum.cong_simp)

lemma gram_matrix:
  "matmul (transpose_mat (design x)) (design x)
     = Inr (mat2 (real (length x)) (sum_list x) (sum_list x) (dot x x))"
  using sum_nth_map [of "\<lambda>v. v" x] sum_nth_dot [of x x]
  by (simp add: transpose_design matmul_rows_design)

lemma matmul_mat2_design:
  "matmul (mat2 a b c d) (transpose_mat (design x))
     = Inr (mk 2 (length x) (\<lambda>i j. if i = 0 then a + b * x ! j else c + d * x ! j))"
  by (auto simp: transpose_design matmul_mat2_rows mk_eq_iff)

lemma rmatmul_series_affine_rows:
  "rmatmul_series (mk 2 (length x) (\<lambda>i j. if i = 0 then a + b * x ! j else c + d * x ! j)) y =
     (if length y \<noteq> length x then Inl Exception
      else Inr [a * sum_list y + b * dot x y, c * sum_list y + d * dot x y])"
  by (simp add: rmatmul_series_rows sum_affine_dot)

lemma weights_of_reciprocals:
  "0 \<notin> set u \<Longrightarrow> np_inv (np_diag (map (\<lambda>val. 1 / val) u)) = Inr (np_diag u)"
proof -
  assume "0 \<notin> set u"
  then have "\<forall>v \<in> set (map (\<lambda>val. 1 / val) u). v \<noteq> 0" by auto
  moreover have "map inverse (map (\<lambda>val. 1 / val) u) = u" by (simp add: comp_def)
  ultimately show ?thesis using np_inv_np_diag [of "map (\<lambda>val. 1 / val) u"] by simp
qed

lemma weighted_rows:
  "matmul (transpose_mat (design x)) (np_diag w) =
     (if length x \<noteq> length w then Inl ValueError
      else Inr (mk 2 (length w) (\<lambda>i j. if i = 0 then w ! j else w ! j * x ! j)))"
  by (auto simp: transpose_design matmul_rows_diag mk_eq_iff)

lemma weighted_sums:
  assumes "length x = length w"
  shows "(\<Sum>k<length w. w ! k) = sum_list w"
    and "length y = length w \<Longrightarrow> (\<Sum>k<length w. w ! k * y ! k) = dot w y"
    and "length y = length w \<Longrightarrow> (\<Sum>k<length w. w ! k * x ! k * y ! k) = dot (map2 (*) w x) y"
  using sum_nth_map [of "\<lambda>v. v" w] assms by (simp_all add: sum_nth_dot sum_nth_dot3)

lemma weighted_gram_matrix:
  assumes "length x = length w"
  shows "matmul (mk 2 (length w) (\<lambda>i j. if i = 0 then w ! j else w ! j * x ! j)) (design x)
     = Inr (mat2 (sum_list w) (dot w x) (dot w x) (dot (map2 (*) w x) x))"
  using matmul_rows_design [of x "\<lambda>i j. if i = 0 then w ! j else w ! j * x ! j"] assms
  by (simp add: weighted_sums)

lemma weighted_moments:
  assumes "length x = length w"
  shows "rmatmul_series (mk 2 (length w) (\<lambda>i j. if i = 0 then w ! j else w ! j * x ! j)) y =
     (if length y \<noteq> length w then Inl Exception
      else Inr [dot w y, dot (map2 (*) w x) y])"
  using assms by (simp add: rmatmul_series_rows weighted_sums)

section \<open>The two fits in closed form\<close>

lemma reciprocals_eq:
  "reciprocals u = (if 0 \<in> set u then Inl ZeroDivisionError else Inr (map (\<lambda>val. 1 / val) u))"
  by (induction u) auto

lemma normal_fit_closed:
  "normal_fit x y =
     (if gram_det x = 0 then Inl LinAlgError
      else if length y \<noteq> length x then Inl Exception
      else Inr (design x,
        [(dot x x * sum_list y - sum_list x * dot x y) / gram_det x,
         (real (length x) * dot x y - sum_list x * sum_list y) / gram_det x]))"
proof -
  have d: "real (length x) * dot x x - sum_list x * sum_list x = gram_det x"
    by (simp add: gram_det_def power2_eq_square)
  show ?thesis
    by (simp add: normal_fit_def np_c_ones gram_matrix np_inv_mat2 d matmul_mat2_design
        rmatmul_series_affine_rows diff_divide_distrib)
qed

lemma weighted_fit_closed:
  "weighted_fit (design x) y unc_y =
     (if 0 \<in> set unc_y then Inl ZeroDivisionError
      else if length x \<noteq> length unc_y then Inl ValueError
      else rbind (weighted_line unc_y x y) (\<lambda>(b0, b1).
        if length y \<noteq> length x then Inl Exception else Inr [b0, b1]))"
  by (simp add: weighted_fit_def reciprocals_eq Let_def weights_of_reciprocals weighted_rows
      weighted_gram_matrix np_inv_mat2 weighted_moments matvec_mat2 weighted_line_def
      weighted_det_def diff_divide_distrib)

lemma fit_cell_closed:
  "fit_cell x y unc_y =
     (if gram_det x = 0 then Inl LinAlgError
      else if length y \<noteq> length x then Inl Exception
      else if 0 \<in> set unc_y then Inl ZeroDivisionError
      else if length x \<noteq> length unc_y then Inl ValueError
      else rbind (weighted_line unc_y x y) (\<lambda>(b0, b1).
        Inr ([(dot x x * sum_list y - sum_list x * dot x y) / gram_det x,
              (real (length x) * dot x y - sum_list x * sum_list y) / gram_det x],
             [b0, b1], map (\<lambda>xi. b0 + b1 * xi) x)))"
  by (cases "weighted_line unc_y x y")
    (auto simp: fit_cell_def normal_fit_closed weighted_fit_closed)

section \<open>Weighted sums\<close>

lemma sum_list_map2_times: "sum_list (map2 (*) w x) = dot w x"
  by (simp add: dot_def)

lemma dot_weighted_residuals:
  "length x = length w \<Longrightarrow> length y = length w \<Longrightarrow>
   dot w (residuals x y (a, b)) = dot w y - a * dot w x - b * sum_list w"
proof (induction w arbitrary: x y)
  case Nil
  then show ?case by (simp add: residuals_def)
next
  case (Cons v w)
  then obtain xi x' yi y' where "x = xi # x'" "y = yi # y'" by (cases x; cases y) auto
  with Cons show ?case by (simp add: residuals_def algebra_simps)
qed

lemma dot_map2_const:
  "(\<forall>u \<in> set w. u = c) \<Longrightarrow> length x = length w \<Longrightarrow> dot (map2 (*) w x) y = c * dot x y"
proof (induction w arbitrary: x y)
  case Nil
  then show ?case by simp
next
  case (Cons v w)
  then obtain xi x' where "x = xi # x'" by (cases x) auto
  with Cons show ?case by (cases y) (simp_all add: algebra_simps)
qed

lemma dot_map2_affine:
  "length x = length w \<Longrightarrow>
   dot (map2 (*) w x) (map (\<lambda>xi. a * xi + b) x) = a * dot (map2 (*) w x) x + b * dot w x"
  by (induction w x rule: list_induct2') (simp_all add: algebra_simps)

lemma weighted_line_normal_equations:
  assumes "weighted_line w x y = Inr (b0, b1)" "length x = length w" "length y = length w"
  shows "dot w (residuals x y (b1, b0)) = 0"
    and "dot (map2 (*) w x) (residuals x y (b1, b0)) = 0"
proof -
  let ?d = "weighted_det w x"
  from assms(1) have d: "?d \<noteq> 0"
    and b0: "b0 = (dot (map2 (*) w x) x * dot w y - dot w x * dot (map2 (*) w x) y) / ?d"
    and b1: "b1 = (sum_list w * dot (map2 (*) w x) y - dot w x * dot w y) / ?d"
    by (auto simp: weighted_line_def Let_def split: if_splits)
  have "?d * (dot w y - b1 * dot w x - b0 * sum_list w) = 0"
    unfolding b0 b1 using d by (simp add: field_simps) (simp add: weighted_det_def algebra_simps)
  with d show "dot w (residuals x y (b1, b0)) = 0"
    using assms(2,3) by (simp add: dot_weighted_residuals)
  have "?d * (dot (map2 (*) w x) y - b1 * dot (map2 (*) w x) x - b0 * dot w x) = 0"
    unfolding b0 b1 using d by (simp add: field_simps) (simp add: weighted_det_def algebra_simps)
  with d show "dot (map2 (*) w x) (residuals x y (b1, b0)) = 0"
    using assms(2,3) by (simp add: dot_weighted_residuals sum_list_map2_times)
qed

section \<open>The weighted system is regular for positive weights\<close>

lemma weighted_sq_expand:
  "length w = length x \<Longrightarrow>
   sum_list (map2 (\<lambda>u xi. u * (xi - t)\<^sup>2) w x)
     = dot (map2 (*) w x) x - 2 * t * dot w x + t\<^sup>2 * sum_list w"
  by (induction w x rule: list_induct2) (simp_all add: power2_eq_square algebra_simps)

lemma weighted_sq_nonneg:
  fixes w :: series
  assumes "\<forall>u \<in> set w. 0 < u"
  shows "0 \<le> sum_list (map2 (\<lambda>u xi. u * (xi - t)\<^sup>2) w x)"
proof (intro sum_list_nonneg)
  fix v
  assume "v \<in> set (map2 (\<lambda>u xi. u * (xi - t)\<^sup>2) w x)"
  then obtain u xi where "u \<in> set w" "v = u * (xi - t)\<^sup>2" by (auto dest: set_zip_leftD)
  with assms show "0 \<le> v" by (simp add: less_imp_le)
qed

lemma weighted_sq_pos:
  fixes w :: series
  shows "length w = length x \<Longrightarrow> \<forall>u \<in> set w. 0 < u \<Longrightarrow> \<exists>xi \<in> set x. xi \<noteq> t \<Longrightarrow>
   0 < sum_list (map2 (\<lambda>u xi. u * (xi - t)\<^sup>2) w x)"
proof (induction w x rule: list_induct2)
  case Nil
  then show ?case by simp
next
  case (Cons u w xi x)
  show ?case
  proof (cases "xi = t")
    case True
    with Cons show ?thesis by simp
  next
    case False
    with Cons.prems(1) have "0 < u * (xi - t)\<^sup>2" by simp
    moreover have "0 \<le> sum_list (map2 (\<lambda>u xi. u * (xi - t)\<^sup>2) w x)"
      using Cons.prems(1) by (intro weighted_sq_nonneg) simp
    ultimately show ?thesis by simp
  qed
qed

lemma weighted_det_pos:
  assumes "\<forall>u \<in> set w. 0 < u" "length w = length x" "gram_det x \<noteq> 0"
  shows "0 < weighted_det w x"
proof -
  let ?sw = "sum_list w" and ?t = "dot w x / sum_list w"
  from assms(3) have ne: "x \<noteq> []" by (rule gram_det_nonzero_nonempty)
  with assms(1,2) have sw: "0 < ?sw" by (intro sum_list_pos) auto
  have "\<exists>xi \<in> set x. xi \<noteq> ?t"
  proof (rule ccontr)
    assume "\<not> ?thesis"
    then have c: "\<forall>xi \<in> set x. xi = ?t" by simp
    with ne have "mean x = ?t" by (rule mean_const)
    with c ne assms(3) show False by (simp add: gram_det_eq_0_iff)
  qed
  with assms(1,2) have "0 < sum_list (map2 (\<lambda>u xi. u * (xi - ?t)\<^sup>2) w x)"
    by (intro weighted_sq_pos)
  moreover have "weighted_det w x = ?sw * sum_list (map2 (\<lambda>u xi. u * (xi - ?t)\<^sup>2) w x)"
    unfolding weighted_sq_expand [OF assms(2)] weighted_det_def
    using sw by (simp add: power2_eq_square field_simps)
  ultimately show ?thesis using sw by simp
qed

lemma fit_cell_polyfit:
  assumes "gram_det x \<noteq> 0" "length y = length x" "length unc_y = length x"
    and "\<forall>u \<in> set unc_y. 0 < u"
  obtains a b b0 b1 where "polyfit1 x y = Inr (a, b)"
    and "fit_cell x y unc_y = Inr ([b, a], [b0, b1], map (\<lambda>xi. b0 + b1 * xi) x)"
proof -
  from assms have "weighted_det unc_y x \<noteq> 0" "0 \<notin> set unc_y"
    using weighted_det_pos [of unc_y x] by auto
  with assms have "fit_cell x y unc_y = Inr
     ([(dot x x * sum_list y - sum_list x * dot x y) / gram_det x,
       (real (length x) * dot x y - sum_list x * sum_list y) / gram_det x],
      [(dot (map2 (*) unc_y x) x * dot unc_y y - dot unc_y x * dot (map2 (*) unc_y x) y)
         / weighted_det unc_y x,
       (sum_list unc_y * dot (map2 (*) unc_y x) y - dot unc_y x * dot unc_y y)
         / weighted_det unc_y x],
      map (\<lambda>xi. (dot (map2 (*) unc_y x) x * dot unc_y y - dot unc_y x * dot (map2 (*) unc_y x) y)
         / weighted_det unc_y x
        + (sum_list unc_y * dot (map2 (*) unc_y x) y - dot unc_y x * dot unc_y y)
         / weighted_det unc_y x * xi) x)"
    by (simp add: fit_cell_closed weighted_line_def Let_def)
  moreover have "polyfit1 x y = Inr
     ((real (length x) * dot x y - sum_list x * sum_list y) / gram_det x,
      (dot x x * sum_list y - sum_list x * dot x y) / gram_det x)"
    using assms gram_det_nonzero_dot [OF assms(1)] gram_det_nonzero_nonempty [OF assms(1)]
    by (simp add: polyfit1_def lstsq_line_def Let_def)
  ultimately show ?thesis by (rule that [rotated])
qed

section \<open>The fits of the cell\<close>

text \<open>
  C9. When the positions are not all equal, the normal-equation fit of line 64 returns
  the design matrix and the coefficients of \<open>polyfit1\<close>, the intercept first and the
  slope second, and it fails exactly when \<open>polyfit1\<close> fails.
\<close>

theorem normal_fit_eq_polyfit:
  assumes "gram_det x \<noteq> 0"
  shows "normal_fit x y = Inr (X, BA) \<longleftrightarrow>
    X = design x \<and> (\<exists>a b. polyfit1 x y = Inr (a, b) \<and> BA = [b, a])"
  using assms gram_det_nonzero_dot [OF assms] gram_det_nonzero_nonempty [OF assms]
  by (auto simp: normal_fit_closed polyfit1_def lstsq_line_def Let_def)

theorem normal_fit_eq_polyfit_witness:
  "normal_fit [0, 1, 2] [1, 3, 6] = Inr (design [0, 1, 2], [5 / 6, 5 / 2]) \<and>
   polyfit1 [0, 1, 2] [1, 3, 6] = Inr (5 / 2, 5 / 6)"
proof -
  have d: "gram_det [0, 1, 2] \<noteq> 0" by (simp add: gram_det_def power2_eq_square)
  have p: "polyfit1 [0, 1, 2] [1, 3, 6] = Inr (5 / 2, 5 / 6)" by (simp add: polyfit1_eval)
  then have "\<exists>a b. polyfit1 [0, 1, 2] [1, 3, 6] = Inr (a, b) \<and> [5 / 6, 5 / 2] = [b, a]"
    by blast
  with normal_fit_eq_polyfit [OF d, of "[1, 3, 6]" "design [0, 1, 2]" "[5 / 6, 5 / 2]"] p
  show ?thesis by blast
qed

text \<open>
  C27. For positions that are all equal and not zero the two unweighted fitters
  disagree: \<open>polyfit1\<close> returns the minimum-norm line, the normal equations of line 64
  raise \<open>LinAlgError\<close> because \<open>X\<^sup>T X\<close> is singular.
\<close>

theorem normal_fit_singular:
  assumes "gram_det x = 0" "length y = length x" "dot x x \<noteq> 0"
  shows "normal_fit x y = Inl LinAlgError \<and>
    polyfit1 x y = Inr (sum_list y / (2 * sum_list x), sum_list y / (2 * real (length x)))"
  using assms by (auto simp: normal_fit_closed polyfit1_def lstsq_line_def Let_def)

theorem normal_fit_singular_witness:
  "normal_fit [2, 2] [1, 3] = Inl LinAlgError \<and> polyfit1 [2, 2] [1, 3] = Inr (1 / 2, 1)"
  using normal_fit_singular [of "[2, 2]" "[1, 3]"] by (simp add: gram_det_def)

text \<open>
  C6. The coefficients that line 70 returns satisfy the normal equations of least
  squares weighted by the uncertainties themselves: the residuals, weighted by
  \<open>unc_y\<close>, sum to zero and are orthogonal to the positions. Inverting the matrix of
  reciprocals gives back the uncertainties, so an observation counts more the more
  uncertain it is.
\<close>

theorem weighted_fit_normal_equations:
  assumes "weighted_fit (design x) y unc_y = Inr BA_w"
  shows "\<exists>b0 b1. BA_w = [b0, b1] \<and> dot unc_y (residuals x y (b1, b0)) = 0
    \<and> dot (map2 (*) unc_y x) (residuals x y (b1, b0)) = 0"
proof -
  from assms obtain b0 b1 where "weighted_line unc_y x y = Inr (b0, b1)" "BA_w = [b0, b1]"
    "length x = length unc_y" "length y = length unc_y"
    by (auto simp: weighted_fit_closed rbind_eq_Inr_iff split: if_splits)
  with weighted_line_normal_equations [of unc_y x y b0 b1] show ?thesis by simp
qed

theorem weighted_fit_normal_equations_witness:
  "weighted_fit (design [0, 1, 2]) [1, 3, 6] [1, 1, 2] = Inr [9 / 11, 28 / 11] \<and>
   dot [1, 1, 2] (residuals [0, 1, 2] [1, 3, 6] (28 / 11, 9 / 11)) = 0 \<and>
   dot (map2 (*) [1, 1, 2] [0, 1, 2]) (residuals [0, 1, 2] [1, 3, 6] (28 / 11, 9 / 11)) = 0"
proof -
  have w: "weighted_fit (design [0, 1, 2]) [1, 3, 6] [1, 1, 2] = Inr [9 / 11, 28 / 11]"
    by code_simp
  from weighted_fit_normal_equations [OF w] obtain b0 b1 where
    "[9 / 11, 28 / 11] = [b0, b1]" "dot [1, 1, 2] (residuals [0, 1, 2] [1, 3, 6] (b1, b0)) = 0"
    "dot (map2 (*) [1, 1, 2] [0, 1, 2]) (residuals [0, 1, 2] [1, 3, 6] (b1, b0)) = 0"
    by blast
  moreover from this(1) have "b0 = 9 / 11" "b1 = 28 / 11" by simp_all
  ultimately show ?thesis using w by simp
qed

text \<open>
  C22. With one uncertainty for all observations, whatever its value, the weighted
  coefficients are the unweighted ones.
\<close>

theorem weighted_fit_uniform:
  assumes "normal_fit x y = Inr (X, BA)" "length unc_y = length x"
    and "\<forall>u \<in> set unc_y. u = c" "c \<noteq> 0"
  shows "weighted_fit X y unc_y = Inr BA"
proof -
  from assms(1) have d: "gram_det x \<noteq> 0" and ly: "length y = length x" and X: "X = design x"
    and BA: "BA = [(dot x x * sum_list y - sum_list x * dot x y) / gram_det x,
        (real (length x) * dot x y - sum_list x * sum_list y) / gram_det x]"
    by (auto simp: normal_fit_closed split: if_splits)
  have s: "sum_list unc_y = real (length x) * c" "dot unc_y x = c * sum_list x"
    "dot unc_y y = c * sum_list y" "dot (map2 (*) unc_y x) x = c * dot x x"
    "dot (map2 (*) unc_y x) y = c * dot x y"
    using assms(2,3) ly by (simp_all add: sum_list_const dot_const_left dot_map2_const)
  have wd: "weighted_det unc_y x = c * c * gram_det x"
    by (simp add: weighted_det_def s gram_det_def power2_eq_square algebra_simps)
  from assms(3,4) have "0 \<notin> set unc_y" by auto
  with d assms(2,4) ly show ?thesis
    unfolding X BA by (simp add: weighted_fit_closed weighted_line_def wd s field_simps)
qed

theorem weighted_fit_uniform_witness:
  "normal_fit [0, 1, 2] [1, 3, 6] = Inr (design [0, 1, 2], [5 / 6, 5 / 2]) \<and>
   weighted_fit (design [0, 1, 2]) [1, 3, 6] [3, 3, 3] = Inr [5 / 6, 5 / 2]"
proof -
  have n: "normal_fit [0, 1, 2] [1, 3, 6] = Inr (design [0, 1, 2], [5 / 6, 5 / 2])"
    by (simp add: normal_fit_closed gram_det_def power2_eq_square)
  from weighted_fit_uniform [OF n, of "[3, 3, 3]" 3] n show ?thesis by simp
qed

text \<open>
  C23. Values that lie exactly on a line are fitted by that line whatever the
  uncertainties are: unequal uncertainties do not by themselves make the weighted
  slope differ from the unweighted one.
\<close>

theorem weighted_fit_exact_line:
  assumes "0 \<notin> set unc_y" "length unc_y = length x" "weighted_det unc_y x \<noteq> 0"
  shows "weighted_fit (design x) (map (\<lambda>xi. a * xi + b) x) unc_y = Inr [b, a]"
proof -
  have "dot unc_y (map (\<lambda>xi. a * xi + b) x) = a * dot unc_y x + b * sum_list unc_y"
    using assms(2) by (simp add: dot_map_affine)
  moreover have "dot (map2 (*) unc_y x) (map (\<lambda>xi. a * xi + b) x)
      = a * dot (map2 (*) unc_y x) x + b * dot unc_y x"
    using assms(2) by (simp add: dot_map2_affine)
  moreover have "(dot (map2 (*) unc_y x) x * (a * dot unc_y x + b * sum_list unc_y)
      - dot unc_y x * (a * dot (map2 (*) unc_y x) x + b * dot unc_y x)) = b * weighted_det unc_y x"
    "(sum_list unc_y * (a * dot (map2 (*) unc_y x) x + b * dot unc_y x)
      - dot unc_y x * (a * dot unc_y x + b * sum_list unc_y)) = a * weighted_det unc_y x"
    by (simp_all add: weighted_det_def algebra_simps)
  ultimately show ?thesis
    using assms by (simp add: weighted_fit_closed weighted_line_def)
qed

theorem weighted_fit_exact_line_witness:
  "weighted_fit (design [0, 1, 2]) (map (\<lambda>xi. 2 * xi + 1) [0, 1, 2]) [1, 1, 2] = Inr [1, 2] \<and>
   polyfit1 [0, 1, 2] (map (\<lambda>xi. 2 * xi + 1) [0, 1, 2]) = Inr (2, 1)"
  using weighted_fit_exact_line [of "[1, 1, 2]" "[0, 1, 2]" 2 1]
  by (simp add: weighted_det_def polyfit1_eval)

text \<open>
  C12. The cell of lines 63 to 73 in closed form, every way it can end included:
  \<open>LinAlgError\<close> for positions that are all equal, the bare \<open>Exception\<close> of pandas for
  values of another length than the positions, \<open>ZeroDivisionError\<close> for an uncertainty
  of zero, \<open>ValueError\<close> for uncertainties of another length than the positions,
  \<open>LinAlgError\<close> for a singular weighted system, and otherwise the
  unweighted coefficients, the weighted coefficients and the weighted model
  \<open>BA_w[0] + BA_w[1] * x\<close>.
\<close>

theorem fit_cell_cases:
  "fit_cell x y unc_y =
     (if gram_det x = 0 then Inl LinAlgError
      else if length y \<noteq> length x then Inl Exception
      else if 0 \<in> set unc_y then Inl ZeroDivisionError
      else if length x \<noteq> length unc_y then Inl ValueError
      else rbind (weighted_line unc_y x y) (\<lambda>(b0, b1).
        Inr ([(dot x x * sum_list y - sum_list x * dot x y) / gram_det x,
              (real (length x) * dot x y - sum_list x * sum_list y) / gram_det x],
             [b0, b1], map (\<lambda>xi. b0 + b1 * xi) x)))"
  by (rule fit_cell_closed)

text \<open>
  C18. For positions that are not all equal, values and uncertainties of the same
  length as the positions, and uncertainties that are all positive, no call of the
  cell raises: it returns two unweighted coefficients, two weighted coefficients and
  a weighted model with one value per position.
\<close>

theorem fit_cell_total:
  assumes "gram_det x \<noteq> 0" "length y = length x" "length unc_y = length x"
    and "\<forall>u \<in> set unc_y. 0 < u"
  shows "\<exists>BA BA_w model_w. fit_cell x y unc_y = Inr (BA, BA_w, model_w)
    \<and> length BA = 2 \<and> length BA_w = 2 \<and> length model_w = length x"
proof -
  from assms have "weighted_det unc_y x \<noteq> 0" "0 \<notin> set unc_y"
    using weighted_det_pos [of unc_y x] by auto
  with assms show ?thesis
    by (simp add: fit_cell_closed weighted_line_def Let_def)
qed

theorem fit_cell_total_witness:
  "\<exists>BA BA_w model_w. fit_cell [0, 1, 2] [1, 3, 6] [1, 1, 2] = Inr (BA, BA_w, model_w)
    \<and> length BA = 2 \<and> length BA_w = 2 \<and> length model_w = length [0, 1, 2 :: real]"
  using fit_cell_total [of "[0, 1, 2]" "[1, 3, 6]" "[1, 1, 2]"]
  by (simp add: gram_det_def power2_eq_square)

end
