(* ===== verification/Monte_Carlo.thy ===== *)
theory Monte_Carlo
  imports Regression
begin

text \<open>
  The Monte Carlo engine of the notebook (lines 119-134 and its call in line 145):
  \<^verbatim>\<open>jiggle_data\<close> redraws every observed value uniformly within its uncertainty window,
  \<^verbatim>\<open>multi_OLS\<close> repeats redraw-and-refit and collects slopes, intercepts and fitted lines.

  numpy's global random generator is the only state of the engine. It is modelled by
  the record \<open>rng\<close>: the sequence of unit-interval samples the generator will
  produce (\<open>draws\<close>) and the number already consumed (\<open>pos\<close>). One call of
  \<^verbatim>\<open>np.random.uniform(low, high)\<close> returns \<open>low + (high - low) * u\<close> for the next
  sample \<open>u\<close> and moves \<open>pos\<close> by one. The predicate \<open>unit_draws\<close> states what the
  generator guarantees, \<open>0 \<le> u < 1\<close>.

  The loop of \<^verbatim>\<open>multi_OLS\<close> is \<open>mc_loop\<close>, one \<open>mc_step\<close> per pass, on the accumulator
  record \<open>ensemble\<close> of the three lists the function returns. The loop counter is
  Python's \<^verbatim>\<open>range(iterations)\<close>: a count that is zero or negative runs no pass. An
  exception raised by the fitter ends the run.

  The abstract specification is \<open>mc_iteration\<close>: iteration \<open>k\<close> on its own, reading its
  block of samples directly. The refinement theorem shows that the sequential loop
  returns exactly the list of these independent iterations; sizes, failure conditions,
  the state of the generator afterwards and the bounds on perturbed values and refitted
  slopes follow from it.
\<close>

section \<open>Model\<close>

subsection \<open>The random generator\<close>

record rng =
  draws :: "nat \<Rightarrow> real"
  pos :: nat

definition unit_draws :: "rng \<Rightarrow> bool" where
  "unit_draws g \<longleftrightarrow> (\<forall>i. 0 \<le> draws g i \<and> draws g i < 1)"

definition advance :: "nat \<Rightarrow> rng \<Rightarrow> rng" where
  "advance k g = g\<lparr>pos := pos g + k\<rparr>"

definition random_sample :: "rng \<Rightarrow> real \<times> rng" where
  "random_sample g = (draws g (pos g), advance 1 g)"

definition uniform :: "real \<Rightarrow> real \<Rightarrow> rng \<Rightarrow> real \<times> rng" where
  "uniform low high g = (let (u, g') = random_sample g in (low + (high - low) * u, g'))"

subsection \<open>jiggle\_data\<close>

text \<open>
  Line 120: \<^verbatim>\<open>[np.random.uniform(val-unc, val+unc) for val, unc in zip(y, unc_y)]\<close>.
  The comprehension draws from left to right and stops with the shorter list.
\<close>

fun jiggle_data :: "series \<Rightarrow> series \<Rightarrow> rng \<Rightarrow> series \<times> rng" where
  "jiggle_data (val # y) (unc # unc_y) g =
     (let (v, g1) = uniform (val - unc) (val + unc) g;
          (y_jig, g2) = jiggle_data y unc_y g1
      in (v # y_jig, g2))"
| "jiggle_data _ _ g = ([], g)"

subsection \<open>multi\_OLS\<close>

record ensemble =
  slope_list :: series
  intercept_list :: series
  model_list :: "series list"

text \<open>Lines 128-132: one pass of the loop body.\<close>

definition mc_step ::
  "series \<Rightarrow> series \<Rightarrow> series \<Rightarrow> ensemble \<times> rng \<Rightarrow> (ensemble \<times> rng) result" where
  "mc_step x y unc_y st =
     (let (acc, g) = st; (y_jig, g') = jiggle_data y unc_y g
      in rbind (regress_data x y_jig) (\<lambda>(s, i).
           Inr (\<lparr>slope_list = slope_list acc @ [s],
                  intercept_list = intercept_list acc @ [i],
                  model_list = model_list acc @ [map (\<lambda>xi. xi * s + i) x]\<rparr>, g')))"

fun mc_loop ::
  "nat \<Rightarrow> series \<Rightarrow> series \<Rightarrow> series \<Rightarrow> ensemble \<times> rng \<Rightarrow> (ensemble \<times> rng) result" where
  "mc_loop 0 x y unc_y st = Inr st"
| "mc_loop (Suc v) x y unc_y st = rbind (mc_step x y unc_y st) (mc_loop v x y unc_y)"

definition multi_OLS ::
  "series \<Rightarrow> series \<Rightarrow> series \<Rightarrow> int \<Rightarrow> rng \<Rightarrow> (ensemble \<times> rng) result" where
  "multi_OLS x y unc_y iterations g =
     mc_loop (nat iterations) x y unc_y
       (\<lparr>slope_list = [], intercept_list = [], model_list = []\<rparr>, g)"

text \<open>Line 145: \<^verbatim>\<open>slopes, intercepts, models = multi_OLS(x, y, 2*unc_y, 1000)\<close>.\<close>

definition monte_carlo_run ::
  "series \<Rightarrow> series \<Rightarrow> series \<Rightarrow> rng \<Rightarrow> ((series \<times> series \<times> series list) \<times> rng) result" where
  "monte_carlo_run x y unc_y g =
     rbind (multi_OLS x y (map (\<lambda>u. 2 * u) unc_y) 1000 g)
       (\<lambda>(e, g'). Inr ((slope_list e, intercept_list e, model_list e), g'))"

subsection \<open>Specification: independent iterations\<close>

definition mc_iteration ::
  "series \<Rightarrow> series \<Rightarrow> series \<Rightarrow> rng \<Rightarrow> nat \<Rightarrow> (real \<times> real) result" where
  "mc_iteration x y unc_y g k =
     regress_data x (fst (jiggle_data y unc_y (advance (k * min (length y) (length unc_y)) g)))"

definition add_fit :: "series \<Rightarrow> ensemble \<Rightarrow> real \<times> real \<Rightarrow> ensemble" where
  "add_fit x acc f =
     \<lparr>slope_list = slope_list acc @ [fst f],
      intercept_list = intercept_list acc @ [snd f],
      model_list = model_list acc @ [map (\<lambda>xi. xi * fst f + snd f) x]\<rparr>"

definition ensemble_of :: "series \<Rightarrow> (real \<times> real) list \<Rightarrow> ensemble" where
  "ensemble_of x fits =
     \<lparr>slope_list = map fst fits,
      intercept_list = map snd fits,
      model_list = map (\<lambda>f. map (\<lambda>xi. xi * fst f + snd f) x) fits\<rparr>"

abbreviation alternating :: rng where
  "alternating \<equiv> \<lparr>draws = (\<lambda>i. if even i then 1 / 4 else 3 / 4), pos = 0\<rparr>"

section \<open>The generator\<close>

lemma advance_simps [simp]:
  "draws (advance k g) = draws g" "pos (advance k g) = pos g + k"
  "advance 0 g = g" "advance j (advance k g) = advance (k + j) g"
  by (simp_all add: advance_def add.assoc)

lemma unit_draws_advance [simp]: "unit_draws (advance k g) = unit_draws g"
  by (simp add: unit_draws_def)

lemma uniform_eq: "uniform low high g = (low + (high - low) * draws g (pos g), advance 1 g)"
  by (simp add: uniform_def random_sample_def)

lemma mc_loop_numeral:
  "mc_loop (numeral n) x y u st = rbind (mc_step x y u st) (mc_loop (pred_numeral n) x y u)"
  by (simp add: numeral_eq_Suc)

lemmas mc_eval = multi_OLS_def mc_loop_numeral mc_step_def uniform_eq advance_def
  regress_data_def polyfit1_eval Let_def

lemma unit_draw_window:
  fixes d v h :: real
  assumes "0 \<le> d" "d < 1"
  shows "\<bar>(v - h) + ((v + h) - (v - h)) * d - v\<bar> \<le> \<bar>h\<bar>"
proof -
  have "(v - h) + ((v + h) - (v - h)) * d - v = h * (2 * d - 1)" by (simp add: algebra_simps)
  moreover have "\<bar>2 * d - 1\<bar> \<le> 1" using assms by (simp add: abs_le_iff)
  ultimately show ?thesis
    by (simp add: abs_mult mult_left_le)
qed

section \<open>Perturbation\<close>

lemma jiggle_data_Cons:
  "jiggle_data (v # y) (h # u) g =
     (((v - h) + ((v + h) - (v - h)) * draws g (pos g)) # fst (jiggle_data y u (advance 1 g)),
      snd (jiggle_data y u (advance 1 g)))"
  by (simp add: uniform_eq split: prod.splits)

lemma jiggle_data_rng: "snd (jiggle_data y u g) = advance (min (length y) (length u)) g"
  by (induction y u arbitrary: g rule: list_induct2')
     (simp_all add: jiggle_data_Cons del: jiggle_data.simps(1))

lemma jiggle_data_values:
  "fst (jiggle_data y u g)
     = map (\<lambda>k. (y ! k - u ! k) + ((y ! k + u ! k) - (y ! k - u ! k)) * draws g (pos g + k))
         [0..<min (length y) (length u)]"
  by (induction y u arbitrary: g rule: list_induct2')
     (simp_all add: jiggle_data_Cons upt_0_Suc_map comp_def del: jiggle_data.simps(1) upt_Suc)

lemma length_jiggle_data [simp]:
  "length (fst (jiggle_data y u g)) = min (length y) (length u)"
  by (simp add: jiggle_data_values)

lemma jiggle_data_nth:
  assumes "k < length y" "k < length u"
  shows "fst (jiggle_data y u g) ! k
    = (y ! k - u ! k) + ((y ! k + u ! k) - (y ! k - u ! k)) * draws g (pos g + k)"
  using assms by (simp add: jiggle_data_values)

lemma jiggle_data_abs_le:
  assumes "unit_draws g" "k < length y" "k < length u"
  shows "\<bar>fst (jiggle_data y u g) ! k - y ! k\<bar> \<le> \<bar>u ! k\<bar>"
  using assms unit_draw_window [of "draws g (pos g + k)" "y ! k" "u ! k"]
  by (simp add: jiggle_data_nth unit_draws_def)

lemma jiggle_data_zero_window:
  assumes "\<forall>h \<in> set u. h = 0" "length u = length y"
  shows "fst (jiggle_data y u g) = y"
  using assms by (auto simp: jiggle_data_values intro!: nth_equalityI)

text \<open>
  C1 (bounds). Every perturbed value lies in the window of its observation: for a
  generator that yields samples in \<open>[0, 1)\<close>, \<^verbatim>\<open>jiggle_data\<close> returns as many values as
  the shorter of its two arguments has, and the \<open>k\<close>-th of them satisfies
  \<open>y\<^sub>k - h\<^sub>k \<le> y'\<^sub>k \<le> y\<^sub>k + h\<^sub>k\<close> whenever the half-width \<open>h\<^sub>k\<close> is not negative.
\<close>

theorem jiggle_data_within_window:
  assumes "unit_draws g"
  shows "length (fst (jiggle_data y unc_y g)) = min (length y) (length unc_y)
    \<and> (\<forall>k < min (length y) (length unc_y). 0 \<le> unc_y ! k \<longrightarrow>
          y ! k - unc_y ! k \<le> fst (jiggle_data y unc_y g) ! k
        \<and> fst (jiggle_data y unc_y g) ! k \<le> y ! k + unc_y ! k)"
proof -
  have "y ! k - unc_y ! k \<le> fst (jiggle_data y unc_y g) ! k
      \<and> fst (jiggle_data y unc_y g) ! k \<le> y ! k + unc_y ! k"
    if "k < min (length y) (length unc_y)" "0 \<le> unc_y ! k" for k
    using that jiggle_data_abs_le [OF assms, of k y unc_y] by (simp add: abs_le_iff)
  then show ?thesis by simp
qed

theorem jiggle_data_within_window_witness:
  "unit_draws alternating
   \<and> fst (jiggle_data [1, 2, 3] [1 / 10, 1 / 5, 0] alternating) = [19 / 20, 21 / 10, 3]
   \<and> (19 / 20 :: real) \<in> {1 - 1 / 10 .. 1 + 1 / 10}
   \<and> (21 / 10 :: real) \<in> {2 - 1 / 5 .. 2 + 1 / 5}"
proof -
  have u: "unit_draws alternating" by (simp add: unit_draws_def)
  have v: "fst (jiggle_data [1, 2, 3] [1 / 10, 1 / 5, 0] alternating) = [19 / 20, 21 / 10, 3]"
    by (simp add: uniform_eq advance_def)
  from jiggle_data_within_window [OF u, of "[1, 2, 3]" "[1 / 10, 1 / 5, 0]"] u v
  show ?thesis by simp
qed

text \<open>
  C32 (functional). The window does not collapse for a negative half-width: whenever
  \<open>h\<^sub>k \<noteq> 0\<close> and the sample used for observation \<open>k\<close> is not exactly \<open>1/2\<close>, the
  perturbed value differs from the observed one. Only \<open>h\<^sub>k = 0\<close> gives a point mass.
\<close>

theorem jiggle_data_not_point_mass:
  assumes "k < length y" "k < length unc_y" "unc_y ! k \<noteq> 0" "draws g (pos g + k) \<noteq> 1 / 2"
  shows "fst (jiggle_data y unc_y g) ! k \<noteq> y ! k"
proof -
  have "fst (jiggle_data y unc_y g) ! k - y ! k = unc_y ! k * (2 * draws g (pos g + k) - 1)"
    using assms(1,2) by (simp add: jiggle_data_nth algebra_simps)
  with assms(3,4) show ?thesis by auto
qed

theorem jiggle_data_not_point_mass_witness:
  "[- 1 / 2 :: real] ! 0 \<noteq> 0 \<and> draws alternating (pos alternating + 0) \<noteq> 1 / 2
   \<and> fst (jiggle_data [1] [- 1 / 2] alternating) ! 0 = 5 / 4
   \<and> fst (jiggle_data [1] [- 1 / 2] alternating) ! 0 \<noteq> [1] ! 0"
proof -
  have v: "fst (jiggle_data [1] [- 1 / 2] alternating) ! 0 = 5 / 4" by (simp add: uniform_eq)
  from jiggle_data_not_point_mass [of 0 "[1]" "[- 1 / 2]" alternating] v
  show ?thesis by simp
qed

section \<open>The loop and its independent iterations\<close>

lemma mc_step_eq:
  "mc_step x y u (acc, g) =
     rbind (mc_iteration x y u g 0)
       (\<lambda>f. Inr (add_fit x acc f, advance (min (length y) (length u)) g))"
  by (simp add: mc_step_def mc_iteration_def add_fit_def case_prod_unfold Let_def
        flip: jiggle_data_rng)

lemma mc_iteration_Suc:
  "mc_iteration x y u g (Suc k) = mc_iteration x y u (advance (min (length y) (length u)) g) k"
  by (simp add: mc_iteration_def add.commute)

lemma foldl_add_fit:
  "foldl (add_fit x) acc fits =
     \<lparr>slope_list = slope_list acc @ map fst fits,
      intercept_list = intercept_list acc @ map snd fits,
      model_list = model_list acc @ map (\<lambda>f. map (\<lambda>xi. xi * fst f + snd f) x) fits\<rparr>"
  by (induction fits arbitrary: acc) (simp_all add: add_fit_def)

lemma mc_loop_collect:
  "mc_loop n x y u (acc, g) =
     rbind (collect (map (mc_iteration x y u g) [0..<n]))
       (\<lambda>fits. Inr (foldl (add_fit x) acc fits, advance (n * min (length y) (length u)) g))"
proof (induction n arbitrary: acc g)
  case 0
  show ?case by simp
next
  case (Suc n)
  let ?m = "min (length y) (length u)"
  show ?case
  proof (cases "mc_iteration x y u g 0")
    case (Inl e)
    then show ?thesis
      by (simp add: mc_step_eq upt_0_Suc_map del: upt_Suc)
  next
    case (Inr f)
    have "map (mc_iteration x y u g) [0..<Suc n]
        = Inr f # map (mc_iteration x y u (advance ?m g)) [0..<n]"
      using Inr by (simp add: upt_0_Suc_map comp_def mc_iteration_Suc del: upt_Suc)
    then show ?thesis
      using Inr Suc.IH [of "add_fit x acc f" "advance ?m g"]
      by (cases "collect (map (mc_iteration x y u (advance ?m g)) [0..<n])")
         (simp_all add: mc_step_eq add.commute del: upt_Suc)
  qed
qed

lemma multi_OLS_collect:
  "multi_OLS x y u K g =
     rbind (collect (map (mc_iteration x y u g) [0..<nat K]))
       (\<lambda>fits. Inr (ensemble_of x fits, advance (nat K * min (length y) (length u)) g))"
  by (simp add: multi_OLS_def mc_loop_collect foldl_add_fit ensemble_of_def)

lemma multi_OLS_Inr_iff:
  "multi_OLS x y u K g = Inr (e, g') \<longleftrightarrow>
     (\<exists>fits. map (mc_iteration x y u g) [0..<nat K] = map Inr fits
        \<and> e = ensemble_of x fits \<and> g' = advance (nat K * min (length y) (length u)) g)"
  unfolding multi_OLS_collect by (auto simp: rbind_eq_Inr_iff collect_eq_Inr_iff)

lemma mc_iteration_ok_iff:
  "is_ok (mc_iteration x y u g k)
     \<longleftrightarrow> length x = min (length y) (length u) \<and> (\<exists>xi \<in> set x. xi \<noteq> 0)"
  by (simp add: mc_iteration_def polyfit1_ok_iff)

text \<open>
  C2 (refinement). The sequential loop of \<^verbatim>\<open>multi_OLS\<close> computes exactly the independent
  iterations of the specification: iteration \<open>k\<close> perturbs the observed values with the
  \<open>k\<close>-th block of samples and refits, no iteration reads what an earlier one produced,
  the results are returned in iteration order, the first failing iteration decides the
  error, and on success the generator has advanced by one sample per observation and
  iteration.
\<close>

theorem multi_OLS_parallel:
  "multi_OLS x y unc_y iterations g =
     rbind (collect (map (mc_iteration x y unc_y g) [0..<nat iterations]))
       (\<lambda>fits. Inr (ensemble_of x fits,
                     advance (nat iterations * min (length y) (length unc_y)) g))"
  unfolding multi_OLS_def by (simp add: mc_loop_collect foldl_add_fit ensemble_of_def)

text \<open>
  C7 (functional). A run of \<^verbatim>\<open>multi_OLS\<close> that returns yields exactly \<open>iterations\<close>
  slopes, as many intercepts and as many fitted lines (none for a count that is not
  positive), and every fitted line has one value per position.
\<close>

theorem multi_OLS_ensemble_size:
  assumes "multi_OLS x y unc_y iterations g = Inr (e, g')"
  shows "length (slope_list e) = nat iterations
    \<and> length (intercept_list e) = nat iterations
    \<and> length (model_list e) = nat iterations
    \<and> (\<forall>m \<in> set (model_list e). length m = length x)"
proof -
  from assms obtain fits where
    f: "map (mc_iteration x y unc_y g) [0..<nat iterations] = map Inr fits"
    and e: "e = ensemble_of x fits"
    by (auto simp: multi_OLS_Inr_iff)
  from f have "length fits = nat iterations" by (rule map_upt_eq_map_imp_length)
  then show ?thesis by (auto simp: e ensemble_of_def)
qed

theorem multi_OLS_ensemble_size_witness:
  "multi_OLS [0, 1, 2] [1, 3, 5] [1, 1, 1] 2 alternating
     = Inr (\<lparr>slope_list = [2, 2], intercept_list = [5 / 6, 7 / 6],
             model_list = [[5 / 6, 17 / 6, 29 / 6], [7 / 6, 19 / 6, 31 / 6]]\<rparr>,
            alternating\<lparr>pos := 6\<rparr>)
   \<and> length [2, 2 :: real] = nat 2
   \<and> length [[5 / 6, 17 / 6, 29 / 6], [7 / 6, 19 / 6, 31 / 6 :: real]] = nat 2"
proof -
  have r: "multi_OLS [0, 1, 2] [1, 3, 5] [1, 1, 1] 2 alternating
     = Inr (\<lparr>slope_list = [2, 2], intercept_list = [5 / 6, 7 / 6],
             model_list = [[5 / 6, 17 / 6, 29 / 6], [7 / 6, 19 / 6, 31 / 6]]\<rparr>,
            alternating\<lparr>pos := 6\<rparr>)"
    by (simp add: mc_eval)
  from multi_OLS_ensemble_size [OF r] r show ?thesis by simp
qed

text \<open>
  C11 (termination). \<^verbatim>\<open>multi_OLS\<close> returns an ensemble exactly when no pass is run, or
  the positions are as many as the perturbed values (the shorter of values and
  half-widths) and not all zero. Whether it returns does not depend on the samples
  drawn, so a run never fails half way for an unlucky draw.
\<close>

theorem multi_OLS_ok_iff:
  "is_ok (multi_OLS x y unc_y iterations g) \<longleftrightarrow>
     iterations \<le> 0
     \<or> (length x = min (length y) (length unc_y) \<and> (\<exists>xi \<in> set x. xi \<noteq> 0))"
proof -
  have "is_ok (multi_OLS x y unc_y iterations g)
        \<longleftrightarrow> is_ok (collect (map (mc_iteration x y unc_y g) [0..<nat iterations]))"
    unfolding multi_OLS_collect
    by (cases "collect (map (mc_iteration x y unc_y g) [0..<nat iterations])") simp_all
  also have "\<dots> \<longleftrightarrow> (\<forall>k < nat iterations. is_ok (mc_iteration x y unc_y g k))"
    by (auto simp: collect_ok_iff)
  also have "\<dots> \<longleftrightarrow> iterations \<le> 0
      \<or> (length x = min (length y) (length unc_y) \<and> (\<exists>xi \<in> set x. xi \<noteq> 0))"
  proof (cases "iterations \<le> 0")
    case True
    then show ?thesis by simp
  next
    case False
    then have "0 < nat iterations" by simp
    then show ?thesis unfolding mc_iteration_ok_iff using False by blast
  qed
  finally show ?thesis .
qed

text \<open>
  C20 (functional). In a run that returns, the \<open>k\<close>-th slope and intercept are the fit
  of iteration \<open>k\<close> taken alone, and the \<open>k\<close>-th fitted line is that slope and
  intercept applied to the positions.
\<close>

theorem multi_OLS_nth:
  assumes "multi_OLS x y unc_y iterations g = Inr (e, g')" and "k < nat iterations"
  shows "mc_iteration x y unc_y g k = Inr (slope_list e ! k, intercept_list e ! k)
    \<and> model_list e ! k = map (\<lambda>xi. xi * slope_list e ! k + intercept_list e ! k) x"
proof -
  from assms obtain fits where
    f: "map (mc_iteration x y unc_y g) [0..<nat iterations] = map Inr fits"
    and e: "e = ensemble_of x fits"
    by (auto simp: multi_OLS_Inr_iff)
  from f have len: "length fits = nat iterations" by (rule map_upt_eq_map_imp_length)
  from f assms(2) have "mc_iteration x y unc_y g k = Inr (fits ! k)"
    by (rule map_upt_eq_map_nth)
  with assms(2) len show ?thesis by (simp add: e ensemble_of_def)
qed

theorem multi_OLS_nth_witness:
  "multi_OLS [0, 1, 2] [1, 3, 5] [1, 1, 1] 2 alternating
     = Inr (\<lparr>slope_list = [2, 2], intercept_list = [5 / 6, 7 / 6],
             model_list = [[5 / 6, 17 / 6, 29 / 6], [7 / 6, 19 / 6, 31 / 6]]\<rparr>,
            alternating\<lparr>pos := 6\<rparr>)
   \<and> (1 :: nat) < nat 2
   \<and> mc_iteration [0, 1, 2] [1, 3, 5] [1, 1, 1] alternating 1 = Inr (2, 7 / 6)"
proof -
  have r: "multi_OLS [0, 1, 2] [1, 3, 5] [1, 1, 1] 2 alternating
     = Inr (\<lparr>slope_list = [2, 2], intercept_list = [5 / 6, 7 / 6],
             model_list = [[5 / 6, 17 / 6, 29 / 6], [7 / 6, 19 / 6, 31 / 6]]\<rparr>,
            alternating\<lparr>pos := 6\<rparr>)"
    by (simp add: mc_eval)
  from multi_OLS_nth [OF r, of 1] r show ?thesis by simp
qed

text \<open>
  C29 (functional). With every half-width zero the engine adds no randomness: each
  iteration returns the slope and intercept of the fit to the observed values.
\<close>

theorem multi_OLS_zero_window:
  assumes "\<forall>h \<in> set unc_y. h = 0" and "length unc_y = length y"
    and "multi_OLS x y unc_y iterations g = Inr (e, g')" and "k < nat iterations"
  shows "polyfit1 x y = Inr (slope_list e ! k, intercept_list e ! k)"
proof -
  from assms(3) obtain fits where
    f: "map (mc_iteration x y unc_y g) [0..<nat iterations] = map Inr fits"
    and e: "e = ensemble_of x fits"
    by (auto simp: multi_OLS_Inr_iff)
  from f have len: "length fits = nat iterations" by (rule map_upt_eq_map_imp_length)
  from f assms(4) have "mc_iteration x y unc_y g k = Inr (fits ! k)"
    by (rule map_upt_eq_map_nth)
  with assms(1,2,4) len show ?thesis
    by (simp add: e ensemble_of_def mc_iteration_def jiggle_data_zero_window)
qed

theorem multi_OLS_zero_window_witness:
  "set [0, 0, 0 :: real] = {0} \<and> length [0, 0, 0 :: real] = length [1, 3, 6 :: real]
   \<and> (0 :: nat) < nat 1
   \<and> multi_OLS [0, 1, 2] [1, 3, 6] [0, 0, 0] 1 alternating
       = Inr (\<lparr>slope_list = [5 / 2], intercept_list = [5 / 6],
               model_list = [[5 / 6, 10 / 3, 35 / 6]]\<rparr>, alternating\<lparr>pos := 3\<rparr>)
   \<and> polyfit1 [0, 1, 2] [1, 3, 6] = Inr (5 / 2, 5 / 6)"
proof -
  have r: "multi_OLS [0, 1, 2] [1, 3, 6] [0, 0, 0] 1 alternating
       = Inr (\<lparr>slope_list = [5 / 2], intercept_list = [5 / 6],
               model_list = [[5 / 6, 10 / 3, 35 / 6]]\<rparr>, alternating\<lparr>pos := 3\<rparr>)"
    by (simp add: mc_eval)
  from multi_OLS_zero_window [OF _ _ r, of 0] r show ?thesis by simp
qed

section \<open>How far a refitted slope can move\<close>

lemma multi_OLS_total:
  assumes "length x = min (length y) (length u)" "\<exists>xi \<in> set x. xi \<noteq> 0"
  obtains fits where "length fits = nat K"
    and "\<forall>k < nat K. mc_iteration x y u g k = Inr (fits ! k)"
    and "multi_OLS x y u K g
      = Inr (ensemble_of x fits, advance (nat K * min (length y) (length u)) g)"
proof -
  from assms have "is_ok (mc_iteration x y u g k)" for k
    by (simp add: mc_iteration_ok_iff)
  then have "\<forall>k. \<exists>v. mc_iteration x y u g k = Inr v"
    unfolding is_ok_iff by blast
  then obtain f where f: "\<And>k. mc_iteration x y u g k = Inr (f k)" by metis
  let ?fits = "map f [0..<nat K]"
  have "map (mc_iteration x y u g) [0..<nat K] = map Inr ?fits" by (simp add: f)
  then have "multi_OLS x y u K g
      = Inr (ensemble_of x ?fits, advance (nat K * min (length y) (length u)) g)"
    unfolding multi_OLS_Inr_iff by blast
  with f show ?thesis by (intro that [of ?fits]) simp_all
qed

lemma monte_carlo_run_total:
  assumes "length y = length x" "length unc_y = length x" "\<exists>xi \<in> set x. xi \<noteq> 0"
  obtains fits where "length fits = 1000"
    and "\<forall>k < 1000. mc_iteration x y (map (\<lambda>u. 2 * u) unc_y) g k = Inr (fits ! k)"
    and "monte_carlo_run x y unc_y g
      = Inr ((map fst fits, map snd fits, map (\<lambda>f. map (\<lambda>xi. xi * fst f + snd f) x) fits),
             advance (1000 * length x) g)"
proof -
  from assms have "length x = min (length y) (length (map (\<lambda>u. 2 * u) unc_y))" by simp
  from this assms(3) obtain fits where
    "length fits = nat 1000"
    "\<forall>k < nat 1000. mc_iteration x y (map (\<lambda>u. 2 * u) unc_y) g k = Inr (fits ! k)"
    "multi_OLS x y (map (\<lambda>u. 2 * u) unc_y) 1000 g = Inr (ensemble_of x fits,
       advance (nat 1000 * min (length y) (length (map (\<lambda>u. 2 * u) unc_y))) g)"
    by (rule multi_OLS_total [where K = 1000 and g = g])
  with assms show ?thesis
    by (intro that [of fits]) (simp_all add: monte_carlo_run_def ensemble_of_def)
qed

lemma mc_iteration_slope_bound:
  assumes g: "unit_draws g" and ly: "length y = length x" and lu: "length unc_y = length x"
    and d: "gram_det x \<noteq> 0"
    and fit: "polyfit1 x y = Inr (a, b)"
    and it: "mc_iteration x y unc_y g k = Inr (s, i)"
  shows "\<bar>s - a\<bar> \<le> dot (map abs (slope_weights x)) (map abs unc_y) / gram_det x"
proof -
  let ?g = "advance (k * min (length y) (length unc_y)) g"
  let ?y' = "fst (jiggle_data y unc_y ?g)"
  from g have ug: "unit_draws ?g" by simp
  from it have fit': "polyfit1 x ?y' = Inr (s, i)" by (simp add: mc_iteration_def)
  have "list_all2 (\<lambda>d h. \<bar>d\<bar> \<le> h) (map2 (-) ?y' y) (map abs unc_y)"
    using ly lu jiggle_data_abs_le [OF ug, of _ y unc_y]
    by (auto simp: list_all2_conv_all_nth)
  then have "\<bar>dot (slope_weights x) (map2 (-) ?y' y)\<bar>
      \<le> dot (map abs (slope_weights x)) (map abs unc_y)"
    using ly lu by (intro dot_abs_le) (simp_all add: slope_weights_def)
  moreover from d gram_det_nonneg [of x] have "0 < gram_det x" by simp
  ultimately show ?thesis
    unfolding polyfit1_slope_diff [OF fit fit' d]
    by (simp add: divide_right_mono)
qed

text \<open>
  C16 (bounds). The slope of any Monte Carlo iteration differs from the slope fitted to
  the observed values by at most \<open>\<Sum>\<^sub>i |n x\<^sub>i - \<Sum>x| |h\<^sub>i| / (n \<Sum>x\<^sup>2 - (\<Sum>x)\<^sup>2)\<close>: the spread of the
  slope ensemble is bounded by the perturbation half-widths.
\<close>

theorem mc_slope_deviation:
  assumes g: "unit_draws g" and ly: "length y = length x" and lu: "length unc_y = length x"
    and d: "gram_det x \<noteq> 0"
    and fit: "polyfit1 x y = Inr (a, b)"
    and it: "mc_iteration x y unc_y g k = Inr (s, i)"
  shows "\<bar>s - a\<bar> \<le> dot (map abs (slope_weights x)) (map abs unc_y) / gram_det x"
  using assms by (rule mc_iteration_slope_bound)

theorem mc_slope_deviation_witness:
  "unit_draws alternating \<and> gram_det [0, 1, 2] \<noteq> 0
   \<and> polyfit1 [0, 1, 2] [1, 3, 5] = Inr (2, 1)
   \<and> mc_iteration [0, 1, 2] [1, 3, 5] [1, 1, 2] alternating 1 = Inr (9 / 4, 13 / 12)
   \<and> \<bar>9 / 4 - 2 :: real\<bar> \<le> 3 / 2"
proof -
  have u: "unit_draws alternating" by (simp add: unit_draws_def)
  have d: "gram_det [0, 1, 2] \<noteq> 0" by (simp add: gram_det_def power2_eq_square)
  have fit: "polyfit1 [0, 1, 2] [1, 3, 5] = Inr (2, 1)" by (simp add: polyfit1_eval)
  have it: "mc_iteration [0, 1, 2] [1, 3, 5] [1, 1, 2] alternating 1 = Inr (9 / 4, 13 / 12)"
    by (simp add: mc_iteration_def jiggle_data_values mc_eval upt_rec)
  from mc_slope_deviation [OF u _ _ d fit it] u d fit it show ?thesis
    by (simp add: slope_weights_def)
qed

end
