(* ===== verification/Frame.thy ===== *)
theory Frame
  imports Py_Prelude
begin

text \<open>
  The loader and depth filter of the notebook (lines 13-23): the uncertainty column's
  missing entries are filled with the mean of the entries that are present, rows are
  removed according to the depth range \<^verbatim>\<open>[19, 100]\<close>, and the three columns the analysis
  uses are selected.

  The table is a pandas data frame; what the cell does depends on how pandas treats
  missing values, so cells are \<open>real option\<close> here and every pandas operation the cell
  calls is a definition of this theory, written from pandas' documented behaviour.
  Only the numeric columns of the table are represented, and rows are identified by
  their position: the script never reads the row labels, and a column of another type
  that it does not name has no effect on what it computes. The in-place \<^verbatim>\<open>fillna\<close> on
  the selected column updates the frame, as the notebook relies on; under the
  copy-on-write mode of later pandas versions the selected column is a copy, and the
  missing uncertainties would stay missing.

  The theorems give the exact set of rows that survive line 19 (the rows shallower than the
  range's lower bound are removed, the rows inside the range are kept), that
  the three selected columns stay aligned and free of missing values, where the values
  of the uncertainty column come from, and that the cell can only fail with \<open>KeyError\<close>.
\<close>

section \<open>Model\<close>

subsection \<open>Frames with missing values\<close>

text \<open>
  A cell is a float or NaN (\<open>None\<close>); a frame is pandas' ordered collection of named
  columns over one index. \<open>wf_frame\<close> is pandas' structural invariant: column names are
  distinct and all columns have one entry per row.
\<close>

type_synonym cell = "real option"
type_synonym column = "cell list"
type_synonym frame = "(string \<times> column) list"

definition columns :: "frame \<Rightarrow> column list" where
  "columns df = map snd df"

definition nrows :: "frame \<Rightarrow> nat" where
  "nrows df = (case columns df of [] \<Rightarrow> 0 | c # _ \<Rightarrow> length c)"

definition wf_frame :: "frame \<Rightarrow> bool" where
  "wf_frame df \<longleftrightarrow> distinct (map fst df) \<and> list_all (\<lambda>c. length c = nrows df) (columns df)"

subsection \<open>The pandas operations the cell calls\<close>

text \<open>
  \<^verbatim>\<open>df[name]\<close> (\<open>KeyError\<close> for a missing column); the in-place update of one column;
  \<^verbatim>\<open>np.mean\<close> of a column, which pandas computes over the values that are not missing;
  \<^verbatim>\<open>fillna\<close>; comparison of a column with a number (false on NaN); \<^verbatim>\<open>DataFrame.mask\<close>
  with a condition per row, which blanks every cell of the rows where it holds;
  \<^verbatim>\<open>dropna\<close>, which keeps the rows without any missing cell; Python's \<^verbatim>\<open>min\<close> and
  \<^verbatim>\<open>max\<close> of a list (\<open>ValueError\<close> when empty).
\<close>

definition column_of :: "frame \<Rightarrow> string \<Rightarrow> column result" where
  "column_of df name = (case map_of df name of None \<Rightarrow> Inl KeyError | Some c \<Rightarrow> Inr c)"

definition set_column :: "frame \<Rightarrow> string \<Rightarrow> column \<Rightarrow> frame" where
  "set_column df name new = map (\<lambda>(n, c). (n, if n = name then new else c)) df"

definition present :: "column \<Rightarrow> series" where
  "present c = List.map_filter id c"

definition nanmean :: "column \<Rightarrow> cell" where
  "nanmean c = (if present c = [] then None else Some (mean (present c)))"

definition fillna :: "cell \<Rightarrow> column \<Rightarrow> column" where
  "fillna v c = map (\<lambda>x. case x of None \<Rightarrow> v | Some r \<Rightarrow> Some r) c"

definition ge_scalar :: "column \<Rightarrow> real \<Rightarrow> bool list" where
  "ge_scalar c t = map (\<lambda>x. case x of None \<Rightarrow> False | Some r \<Rightarrow> t \<le> r) c"

definition le_scalar :: "column \<Rightarrow> real \<Rightarrow> bool list" where
  "le_scalar c t = map (\<lambda>x. case x of None \<Rightarrow> False | Some r \<Rightarrow> r \<le> t) c"

definition mask_column :: "bool list \<Rightarrow> column \<Rightarrow> column" where
  "mask_column cond c = map2 (\<lambda>b x. if b then None else x) cond c"

definition mask_rows :: "bool list \<Rightarrow> frame \<Rightarrow> frame" where
  "mask_rows cond df = map (apsnd (mask_column cond)) df"

definition row_complete :: "frame \<Rightarrow> nat \<Rightarrow> bool" where
  "row_complete df i = list_all (\<lambda>c. c ! i \<noteq> None) (columns df)"

definition keep_rows :: "bool list \<Rightarrow> 'a list \<Rightarrow> 'a list" where
  "keep_rows ks c = map snd (filter fst (zip ks c))"

definition select_rows :: "(nat \<Rightarrow> bool) \<Rightarrow> frame \<Rightarrow> frame" where
  "select_rows P df = map (apsnd (keep_rows (map P [0..<nrows df]))) df"

definition dropna :: "frame \<Rightarrow> frame" where
  "dropna df = select_rows (row_complete df) df"

definition py_min :: "series \<Rightarrow> real result" where
  "py_min xs = (case xs of [] \<Rightarrow> Inl ValueError | x # r \<Rightarrow> Inr (fold min r x))"

definition py_max :: "series \<Rightarrow> real result" where
  "py_max xs = (case xs of [] \<Rightarrow> Inl ValueError | x # r \<Rightarrow> Inr (fold max r x))"

subsection \<open>The loading cell\<close>

text \<open>
  Line 18, line 19 (\<open>filter_depth\<close>: the inner mask, the selection of its depth column,
  the outer mask, \<^verbatim>\<open>dropna\<close>, evaluated in Python's order) and the whole of lines 13-23
  (\<open>load_data\<close>, applied to the frame that \<^verbatim>\<open>pd.read_csv\<close> returned).
\<close>

definition depth_mask :: series where
  "depth_mask = [19, 100]"

definition filter_depth :: "series \<Rightarrow> frame \<Rightarrow> frame result" where
  "filter_depth bounds df =
     rbind (column_of df ''Depth_cmcd'') (\<lambda>d.
     rbind (py_min bounds) (\<lambda>lo.
     rbind (column_of (mask_rows (ge_scalar d lo) df) ''Depth_cmcd'') (\<lambda>d'.
     rbind (py_max bounds) (\<lambda>hi.
       Inr (dropna (mask_rows (le_scalar d' hi) df))))))"

definition load_data :: "frame \<Rightarrow> (frame \<times> column \<times> column \<times> column) result" where
  "load_data csv =
     rbind (column_of csv ''TEX86_stdev'') (\<lambda>s.
     let analytical_unc = nanmean s in
     rbind (column_of csv ''TEX86_stdev'') (\<lambda>s'.
     let filled = set_column csv ''TEX86_stdev'' (fillna analytical_unc s') in
     rbind (filter_depth depth_mask filled) (\<lambda>data_df.
     rbind (column_of data_df ''Depth_cmcd'') (\<lambda>x.
     rbind (column_of data_df ''TEX86'') (\<lambda>y.
     rbind (column_of data_df ''TEX86_stdev'') (\<lambda>unc_y.
       Inr (data_df, x, y, unc_y)))))))"

subsection \<open>Specification vocabulary\<close>

text \<open>
  \<open>floats\<close> reads a column without missing cells as the series the numeric cells work
  on; \<open>depth_kept\<close> is the row condition that line 19 implements; \<open>filled_frame\<close> is the
  frame after line 17 and \<open>kept_row\<close> the rows of it that line 19 keeps.
\<close>

definition floats :: "column \<Rightarrow> series" where
  "floats c = map the c"

definition depth_kept :: "real \<Rightarrow> real \<Rightarrow> cell \<Rightarrow> bool" where
  "depth_kept lo hi x = (case x of None \<Rightarrow> False | Some r \<Rightarrow> \<not> (r < lo \<and> r \<le> hi))"

definition filled_frame :: "frame \<Rightarrow> column \<Rightarrow> frame" where
  "filled_frame csv s = set_column csv ''TEX86_stdev'' (fillna (nanmean s) s)"

definition kept_row :: "frame \<Rightarrow> column \<Rightarrow> column \<Rightarrow> nat \<Rightarrow> bool" where
  "kept_row csv d s i \<longleftrightarrow> row_complete (filled_frame csv s) i \<and> depth_kept 19 100 (d ! i)"

abbreviation core_sample :: frame where
  "core_sample \<equiv>
     [(''Depth_cmcd'', [Some 5, Some 19, Some 50, Some 100, Some 120, None, Some 130]),
      (''TEX86'', [Some 1, Some 2, Some 3, None, Some 5, Some 6, Some 7]),
      (''TEX86_stdev'', [Some (1 / 10), None, Some (3 / 10), Some 1, Some 0, Some 1, None])]"

section \<open>Columns by name\<close>

lemma columns_simps [simp]:
  "columns [] = []" "columns ((n, c) # df) = c # columns df"
  "columns (map (apsnd f) df) = map f (columns df)"
  by (simp_all add: columns_def comp_def)

lemma names_map_apsnd [simp]: "map fst (map (apsnd f) df) = map fst df"
  by (simp add: comp_def)

lemma set_columns: "c \<in> set (columns df) \<longleftrightarrow> (\<exists>n. (n, c) \<in> set df)"
  by (force simp: columns_def)

lemma map_of_map_keyed:
  "map_of (map (\<lambda>(n, c). (n, f n c)) df) name = map_option (f name) (map_of df name)"
  by (induction df) auto

lemma map_of_map_apsnd:
  "map_of (map (apsnd f) df) name = map_option f (map_of df name)"
  by (induction df) auto

lemma column_of_Inr_iff: "column_of df name = Inr c \<longleftrightarrow> map_of df name = Some c"
  by (simp add: column_of_def split: option.splits)

lemma column_of_Inl_iff: "column_of df name = Inl e \<longleftrightarrow> e = KeyError \<and> name \<notin> fst ` set df"
proof (cases "map_of df name")
  case None
  then have "name \<notin> fst ` set df" by (simp add: map_of_eq_None_iff)
  with None show ?thesis by (auto simp: column_of_def)
next
  case (Some c)
  then have "(name, c) \<in> set df" by (rule map_of_SomeD)
  then have "name \<in> fst ` set df" by (rule image_eqI [rotated]) simp
  with Some show ?thesis by (simp add: column_of_def)
qed

lemma column_of_in_columns: "column_of df name = Inr c \<Longrightarrow> c \<in> set (columns df)"
  by (auto simp: column_of_Inr_iff set_columns dest: map_of_SomeD)

lemma column_of_map_apsnd:
  "column_of (map (apsnd f) df) name = rbind (column_of df name) (\<lambda>c. Inr (f c))"
  by (simp add: column_of_def map_of_map_apsnd split: option.splits)

lemma column_of_set_column:
  "column_of (set_column df name new) n =
     (if n = name then rbind (column_of df name) (\<lambda>_. Inr new) else column_of df n)"
  by (simp add: column_of_def set_column_def map_of_map_keyed split: option.splits)

section \<open>Selecting rows\<close>

lemma keep_rows_Nil [simp]: "keep_rows [] c = []" "keep_rows ks [] = []"
  by (simp_all add: keep_rows_def)

lemma keep_rows_Cons [simp]:
  "keep_rows (k # ks) (x # c) = (if k then x # keep_rows ks c else keep_rows ks c)"
  by (simp add: keep_rows_def)

lemma length_keep_rows:
  "length ks = length c \<Longrightarrow> length (keep_rows ks c) = length (filter id ks)"
  by (induction ks c rule: list_induct2) simp_all

lemma keep_rows_nths: "keep_rows ks c = nths c {i. i < length ks \<and> ks ! i}"
proof (induction ks c rule: list_induct2')
  case (4 k ks x c)
  have "{j. Suc j < length (k # ks) \<and> (k # ks) ! Suc j} = {i. i < length ks \<and> ks ! i}" by simp
  with 4 show ?case by (simp add: nths_Cons)
qed simp_all

lemma set_keep_rows:
  "set (keep_rows ks c) = {c ! i | i. i < length c \<and> i < length ks \<and> ks ! i}"
  by (auto simp: keep_rows_nths set_nths)

lemma keep_rows_mask:
  "(\<And>i. i < length ks \<Longrightarrow> i < length m \<Longrightarrow> ks ! i \<Longrightarrow> \<not> m ! i) \<Longrightarrow> length m = length c \<Longrightarrow>
   keep_rows ks (mask_column m c) = keep_rows ks c"
  unfolding mask_column_def
proof (induction m c arbitrary: ks rule: list_induct2')
  case (4 b m x c)
  show ?case
  proof (cases ks)
    case Nil
    then show ?thesis by simp
  next
    case (Cons k ks')
    have "keep_rows ks' (map2 (\<lambda>b x. if b then None else x) m c) = keep_rows ks' c"
    proof (rule "4.IH")
      show "\<not> m ! i" if "i < length ks'" "i < length m" "ks' ! i" for i
        using "4.prems"(1) [of "Suc i"] that Cons by simp
      show "length m = length c" using "4.prems"(2) by simp
    qed
    moreover have "k \<Longrightarrow> \<not> b" using "4.prems"(1) [of 0] Cons by simp
    ultimately show ?thesis using Cons by simp
  qed
qed simp_all

section \<open>Operations keep frames well formed\<close>

lemma wf_frameD: "wf_frame df \<Longrightarrow> c \<in> set (columns df) \<Longrightarrow> length c = nrows df"
  by (auto simp: wf_frame_def list_all_iff)

lemma nrows_map_apsnd:
  assumes "\<And>c. c \<in> set (columns df) \<Longrightarrow> length (f c) = k" "df \<noteq> []"
  shows "nrows (map (apsnd f) df) = k"
proof -
  from assms(2) obtain n c r where "df = (n, c) # r" by (cases df) auto
  with assms(1) [of c] show ?thesis by (simp add: nrows_def)
qed

lemma wf_frame_map_apsnd:
  assumes "wf_frame df" and "\<And>c. length c = nrows df \<Longrightarrow> length (f c) = k"
  shows "wf_frame (map (apsnd f) df)"
proof (cases "df = []")
  case True
  then show ?thesis by (simp add: wf_frame_def)
next
  case False
  have len: "length (f c) = k" if "c \<in> set (columns df)" for c
    using assms that by (simp add: wf_frameD)
  from len False have "nrows (map (apsnd f) df) = k" by (rule nrows_map_apsnd)
  with assms(1) len show ?thesis by (simp add: wf_frame_def list_all_iff)
qed

lemma length_mask_column [simp]: "length (mask_column m c) = min (length m) (length c)"
  by (simp add: mask_column_def)

lemma mask_column_nth:
  "i < length m \<Longrightarrow> i < length c \<Longrightarrow> mask_column m c ! i = (if m ! i then None else c ! i)"
  by (simp add: mask_column_def)

lemma nrows_mask_rows:
  assumes "wf_frame df" "length m = nrows df"
  shows "nrows (mask_rows m df) = nrows df"
proof (cases "df = []")
  case True
  then show ?thesis by (simp add: mask_rows_def)
next
  case False
  have "length (mask_column m c) = nrows df" if "c \<in> set (columns df)" for c
    using that assms by (simp add: wf_frameD)
  then show ?thesis unfolding mask_rows_def using False by (rule nrows_map_apsnd)
qed

lemma wf_frame_mask_rows:
  assumes "wf_frame df" "length m = nrows df"
  shows "wf_frame (mask_rows m df)"
  unfolding mask_rows_def using assms by (intro wf_frame_map_apsnd [where k = "nrows df"]) simp_all

lemma wf_frame_select_rows:
  assumes "wf_frame df"
  shows "wf_frame (select_rows P df)"
  unfolding select_rows_def using assms
  by (intro wf_frame_map_apsnd [where k = "length (filter P [0..<nrows df])"])
     (simp_all add: length_keep_rows filter_map comp_def)

lemma select_rows_cong:
  "(\<And>i. i < nrows df \<Longrightarrow> P i = Q i) \<Longrightarrow> select_rows P df = select_rows Q df"
proof -
  assume "\<And>i. i < nrows df \<Longrightarrow> P i = Q i"
  then have "map P [0..<nrows df] = map Q [0..<nrows df]" by simp
  then show ?thesis unfolding select_rows_def by (rule arg_cong)
qed

lemma row_complete_mask_rows:
  assumes "wf_frame df" "length m = nrows df" "i < nrows df" "df \<noteq> []"
  shows "row_complete (mask_rows m df) i \<longleftrightarrow> \<not> m ! i \<and> row_complete df i"
proof -
  from assms(4) have ne: "columns df \<noteq> []" by (simp add: columns_def)
  have "mask_column m c ! i = (if m ! i then None else c ! i)" if "c \<in> set (columns df)" for c
    using that assms by (simp add: mask_column_nth wf_frameD)
  then show ?thesis
    using ne by (cases "m ! i") (auto simp: row_complete_def mask_rows_def list_all_iff)
qed

lemma dropna_mask_rows:
  assumes "wf_frame df" "length m = nrows df"
  shows "dropna (mask_rows m df) = select_rows (\<lambda>i. \<not> m ! i \<and> row_complete df i) df"
proof (cases "df = []")
  case True
  then show ?thesis by (simp add: dropna_def select_rows_def mask_rows_def)
next
  case False
  let ?P = "\<lambda>i. \<not> m ! i \<and> row_complete df i"
  let ?ks = "map ?P [0..<nrows df]"
  have ks: "map (row_complete (mask_rows m df)) [0..<nrows (mask_rows m df)] = ?ks"
    using assms False by (simp add: nrows_mask_rows row_complete_mask_rows)
  have "keep_rows ?ks (mask_column m c) = keep_rows ?ks c" if "c \<in> set (columns df)" for c
    using that assms by (intro keep_rows_mask) (simp_all add: wf_frameD)
  then have "apsnd (keep_rows ?ks) (apsnd (mask_column m) nc) = apsnd (keep_rows ?ks) nc"
    if "nc \<in> set df" for nc
    using that by (cases nc) (force simp: set_columns)
  then have "map (apsnd (keep_rows ?ks)) (map (apsnd (mask_column m)) df)
      = map (apsnd (keep_rows ?ks)) df"
    by (simp cong: map_cong)
  then show ?thesis
    by (simp add: dropna_def select_rows_def [of _ "mask_rows m df"] ks)
       (simp add: mask_rows_def select_rows_def)
qed


section \<open>Replacing a column\<close>

lemma names_set_column [simp]: "map fst (set_column df name new) = map fst df"
  by (induction df) (auto simp: set_column_def)

lemma set_columns_set_column:
  "set (columns (set_column df name new)) \<subseteq> insert new (set (columns df))"
  by (force simp: set_column_def columns_def)

lemma nrows_set_column:
  "length new = nrows df \<Longrightarrow> nrows (set_column df name new) = nrows df"
  by (cases df) (auto simp: set_column_def nrows_def)

lemma wf_frame_set_column:
  assumes "wf_frame df" "length new = nrows df"
  shows "wf_frame (set_column df name new)"
proof -
  have "length c = nrows df" if "c \<in> set (columns (set_column df name new))" for c
    using that set_columns_set_column [of df name new] assms by (auto simp: wf_frameD)
  with assms show ?thesis by (simp add: wf_frame_def list_all_iff nrows_set_column)
qed

lemma length_fillna [simp]: "length (fillna v c) = length c"
  by (simp add: fillna_def)

section \<open>The bounds of the depth range\<close>

lemma fold_min_le: "fold min xs (a :: real) \<le> a"
proof (induction xs arbitrary: a)
  case Nil
  show ?case by simp
next
  case (Cons x xs)
  have "fold min xs (min x a) \<le> min x a" by (rule Cons.IH)
  then show ?case by simp
qed

lemma le_fold_max: "(a :: real) \<le> fold max xs a"
proof (induction xs arbitrary: a)
  case Nil
  show ?case by simp
next
  case (Cons x xs)
  have "max x a \<le> fold max xs (max x a)" by (rule Cons.IH)
  then show ?case by simp
qed

lemma py_min_le_py_max:
  assumes "py_min xs = Inr lo" "py_max xs = Inr hi"
  shows "lo \<le> hi"
proof -
  from assms obtain x r where "xs = x # r" "lo = fold min r x" "hi = fold max r x"
    by (cases xs) (auto simp: py_min_def py_max_def)
  with fold_min_le [of r x] le_fold_max [of x r] show ?thesis by simp
qed

lemma py_min_max_depth_mask [simp]: "py_min depth_mask = Inr 19" "py_max depth_mask = Inr 100"
  by (simp_all add: py_min_def py_max_def depth_mask_def)

lemma depth_kept_iff: "lo \<le> hi \<Longrightarrow> depth_kept lo hi x \<longleftrightarrow> (\<exists>r. x = Some r \<and> lo \<le> r)"
  by (cases x) (auto simp: depth_kept_def)

section \<open>What the two nested masks select\<close>

lemma column_of_select_rows:
  "column_of (select_rows P df) name
     = rbind (column_of df name) (\<lambda>c. Inr (keep_rows (map P [0..<nrows df]) c))"
  by (simp add: select_rows_def column_of_map_apsnd)

lemma row_complete_column:
  "row_complete df i \<Longrightarrow> c \<in> set (columns df) \<Longrightarrow> c ! i \<noteq> None"
  by (auto simp: row_complete_def list_all_iff)

lemma filter_depth_select:
  assumes wf: "wf_frame df" and d: "column_of df ''Depth_cmcd'' = Inr d"
    and lo: "py_min bounds = Inr lo" and hi: "py_max bounds = Inr hi"
  shows "filter_depth bounds df
    = Inr (select_rows (\<lambda>i. row_complete df i \<and> depth_kept lo hi (d ! i)) df)"
proof -
  let ?m1 = "ge_scalar d lo"
  let ?d' = "mask_column ?m1 d"
  let ?m2 = "le_scalar ?d' hi"
  from d have dc: "d \<in> set (columns df)" by (rule column_of_in_columns)
  with wf have len: "length d = nrows df" by (rule wf_frameD)
  then have l2: "length ?m2 = nrows df" by (simp add: le_scalar_def ge_scalar_def)
  have d': "column_of (mask_rows ?m1 df) ''Depth_cmcd'' = Inr ?d'"
    using d by (simp add: mask_rows_def column_of_map_apsnd)
  have "(\<not> ?m2 ! i \<and> row_complete df i) = (row_complete df i \<and> depth_kept lo hi (d ! i))"
    if "i < nrows df" for i
  proof (cases "d ! i")
    case None
    with row_complete_column [OF _ dc, of i] show ?thesis by (auto simp: depth_kept_def)
  next
    case (Some r)
    with that len show ?thesis
      by (auto simp: le_scalar_def ge_scalar_def mask_column_nth depth_kept_def)
  qed
  then have "select_rows (\<lambda>i. \<not> ?m2 ! i \<and> row_complete df i) df
      = select_rows (\<lambda>i. row_complete df i \<and> depth_kept lo hi (d ! i)) df"
    by (rule select_rows_cong)
  then show ?thesis
    by (simp add: filter_depth_def d lo hi d' dropna_mask_rows [OF wf l2])
qed


section \<open>The loading cell as a whole\<close>

lemma filled_frame_facts:
  assumes wf: "wf_frame csv" and s: "column_of csv ''TEX86_stdev'' = Inr s"
  shows "wf_frame (filled_frame csv s)" and "nrows (filled_frame csv s) = nrows csv"
    and "column_of (filled_frame csv s) ''TEX86_stdev'' = Inr (fillna (nanmean s) s)"
    and "column_of (filled_frame csv s) ''Depth_cmcd'' = column_of csv ''Depth_cmcd''"
    and "column_of (filled_frame csv s) ''TEX86'' = column_of csv ''TEX86''"
proof -
  from s have "s \<in> set (columns csv)" by (rule column_of_in_columns)
  with wf have len: "length (fillna (nanmean s) s) = nrows csv" by (simp add: wf_frameD)
  from wf len show "wf_frame (filled_frame csv s)"
    unfolding filled_frame_def by (rule wf_frame_set_column)
  from len show "nrows (filled_frame csv s) = nrows csv"
    unfolding filled_frame_def by (rule nrows_set_column)
  show "column_of (filled_frame csv s) ''TEX86_stdev'' = Inr (fillna (nanmean s) s)"
    and "column_of (filled_frame csv s) ''Depth_cmcd'' = column_of csv ''Depth_cmcd''"
    and "column_of (filled_frame csv s) ''TEX86'' = column_of csv ''TEX86''"
    using s by (simp_all add: filled_frame_def column_of_set_column)
qed

lemma load_data_eq:
  assumes wf: "wf_frame csv"
    and d: "column_of csv ''Depth_cmcd'' = Inr d"
    and t: "column_of csv ''TEX86'' = Inr t"
    and s: "column_of csv ''TEX86_stdev'' = Inr s"
  shows "load_data csv =
    Inr (select_rows (kept_row csv d s) (filled_frame csv s),
         keep_rows (map (kept_row csv d s) [0..<nrows csv]) d,
         keep_rows (map (kept_row csv d s) [0..<nrows csv]) t,
         keep_rows (map (kept_row csv d s) [0..<nrows csv]) (fillna (nanmean s) s))"
proof -
  note ff = filled_frame_facts [OF wf s]
  have "filter_depth depth_mask (filled_frame csv s)
      = Inr (select_rows (kept_row csv d s) (filled_frame csv s))"
    unfolding kept_row_def
    using ff(1) by (rule filter_depth_select) (simp_all add: ff d)
  then show ?thesis
    by (simp add: load_data_def s Let_def column_of_select_rows ff d t flip: filled_frame_def)
qed

lemma column_of_cases:
  obtains (missing) "name \<notin> fst ` set df" "column_of df name = Inl KeyError"
  | (found) c where "name \<in> fst ` set df" "column_of df name = Inr c"
proof (cases "column_of df name")
  case (Inl e)
  then show ?thesis using missing by (simp add: column_of_Inl_iff)
next
  case (Inr c)
  then have "map_of df name \<noteq> None" by (simp add: column_of_Inr_iff)
  then have "name \<in> fst ` set df" by (simp add: map_of_eq_None_iff)
  with Inr show ?thesis using found by blast
qed

lemma names_mask_rows [simp]: "map fst (mask_rows m df) = map fst df"
  by (simp add: mask_rows_def)

lemma names_select_rows [simp]: "map fst (select_rows P df) = map fst df"
  by (simp add: select_rows_def)

lemma names_dropna [simp]: "map fst (dropna df) = map fst df"
  by (simp add: dropna_def)

lemma names_filled_frame [simp]: "map fst (filled_frame csv s) = map fst csv"
  by (simp add: filled_frame_def)

lemma column_of_same_names:
  assumes "map fst df' = map fst df" "column_of df name = Inr c"
  obtains c' where "column_of df' name = Inr c'"
proof (cases df' name rule: column_of_cases)
  case missing
  from assms(2) have "name \<in> fst ` set df" by (cases df name rule: column_of_cases) simp_all
  also have "fst ` set df = fst ` set df'" using assms(1) by (metis list.set_map)
  finally show ?thesis using missing by simp
next
  case (found c')
  then show ?thesis using that by blast
qed

lemma filter_depth_depth_mask:
  assumes "column_of df ''Depth_cmcd'' = Inr d"
  obtains df' where "filter_depth depth_mask df = Inr df'" "map fst df' = map fst df"
proof -
  let ?d' = "mask_column (ge_scalar d 19) d"
  from assms have "filter_depth depth_mask df = Inr (dropna (mask_rows (le_scalar ?d' 100) df))"
    by (simp add: filter_depth_def mask_rows_def column_of_map_apsnd)
  then show ?thesis using that by simp
qed

lemma load_data_Inl_iff:
  "load_data csv = Inl e \<longleftrightarrow>
     e = KeyError \<and> \<not> {''Depth_cmcd'', ''TEX86'', ''TEX86_stdev''} \<subseteq> fst ` set csv"
proof (cases csv "''TEX86_stdev''" rule: column_of_cases)
  case missing
  then show ?thesis by (auto simp: load_data_def)
next
  case s: (found s)
  let ?f = "filled_frame csv s"
  have names: "fst ` set ?f = fst ` set csv"
    using names_filled_frame [of csv s] by (metis list.set_map)
  show ?thesis
  proof (cases ?f "''Depth_cmcd''" rule: column_of_cases)
    case missing
    then have "filter_depth depth_mask ?f = Inl KeyError" by (simp add: filter_depth_def)
    with s missing names show ?thesis
      by (auto simp: load_data_def Let_def simp flip: filled_frame_def)
  next
    case d: (found d)
    then obtain df' where f: "filter_depth depth_mask ?f = Inr df'" and n: "map fst df' = map fst ?f"
      using filter_depth_depth_mask by blast
    from n have names': "fst ` set df' = fst ` set csv"
      using names by (metis list.set_map)
    obtain x where x: "column_of df' ''Depth_cmcd'' = Inr x"
      using n d(2) by (rule column_of_same_names)
    have u0: "column_of ?f ''TEX86_stdev'' = Inr (fillna (nanmean s) s)"
      using s(2) by (simp add: filled_frame_def column_of_set_column)
    obtain u where u: "column_of df' ''TEX86_stdev'' = Inr u"
      using n u0 by (rule column_of_same_names)
    show ?thesis
    proof (cases df' "''TEX86''" rule: column_of_cases)
      case missing
      with s d f x names' show ?thesis
        by (auto simp: load_data_def Let_def simp flip: filled_frame_def)
    next
      case (found y)
      with s d f x u names names' show ?thesis
        by (auto simp: load_data_def Let_def simp flip: filled_frame_def)
    qed
  qed
qed

lemma load_data_InrD:
  assumes "load_data csv = Inr r"
  obtains d t s where "column_of csv ''Depth_cmcd'' = Inr d" "column_of csv ''TEX86'' = Inr t"
    "column_of csv ''TEX86_stdev'' = Inr s"
proof -
  have "{''Depth_cmcd'', ''TEX86'', ''TEX86_stdev''} \<subseteq> fst ` set csv"
    using assms load_data_Inl_iff [of csv KeyError] by auto
  then have "is_ok (column_of csv ''Depth_cmcd'')" "is_ok (column_of csv ''TEX86'')"
    "is_ok (column_of csv ''TEX86_stdev'')"
    by (cases csv "''Depth_cmcd''" rule: column_of_cases; cases csv "''TEX86''" rule: column_of_cases;
        cases csv "''TEX86_stdev''" rule: column_of_cases; simp)+
  then show ?thesis using that by (auto simp: is_ok_iff)
qed


section \<open>Properties of the loaded data\<close>

lemma set_keep_rows_map:
  assumes "length c = n"
  shows "set (keep_rows (map P [0..<n]) c) = {c ! i | i. i < n \<and> P i}"
  using assms by (auto simp: set_keep_rows)

text \<open>
  C5 (functional). Which observations survive the depth filter of line 19: a depth \<open>r\<close>
  is among the loaded positions exactly when it is the depth of a row that has no missing
  cell after the fill and \<open>r\<close> is at least 19, the lower bound of the range. Rows inside
  the range \<open>[19, 100]\<close> are therefore kept, and the rows shallower than 19 are the ones
  removed.
\<close>

theorem load_data_depth_filter:
  assumes "wf_frame csv" and "load_data csv = Inr (data_df, x, y, unc_y)"
    and "column_of csv ''Depth_cmcd'' = Inr d" and "column_of csv ''TEX86_stdev'' = Inr s"
  shows "Some r \<in> set x \<longleftrightarrow>
    (\<exists>i < nrows csv. d ! i = Some r \<and> 19 \<le> r \<and> row_complete (filled_frame csv s) i)"
proof -
  from assms(2) obtain t where t: "column_of csv ''TEX86'' = Inr t"
    by (rule load_data_InrD)
  from assms(1,3) have len: "length d = nrows csv"
    by (intro wf_frameD column_of_in_columns)
  have "x = keep_rows (map (kept_row csv d s) [0..<nrows csv]) d"
    using assms(2) load_data_eq [OF assms(1,3) t assms(4)] by simp
  then have "set x = {d ! i | i. i < nrows csv \<and> kept_row csv d s i}"
    using len by (simp add: set_keep_rows_map)
  then show ?thesis
    by (auto simp: kept_row_def depth_kept_iff)
qed

theorem load_data_depth_filter_witness:
  "wf_frame core_sample
   \<and> load_data core_sample =
       Inr ([(''Depth_cmcd'', [Some 19, Some 50, Some 120, Some 130]),
             (''TEX86'', [Some 2, Some 3, Some 5, Some 7]),
             (''TEX86_stdev'', [Some (12 / 25), Some (3 / 10), Some 0, Some (12 / 25)])],
            [Some 19, Some 50, Some 120, Some 130],
            [Some 2, Some 3, Some 5, Some 7],
            [Some (12 / 25), Some (3 / 10), Some 0, Some (12 / 25)])
   \<and> (\<exists>i < nrows core_sample.
          [Some 5, Some 19, Some 50, Some 100, Some 120, None, Some 130 :: real option] ! i
          = Some 50 \<and> (19 :: real) \<le> 50
        \<and> row_complete (filled_frame core_sample
            [Some (1 / 10), None, Some (3 / 10), Some 1, Some 0, Some 1, None]) i)"
proof -
  have wf: "wf_frame core_sample" by code_simp
  have l: "load_data core_sample =
       Inr ([(''Depth_cmcd'', [Some 19, Some 50, Some 120, Some 130]),
             (''TEX86'', [Some 2, Some 3, Some 5, Some 7]),
             (''TEX86_stdev'', [Some (12 / 25), Some (3 / 10), Some 0, Some (12 / 25)])],
            [Some 19, Some 50, Some 120, Some 130],
            [Some 2, Some 3, Some 5, Some 7],
            [Some (12 / 25), Some (3 / 10), Some 0, Some (12 / 25)])"
    by code_simp
  have d: "column_of core_sample ''Depth_cmcd''
      = Inr [Some 5, Some 19, Some 50, Some 100, Some 120, None, Some 130]"
    by code_simp
  have s: "column_of core_sample ''TEX86_stdev''
      = Inr [Some (1 / 10), None, Some (3 / 10), Some 1, Some 0, Some 1, None]"
    by code_simp
  from load_data_depth_filter [OF wf l d s, of 50] wf l show ?thesis by simp
qed

lemma load_data_shape:
  assumes "wf_frame csv" and "load_data csv = Inr (data_df, x, y, unc_y)"
  shows "wf_frame data_df \<and> length x = nrows data_df \<and> length y = nrows data_df
    \<and> length unc_y = nrows data_df"
proof -
  from assms(2) obtain d t s where c: "column_of csv ''Depth_cmcd'' = Inr d"
    "column_of csv ''TEX86'' = Inr t" "column_of csv ''TEX86_stdev'' = Inr s"
    by (rule load_data_InrD)
  have wf': "wf_frame (filled_frame csv s)" using assms(1) c(3) by (rule filled_frame_facts)
  from assms(2) load_data_eq [OF assms(1) c]
  have df: "data_df = select_rows (kept_row csv d s) (filled_frame csv s)" by simp
  with wf' have wf: "wf_frame data_df" by (simp add: wf_frame_select_rows)
  have "column_of data_df ''Depth_cmcd'' = Inr x" "column_of data_df ''TEX86'' = Inr y"
    "column_of data_df ''TEX86_stdev'' = Inr unc_y"
    using assms(2) load_data_eq [OF assms(1) c] filled_frame_facts [OF assms(1) c(3)] c
    by (simp_all add: df column_of_select_rows)
  then show ?thesis using wf by (auto intro: wf_frameD column_of_in_columns)
qed

text \<open>
  C17 (invariant). The loaded data are index-aligned: the filtered frame is well formed,
  and the position, value and uncertainty columns selected from it have one entry for
  each of its rows.
\<close>

theorem load_data_aligned:
  assumes "wf_frame csv" and "load_data csv = Inr (data_df, x, y, unc_y)"
  shows "wf_frame data_df \<and> length x = nrows data_df \<and> length y = nrows data_df
    \<and> length unc_y = nrows data_df"
  using assms by (rule load_data_shape)

theorem load_data_aligned_witness:
  "wf_frame core_sample
   \<and> load_data core_sample =
       Inr ([(''Depth_cmcd'', [Some 19, Some 50, Some 120, Some 130]),
             (''TEX86'', [Some 2, Some 3, Some 5, Some 7]),
             (''TEX86_stdev'', [Some (12 / 25), Some (3 / 10), Some 0, Some (12 / 25)])],
            [Some 19, Some 50, Some 120, Some 130],
            [Some 2, Some 3, Some 5, Some 7],
            [Some (12 / 25), Some (3 / 10), Some 0, Some (12 / 25)])
   \<and> length [Some 19, Some 50, Some 120, Some 130 :: real option]
       = length [Some 2, Some 3, Some 5, Some 7 :: real option]"
proof -
  have wf: "wf_frame core_sample" by code_simp
  have l: "load_data core_sample =
       Inr ([(''Depth_cmcd'', [Some 19, Some 50, Some 120, Some 130]),
             (''TEX86'', [Some 2, Some 3, Some 5, Some 7]),
             (''TEX86_stdev'', [Some (12 / 25), Some (3 / 10), Some 0, Some (12 / 25)])],
            [Some 19, Some 50, Some 120, Some 130],
            [Some 2, Some 3, Some 5, Some 7],
            [Some (12 / 25), Some (3 / 10), Some 0, Some (12 / 25)])"
    by code_simp
  from load_data_aligned [OF wf l] wf l show ?thesis by simp
qed

lemma present_simps [simp]:
  "present [] = []" "present (None # c) = present c" "present (Some r # c) = r # present c"
  by (simp_all add: present_def List.map_filter_simps)

lemma set_present: "set (present c) = {r. Some r \<in> set c}"
proof (induction c)
  case Nil
  show ?case by simp
next
  case (Cons x c)
  then show ?case by (cases x) auto
qed

lemma map_Some_floats: "None \<notin> set c \<Longrightarrow> map Some (floats c) = c"
  by (induction c) (auto simp: floats_def)

lemma load_data_no_nan_aux:
  assumes "wf_frame csv" and "load_data csv = Inr (data_df, x, y, unc_y)"
  shows "None \<notin> set x \<and> None \<notin> set y \<and> None \<notin> set unc_y"
proof -
  from assms(2) obtain d t s where c: "column_of csv ''Depth_cmcd'' = Inr d"
    "column_of csv ''TEX86'' = Inr t" "column_of csv ''TEX86_stdev'' = Inr s"
    by (rule load_data_InrD)
  let ?f = "filled_frame csv s" and ?u = "fillna (nanmean s) s"
  note ff = filled_frame_facts [OF assms(1) c(3)]
  have cols: "d \<in> set (columns ?f)" "t \<in> set (columns ?f)" "?u \<in> set (columns ?f)"
    using ff c by (auto intro: column_of_in_columns)
  have kept: "None \<notin> set (keep_rows (map (kept_row csv d s) [0..<nrows csv]) c)"
    if "c \<in> set (columns ?f)" for c
  proof -
    from that ff(1,2) have "length c = nrows csv" by (auto dest: wf_frameD)
    then have "set (keep_rows (map (kept_row csv d s) [0..<nrows csv]) c)
        = {c ! i | i. i < nrows csv \<and> kept_row csv d s i}"
      by (rule set_keep_rows_map)
    moreover have "c ! i \<noteq> None" if "kept_row csv d s i" for i
      using that row_complete_column [OF _ \<open>c \<in> set (columns ?f)\<close>, of i]
      by (simp add: kept_row_def)
    ultimately show ?thesis by force
  qed
  from assms(2) load_data_eq [OF assms(1) c] kept [OF cols(1)] kept [OF cols(2)] kept [OF cols(3)]
  show ?thesis by auto
qed

text \<open>
  C24 (invariant). No missing value reaches the analysis: the three loaded columns
  contain no NaN, so reading them as series of numbers loses nothing.
\<close>

theorem load_data_no_nan:
  assumes "wf_frame csv" and "load_data csv = Inr (data_df, x, y, unc_y)"
  shows "map Some (floats x) = x \<and> map Some (floats y) = y \<and> map Some (floats unc_y) = unc_y"
  using load_data_no_nan_aux [OF assms] by (simp add: map_Some_floats)

theorem load_data_no_nan_witness:
  "wf_frame core_sample
   \<and> load_data core_sample =
       Inr ([(''Depth_cmcd'', [Some 19, Some 50, Some 120, Some 130]),
             (''TEX86'', [Some 2, Some 3, Some 5, Some 7]),
             (''TEX86_stdev'', [Some (12 / 25), Some (3 / 10), Some 0, Some (12 / 25)])],
            [Some 19, Some 50, Some 120, Some 130],
            [Some 2, Some 3, Some 5, Some 7],
            [Some (12 / 25), Some (3 / 10), Some 0, Some (12 / 25)])
   \<and> floats [Some 19, Some 50, Some 120, Some 130] = [19, 50, 120, 130]"
proof -
  have wf: "wf_frame core_sample" by code_simp
  have l: "load_data core_sample =
       Inr ([(''Depth_cmcd'', [Some 19, Some 50, Some 120, Some 130]),
             (''TEX86'', [Some 2, Some 3, Some 5, Some 7]),
             (''TEX86_stdev'', [Some (12 / 25), Some (3 / 10), Some 0, Some (12 / 25)])],
            [Some 19, Some 50, Some 120, Some 130],
            [Some 2, Some 3, Some 5, Some 7],
            [Some (12 / 25), Some (3 / 10), Some 0, Some (12 / 25)])"
    by code_simp
  from load_data_no_nan [OF wf l] wf l show ?thesis by (simp add: floats_def)
qed

lemma load_data_uncertainty_aux:
  assumes "wf_frame csv" and "load_data csv = Inr (data_df, x, y, unc_y)"
    and "column_of csv ''TEX86_stdev'' = Inr s" and "u \<in> set (floats unc_y)"
  shows "u \<in> set (present s) \<or> (present s \<noteq> [] \<and> u = mean (present s))"
proof -
  from assms(2) obtain d t where c: "column_of csv ''Depth_cmcd'' = Inr d"
    "column_of csv ''TEX86'' = Inr t"
    by (rule load_data_InrD)
  have u: "unc_y = keep_rows (map (kept_row csv d s) [0..<nrows csv]) (fillna (nanmean s) s)"
    using assms(2) load_data_eq [OF assms(1) c assms(3)] by simp
  have "set unc_y \<subseteq> set (fillna (nanmean s) s)"
    unfolding u by (auto simp: set_keep_rows)
  also have "\<dots> \<subseteq> Some ` set (present s) \<union> {nanmean s}"
    by (auto simp: fillna_def set_present split: option.splits)
  finally have "set unc_y \<subseteq> Some ` set (present s) \<union> {nanmean s}" .
  moreover have "None \<notin> set unc_y"
    using load_data_no_nan_aux [OF assms(1,2)] by simp
  ultimately show ?thesis
    using assms(4) by (auto simp: floats_def nanmean_def split: if_splits)
qed

lemma keep_rows_map_nth:
  assumes "length c = n"
  shows "keep_rows (map P [0..<n]) c = map ((!) c) (filter P [0..<n])"
proof -
  have "zip (map P [0..<n]) c = map (\<lambda>i. (P i, c ! i)) [0..<n]"
    using assms by (simp add: list_eq_iff_nth_eq)
  then show ?thesis by (simp add: keep_rows_def filter_map comp_def)
qed

lemma fillna_nth:
  "i < length c \<Longrightarrow> fillna v c ! i = (case c ! i of None \<Rightarrow> v | Some r \<Rightarrow> Some r)"
  by (simp add: fillna_def)

lemma load_data_uncertainty_rows:
  assumes wf: "wf_frame csv" and load: "load_data csv = Inr (data_df, x, y, unc_y)"
    and d: "column_of csv ''Depth_cmcd'' = Inr d" and s: "column_of csv ''TEX86_stdev'' = Inr s"
  shows "floats unc_y = map (\<lambda>i. case s ! i of Some v \<Rightarrow> v | None \<Rightarrow> mean (present s))
    (filter (kept_row csv d s) [0..<nrows csv])"
proof -
  from load obtain t where t: "column_of csv ''TEX86'' = Inr t" by (rule load_data_InrD)
  let ?u = "fillna (nanmean s) s"
  from wf s have len: "length s = nrows csv" by (auto intro: wf_frameD column_of_in_columns)
  have u: "unc_y = map ((!) ?u) (filter (kept_row csv d s) [0..<nrows csv])"
    using load load_data_eq [OF wf d t s] len by (simp add: keep_rows_map_nth)
  have "the (?u ! i) = (case s ! i of Some v \<Rightarrow> v | None \<Rightarrow> mean (present s))"
    if "i < nrows csv" "kept_row csv d s i" for i
  proof -
    have "?u \<in> set (columns (filled_frame csv s))"
      using filled_frame_facts(3) [OF wf s] by (rule column_of_in_columns)
    with that(2) have "?u ! i \<noteq> None" by (auto simp: kept_row_def dest: row_complete_column)
    with that(1) len show ?thesis
      by (auto simp: fillna_nth nanmean_def split: option.splits if_splits)
  qed
  then show ?thesis unfolding u floats_def by simp
qed

text \<open>
  C10 (functional). The returned uncertainties are, row by row for the rows that are
  kept and in their order, the table's own value wherever one is present and the mean
  of the present values wherever it is missing. Only missing cells are filled: an
  uncertainty of zero in the table is returned as zero.
\<close>

theorem load_data_uncertainty:
  assumes "wf_frame csv" and "load_data csv = Inr (data_df, x, y, unc_y)"
    and "column_of csv ''Depth_cmcd'' = Inr d" and "column_of csv ''TEX86_stdev'' = Inr s"
  shows "floats unc_y = map (\<lambda>i. case s ! i of Some v \<Rightarrow> v | None \<Rightarrow> mean (present s))
    (filter (kept_row csv d s) [0..<nrows csv])"
  using assms by (rule load_data_uncertainty_rows)

theorem load_data_uncertainty_witness:
  "wf_frame core_sample
   \<and> load_data core_sample =
       Inr ([(''Depth_cmcd'', [Some 19, Some 50, Some 120, Some 130]),
             (''TEX86'', [Some 2, Some 3, Some 5, Some 7]),
             (''TEX86_stdev'', [Some (12 / 25), Some (3 / 10), Some 0, Some (12 / 25)])],
            [Some 19, Some 50, Some 120, Some 130],
            [Some 2, Some 3, Some 5, Some 7],
            [Some (12 / 25), Some (3 / 10), Some 0, Some (12 / 25)])
   \<and> filter (kept_row core_sample
         [Some 5, Some 19, Some 50, Some 100, Some 120, None, Some 130]
         [Some (1 / 10), None, Some (3 / 10), Some 1, Some 0, Some 1, None])
       [0..<nrows core_sample] = [1, 2, 4, 6]
   \<and> mean (present [Some (1 / 10), None, Some (3 / 10), Some 1, Some 0, Some 1, None]) = 12 / 25
   \<and> floats [Some (12 / 25), Some (3 / 10), Some 0, Some (12 / 25)] = [12 / 25, 3 / 10, 0, 12 / 25]"
proof -
  have wf: "wf_frame core_sample" by code_simp
  have l: "load_data core_sample =
       Inr ([(''Depth_cmcd'', [Some 19, Some 50, Some 120, Some 130]),
             (''TEX86'', [Some 2, Some 3, Some 5, Some 7]),
             (''TEX86_stdev'', [Some (12 / 25), Some (3 / 10), Some 0, Some (12 / 25)])],
            [Some 19, Some 50, Some 120, Some 130],
            [Some 2, Some 3, Some 5, Some 7],
            [Some (12 / 25), Some (3 / 10), Some 0, Some (12 / 25)])"
    by code_simp
  have d: "column_of core_sample ''Depth_cmcd''
      = Inr [Some 5, Some 19, Some 50, Some 100, Some 120, None, Some 130]"
    by code_simp
  have s: "column_of core_sample ''TEX86_stdev''
      = Inr [Some (1 / 10), None, Some (3 / 10), Some 1, Some 0, Some 1, None]"
    by code_simp
  have k: "filter (kept_row core_sample
         [Some 5, Some 19, Some 50, Some 100, Some 120, None, Some 130]
         [Some (1 / 10), None, Some (3 / 10), Some 1, Some 0, Some 1, None])
       [0..<nrows core_sample] = [1, 2, 4, 6]"
    by code_simp
  have m: "mean (present [Some (1 / 10), None, Some (3 / 10), Some 1, Some 0, Some 1, None])
      = (12 / 25 :: real)"
    by (simp add: mean_def)
  from load_data_uncertainty [OF wf l d s] wf l k m show ?thesis by simp
qed

text \<open>
  C33 (invariant). If every uncertainty present in the table is strictly positive, so
  is every uncertainty passed to the analysis: filling with the mean cannot introduce
  a non-positive value.
\<close>

theorem load_data_positive:
  assumes "wf_frame csv" and "load_data csv = Inr (data_df, x, y, unc_y)"
    and "column_of csv ''TEX86_stdev'' = Inr s" and "\<forall>v \<in> set (present s). 0 < v"
  shows "\<forall>u \<in> set (floats unc_y). 0 < u"
proof
  fix u assume "u \<in> set (floats unc_y)"
  with assms(1-3) have "u \<in> set (present s) \<or> (present s \<noteq> [] \<and> u = mean (present s))"
    by (rule load_data_uncertainty_aux)
  with assms(4) show "0 < u" by (auto simp: mean_pos)
qed

theorem load_data_positive_witness:
  "wf_frame [(''Depth_cmcd'', [Some 20, Some 30]), (''TEX86'', [Some 1, Some 2]),
             (''TEX86_stdev'', [None, Some (1 / 5)])]
   \<and> load_data [(''Depth_cmcd'', [Some 20, Some 30]), (''TEX86'', [Some 1, Some 2]),
                 (''TEX86_stdev'', [None, Some (1 / 5)])]
       = Inr ([(''Depth_cmcd'', [Some 20, Some 30]), (''TEX86'', [Some 1, Some 2]),
               (''TEX86_stdev'', [Some (1 / 5), Some (1 / 5)])],
              [Some 20, Some 30], [Some 1, Some 2], [Some (1 / 5), Some (1 / 5)])
   \<and> present [None, Some (1 / 5)] = [1 / 5]
   \<and> floats [Some (1 / 5), Some (1 / 5)] = [1 / 5, 1 / 5]"
proof -
  let ?csv = "[(''Depth_cmcd'', [Some 20, Some 30]), (''TEX86'', [Some 1, Some 2]),
               (''TEX86_stdev'', [None, Some (1 / 5)])]"
  have wf: "wf_frame ?csv" by code_simp
  have l: "load_data ?csv
       = Inr ([(''Depth_cmcd'', [Some 20, Some 30]), (''TEX86'', [Some 1, Some 2]),
               (''TEX86_stdev'', [Some (1 / 5), Some (1 / 5)])],
              [Some 20, Some 30], [Some 1, Some 2], [Some (1 / 5), Some (1 / 5)])"
    by code_simp
  have s: "column_of ?csv ''TEX86_stdev'' = Inr [None, Some (1 / 5)]" by code_simp
  have q: "present [None, Some (1 / 5 :: real)] = [1 / 5]" by simp
  then have p: "\<forall>v \<in> set (present [None, Some (1 / 5 :: real)]). 0 < v" by simp
  from load_data_positive [OF wf l s p] wf l q show ?thesis
    by (simp add: floats_def)
qed

text \<open>
  C30 (error). The loading cell completes exactly when the table has the three columns
  it reads, and it raises \<open>KeyError\<close> exactly when one of them is missing. The two cases
  are complementary, so no other exception can leave the cell: missing values, empty
  tables and an empty result never make it fail.
\<close>

theorem load_data_ok_iff:
  "(is_ok (load_data csv) \<longleftrightarrow> {''Depth_cmcd'', ''TEX86'', ''TEX86_stdev''} \<subseteq> fst ` set csv)
   \<and> (load_data csv = Inl KeyError
        \<longleftrightarrow> \<not> {''Depth_cmcd'', ''TEX86'', ''TEX86_stdev''} \<subseteq> fst ` set csv)"
proof (cases "load_data csv")
  case (Inl e)
  then show ?thesis using load_data_Inl_iff [of csv e] by auto
next
  case (Inr r)
  then show ?thesis using load_data_Inl_iff [of csv KeyError] by simp
qed

theorem load_data_ok_iff_witness:
  "load_data [(''Depth_cmcd'', [Some 20]), (''TEX86_stdev'', [None])] = Inl KeyError
   \<and> is_ok (load_data [(''Depth_cmcd'', []), (''TEX86'', []), (''TEX86_stdev'', [])])
   \<and> is_ok (load_data core_sample)"
  using load_data_ok_iff [of "[(''Depth_cmcd'', [Some 20]), (''TEX86_stdev'', [None])]"]
    load_data_ok_iff [of "[(''Depth_cmcd'', []), (''TEX86'', []), (''TEX86_stdev'', [])]"]
    load_data_ok_iff [of core_sample]
  by simp

end
