(* ===== verification/Pyplot.thy ===== *)
theory Pyplot
  imports Py_Prelude
begin

text \<open>
  matplotlib's \<^verbatim>\<open>pyplot\<close> interface as the notebook uses it: a module-level state that
  holds the figures created so far, remembers which one is current, and writes the
  current one to a file on \<^verbatim>\<open>savefig\<close>. A figure is the list of its axes, an axes the
  list of the artists drawn on it, in drawing order. What an artist looks like on
  screen is not modelled: each artist records the data and the line style and colour it
  was created with. The marker arguments of \<^verbatim>\<open>errorbar\<close>, which are the same in every
  call of the notebook, are not recorded.

  A handle is what \<^verbatim>\<open>plt.subplots\<close> returns: the figure's number and the index of an
  axes in it. Calls through \<^verbatim>\<open>plt\<close> act on the current axes (\<open>gca\<close>, the last axes of
  the current figure, created on demand as pyplot does). \<^verbatim>\<open>plot\<close> and \<^verbatim>\<open>errorbar\<close> raise
  \<open>ValueError\<close> when \<open>x\<close> and \<open>y\<close> differ in length; the error bars of \<^verbatim>\<open>errorbar\<close> are
  broadcast to the length of \<open>y\<close>, which succeeds for a series of that length or of
  length one, and must not contain a negative value. A call that raises adds no
  artist: the state after it is the state before it. (\<^verbatim>\<open>errorbar\<close> checks its error
  bars after it has added its marker line to the axes; that line is part of the
  \<open>Errorbar\<close> artist, which the model records for a call that returns, and is not
  recorded on its own.) The limits \<^verbatim>\<open>get_ylim\<close> returns are those of matplotlib's autoscaling, which is a
  parameter of the model.

  \<^verbatim>\<open>legend\<close> with a list of labels attaches the labels, in order, to the legend handles
  of the axes: first the lines (and line collections) in drawing order, then the
  containers (error bars, histograms). A \<open>Legend\<close> artist records each label with the
  index, in the axes, of the artist it is attached to.

  The lemmas of this theory are the interface the figure cells are verified against:
  one equation per operation on a state whose last figure is the one being built
  (\<open>building\<close>).
\<close>

section \<open>Model\<close>

datatype artist =
    Errorbar series series series
  | Line series series string string
  | VLines real real real string string
  | Hist series string string
  | Legend "(string \<times> nat) list"
  | Title string
  | XLabel string
  | YLabel string

type_synonym axes = "artist list"
type_synonym figure = "axes list"
type_synonym handle = "nat \<times> nat"

record pyplot =
  figs :: "figure list"
  current :: nat
  saved :: "(string \<times> figure) list"

definition pyplot_init :: pyplot where
  "pyplot_init = \<lparr>figs = [], current = 0, saved = []\<rparr>"

definition subplots :: "nat \<Rightarrow> nat \<Rightarrow> pyplot \<Rightarrow> nat \<times> pyplot" where
  "subplots nrows ncols p =
     (length (figs p),
      p\<lparr>figs := figs p @ [replicate (nrows * ncols) []], current := length (figs p)\<rparr>)"

definition add_artist :: "handle \<Rightarrow> artist \<Rightarrow> pyplot \<Rightarrow> pyplot" where
  "add_artist h a p =
     (let (f, k) = h
      in p\<lparr>figs := (figs p)[f := (figs p ! f)[k := figs p ! f ! k @ [a]]]\<rparr>)"

definition broadcast :: "series \<Rightarrow> nat \<Rightarrow> series result" where
  "broadcast v n =
     (if length v = n then Inr v
      else if length v = 1 then Inr (replicate n (hd v))
      else Inl ValueError)"

definition errorbar :: "handle \<Rightarrow> series \<Rightarrow> series \<Rightarrow> series \<Rightarrow> pyplot \<Rightarrow> pyplot result" where
  "errorbar h x y yerr p =
     (if length x \<noteq> length y then Inl ValueError
      else rbind (broadcast yerr (length y)) (\<lambda>err.
        if \<exists>e \<in> set yerr. e < 0 then Inl ValueError
        else Inr (add_artist h (Errorbar x y err) p)))"

definition plot ::
  "handle \<Rightarrow> series \<Rightarrow> series \<Rightarrow> string \<Rightarrow> string \<Rightarrow> pyplot \<Rightarrow> pyplot result" where
  "plot h x y linestyle color p =
     (if length x \<noteq> length y then Inl ValueError
      else Inr (add_artist h (Line x y linestyle color) p))"

fun is_line :: "artist \<Rightarrow> bool" where
  "is_line (Line x y linestyle color) = True"
| "is_line (VLines x ymin ymax color linestyle) = True"
| "is_line _ = False"

fun is_container :: "artist \<Rightarrow> bool" where
  "is_container (Errorbar x y yerr) = True"
| "is_container (Hist data color edgecolor) = True"
| "is_container _ = False"

definition legend_handles :: "axes \<Rightarrow> nat list" where
  "legend_handles ax =
     filter (\<lambda>i. is_line (ax ! i)) [0..<length ax]
     @ filter (\<lambda>i. is_container (ax ! i)) [0..<length ax]"

definition legend :: "handle \<Rightarrow> string list \<Rightarrow> pyplot \<Rightarrow> pyplot" where
  "legend h labels p =
     (let (f, k) = h
      in add_artist h (Legend (zip labels (legend_handles (figs p ! f ! k)))) p)"

definition hist :: "handle \<Rightarrow> series \<Rightarrow> string \<Rightarrow> string \<Rightarrow> pyplot \<Rightarrow> pyplot" where
  "hist h data color edgecolor p = add_artist h (Hist data color edgecolor) p"

definition vlines :: "handle \<Rightarrow> real \<Rightarrow> real \<Rightarrow> real \<Rightarrow> string \<Rightarrow> string \<Rightarrow> pyplot \<Rightarrow> pyplot" where
  "vlines h x ymin ymax color linestyle p = add_artist h (VLines x ymin ymax color linestyle) p"

definition set_title :: "handle \<Rightarrow> string \<Rightarrow> pyplot \<Rightarrow> pyplot" where
  "set_title h s p = add_artist h (Title s) p"

definition get_ylim :: "(axes \<Rightarrow> real \<times> real) \<Rightarrow> handle \<Rightarrow> pyplot \<Rightarrow> real \<times> real" where
  "get_ylim autoscale h p = (let (f, k) = h in autoscale (figs p ! f ! k))"

definition gca :: "pyplot \<Rightarrow> handle \<times> pyplot" where
  "gca p =
     (if figs p = [] then ((0, 0), p\<lparr>figs := [[[]]], current := 0\<rparr>)
      else if figs p ! current p = []
        then ((current p, 0), p\<lparr>figs := (figs p)[current p := [[]]]\<rparr>)
      else ((current p, length (figs p ! current p) - 1), p))"

definition plt_ylabel :: "string \<Rightarrow> pyplot \<Rightarrow> pyplot" where
  "plt_ylabel s p = (let (h, p') = gca p in add_artist h (YLabel s) p')"

definition plt_xlabel :: "string \<Rightarrow> pyplot \<Rightarrow> pyplot" where
  "plt_xlabel s p = (let (h, p') = gca p in add_artist h (XLabel s) p')"

definition savefig :: "string \<Rightarrow> pyplot \<Rightarrow> pyplot" where
  "savefig name p =
     (let p' = (if figs p = [] then p\<lparr>figs := [[]], current := 0\<rparr> else p)
      in p'\<lparr>saved := saved p' @ [(name, figs p' ! current p')]\<rparr>)"

subsection \<open>A state whose last figure is under construction\<close>

definition building :: "figure list \<Rightarrow> figure \<Rightarrow> (string \<times> figure) list \<Rightarrow> pyplot" where
  "building fs fig sv = \<lparr>figs = fs @ [fig], current = length fs, saved = sv\<rparr>"

section \<open>One equation per operation\<close>

lemma building_sel [simp]:
  "figs (building fs fig sv) = fs @ [fig]" "current (building fs fig sv) = length fs"
  "saved (building fs fig sv) = sv"
  by (simp_all add: building_def)

lemma subplots_building:
  "subplots r c p = (length (figs p), building (figs p) (replicate (r * c) []) (saved p))"
  by (simp add: subplots_def building_def)

lemma add_artist_building:
  "k < length fig \<Longrightarrow>
   add_artist (length fs, k) a (building fs fig sv) = building fs (fig[k := fig ! k @ [a]]) sv"
  by (simp add: add_artist_def building_def)

lemma has_negative_iff: "(\<exists>e \<in> set v. e < (0 :: real)) \<longleftrightarrow> \<not> (\<forall>e \<in> set v. 0 \<le> e)"
  by (auto simp: not_le)

lemma errorbar_building:
  "k < length fig \<Longrightarrow> length y = length x \<Longrightarrow> length e = length x \<Longrightarrow> \<forall>v \<in> set e. 0 \<le> v \<Longrightarrow>
   errorbar (length fs, k) x y e (building fs fig sv)
     = Inr (building fs (fig[k := fig ! k @ [Errorbar x y e]]) sv)"
  by (simp add: errorbar_def broadcast_def add_artist_building has_negative_iff)

lemma errorbar_ok_iff:
  "is_ok (errorbar h x y e p) \<longleftrightarrow>
     length x = length y \<and> (length e = length y \<or> length e = 1) \<and> (\<forall>v \<in> set e. 0 \<le> v)"
  by (simp add: errorbar_def broadcast_def has_negative_iff)

lemma errorbar_negative:
  "\<exists>v \<in> set yerr. v < 0 \<Longrightarrow> errorbar h x y yerr p = Inl ValueError"
  by (simp add: errorbar_def broadcast_def split: if_splits)

lemma errorbar_Inl_iff: "errorbar h x y e p = Inl err \<longleftrightarrow> err = ValueError \<and> \<not> is_ok (errorbar h x y e p)"
  by (auto simp: errorbar_def broadcast_def)

lemma plot_Inl_iff: "plot h x y ls col p = Inl err \<longleftrightarrow> err = ValueError \<and> length x \<noteq> length y"
  by (auto simp: plot_def)

lemma legend_building:
  "k < length fig \<Longrightarrow>
   legend (length fs, k) labels (building fs fig sv)
     = building fs (fig[k := fig ! k @ [Legend (zip labels (legend_handles (fig ! k)))]]) sv"
  by (simp add: legend_def add_artist_building)

lemma plot_ok_iff: "is_ok (plot h x y ls col p) \<longleftrightarrow> length x = length y"
  by (simp add: plot_def)

lemma plot_building:
  "k < length fig \<Longrightarrow> length y = length x \<Longrightarrow>
   plot (length fs, k) x y ls col (building fs fig sv)
     = Inr (building fs (fig[k := fig ! k @ [Line x y ls col]]) sv)"
  by (simp add: plot_def add_artist_building)

lemma get_ylim_building:
  "k < length fig \<Longrightarrow> get_ylim autoscale (length fs, k) (building fs fig sv) = autoscale (fig ! k)"
  by (simp add: get_ylim_def)

lemma gca_building:
  "fig \<noteq> [] \<Longrightarrow> gca (building fs fig sv) = ((length fs, length fig - 1), building fs fig sv)"
  by (simp add: gca_def building_def)

lemma plt_ylabel_building:
  "fig \<noteq> [] \<Longrightarrow> plt_ylabel s (building fs fig sv)
     = building fs (fig[length fig - 1 := fig ! (length fig - 1) @ [YLabel s]]) sv"
  by (simp add: plt_ylabel_def gca_building add_artist_building)

lemma plt_xlabel_building:
  "fig \<noteq> [] \<Longrightarrow> plt_xlabel s (building fs fig sv)
     = building fs (fig[length fig - 1 := fig ! (length fig - 1) @ [XLabel s]]) sv"
  by (simp add: plt_xlabel_def gca_building add_artist_building)

lemma savefig_building:
  "savefig name (building fs fig sv) = building fs fig (sv @ [(name, fig)])"
  by (simp add: savefig_def building_def)

lemmas pyplot_steps = legend_building hist_def vlines_def set_title_def
  subplots_building add_artist_building errorbar_building plot_building get_ylim_building plt_ylabel_building plt_xlabel_building savefig_building

section \<open>Calls through pyplot follow the figure created last\<close>

lemma gca_after_subplots:
  "0 < r * c \<Longrightarrow> fst (gca (snd (subplots r c p))) = (length (figs p), r * c - 1)"
  by (simp add: subplots_building gca_building)

lemma savefig_after_subplots:
  "saved (savefig name (snd (subplots r c p))) = saved p @ [(name, replicate (r * c) [])]"
  by (simp add: subplots_building savefig_building)

lemma savefig_keeps_figs: "figs p \<noteq> [] \<Longrightarrow> figs (savefig name p) = figs p"
  by (simp add: savefig_def)

end
