(* ===== verification/Report.thy ===== *)
theory Report
  imports Py_Prelude
begin

text \<open>
  The summary the notebook prints last (line 202): the mean and the standard deviation
  of the Monte Carlo slopes, as \<^verbatim>\<open>np.mean\<close> and \<^verbatim>\<open>np.std\<close> compute them. Both are NaN
  for an empty series, which is the value \<open>None\<close> here; \<^verbatim>\<open>np.std\<close> is the population
  standard deviation (it divides by the number of values, not by one less).

  The lemmas bound the two statistics by the spread of the series: if every value lies
  within \<open>B\<close> of some centre \<open>c\<close>, so does the mean, and the standard deviation is at
  most \<open>B\<close>. They also say how the two statistics follow a change of scale and origin
  of the series, which tells the standard deviation from the variance.
\<close>

section \<open>Model\<close>

definition variance :: "series \<Rightarrow> real" where
  "variance xs = mean (map (\<lambda>x. (x - mean xs)\<^sup>2) xs)"

definition np_mean :: "series \<Rightarrow> real option" where
  "np_mean xs = (if xs = [] then None else Some (mean xs))"

definition np_std :: "series \<Rightarrow> real option" where
  "np_std xs = (if xs = [] then None else Some (sqrt (variance xs)))"

definition summary :: "series \<Rightarrow> real option \<times> real option" where
  "summary slopes = (np_mean slopes, np_std slopes)"

section \<open>Sums of squares about a centre\<close>

lemma sum_sq_about [sum_expand]:
  "sum_list (map (\<lambda>x. (x - c)\<^sup>2) xs) = dot xs xs - 2 * c * sum_list xs + real (length xs) * c\<^sup>2"
  by (induction xs) (simp_all add: power2_eq_square algebra_simps)

lemma sum_sq_about_mean:
  assumes "xs \<noteq> []"
  shows "sum_list (map (\<lambda>x. (x - c)\<^sup>2) xs)
    = sum_list (map (\<lambda>x. (x - mean xs)\<^sup>2) xs) + real (length xs) * (mean xs - c)\<^sup>2"
proof -
  have "real (length xs) \<noteq> 0" using assms by simp
  then have m: "sum_list xs = real (length xs) * mean xs" by (simp add: mean_def)
  show ?thesis
    unfolding sum_sq_about m by (simp add: power2_eq_square algebra_simps)
qed

lemma sum_sq_le:
  "(\<forall>x \<in> set xs. \<bar>x - c\<bar> \<le> B) \<Longrightarrow> sum_list (map (\<lambda>x. (x - c)\<^sup>2) xs) \<le> real (length xs) * B\<^sup>2"
proof (induction xs)
  case Nil
  show ?case by simp
next
  case (Cons x xs)
  then have "(x - c)\<^sup>2 \<le> B\<^sup>2" by (simp add: abs_le_square_iff [symmetric] abs_le_iff)
  with Cons show ?case by (simp add: algebra_simps)
qed

lemma variance_nonneg: "0 \<le> variance xs"
  by (auto simp: variance_def mean_def intro!: divide_nonneg_nonneg sum_list_nonneg)

lemma variance_le:
  assumes "xs \<noteq> []" and "\<forall>x \<in> set xs. \<bar>x - c\<bar> \<le> B"
  shows "variance xs \<le> B\<^sup>2"
proof -
  have "sum_list (map (\<lambda>x. (x - mean xs)\<^sup>2) xs) \<le> sum_list (map (\<lambda>x. (x - c)\<^sup>2) xs)"
    using assms(1) by (simp add: sum_sq_about_mean [of xs c])
  also have "\<dots> \<le> real (length xs) * B\<^sup>2" using assms(2) by (rule sum_sq_le)
  finally show ?thesis
    using assms(1) by (simp add: variance_def mean_def field_simps)
qed

lemma mean_within:
  assumes "xs \<noteq> []" and "\<forall>x \<in> set xs. \<bar>x - c\<bar> \<le> B"
  shows "\<bar>mean xs - c\<bar> \<le> B"
proof -
  let ?n = "real (length xs)"
  have n: "0 < ?n" using assms(1) by simp
  have "\<bar>sum_list (map (\<lambda>x. x - c) xs)\<bar> \<le> sum_list (map abs (map (\<lambda>x. x - c) xs))"
    by (rule sum_list_abs_le)
  also have "\<dots> \<le> sum_list (map (\<lambda>x. B) xs)"
    using assms(2) by (auto simp: comp_def intro: sum_list_mono)
  finally have "\<bar>sum_list xs - ?n * c\<bar> \<le> ?n * B"
    by (simp add: sum_list_subtractf sum_list_triv)
  moreover have "mean xs - c = (sum_list xs - ?n * c) / ?n"
    using n by (simp add: mean_def diff_divide_distrib)
  then have "\<bar>mean xs - c\<bar> = \<bar>sum_list xs - ?n * c\<bar> / ?n"
    using n by (simp only: abs_divide abs_of_pos)
  ultimately show ?thesis using n by (simp add: pos_divide_le_eq mult.commute)
qed

lemma variance_eq_0_iff:
  assumes "xs \<noteq> []"
  shows "variance xs = 0 \<longleftrightarrow> (\<forall>x \<in> set xs. x = mean xs)"
proof -
  have "sum_list (map (\<lambda>x. (x - mean xs)\<^sup>2) xs) = 0 \<longleftrightarrow> (\<forall>x \<in> set xs. (x - mean xs)\<^sup>2 = 0)"
    by (subst sum_list_nonneg_eq_0_iff) auto
  then show ?thesis using assms by (simp add: variance_def mean_def)
qed

section \<open>Change of scale and origin\<close>

lemma mean_affine: "xs \<noteq> [] \<Longrightarrow> mean (map (\<lambda>v. c * v + d) xs) = c * mean xs + d"
  by (simp add: mean_def sum_list_map_affine add_divide_distrib)

lemma variance_affine: "variance (map (\<lambda>v. c * v + d) xs) = c\<^sup>2 * variance xs"
proof (cases "xs = []")
  case True
  then show ?thesis by (simp add: variance_def mean_def)
next
  case False
  have "(c * v + d - (c * mean xs + d))\<^sup>2 = c\<^sup>2 * (v - mean xs)\<^sup>2" for v
    by (simp add: power2_eq_square algebra_simps)
  with False show ?thesis
    using sum_list_map_affine [of "c\<^sup>2" 0 "map (\<lambda>x. (x - mean xs)\<^sup>2) xs"]
    by (simp add: variance_def mean_affine comp_def) (simp add: mean_def)
qed

section \<open>The statistics of the summary\<close>

lemma summary_bounds:
  assumes "xs \<noteq> []" and "\<forall>x \<in> set xs. \<bar>x - c\<bar> \<le> B"
  shows "\<exists>m s. summary xs = (Some m, Some s) \<and> \<bar>m - c\<bar> \<le> B \<and> 0 \<le> s \<and> s \<le> B"
proof -
  from assms obtain x where "x \<in> set xs" "\<bar>x - c\<bar> \<le> B" by (cases xs) auto
  then have B: "0 \<le> B" by linarith
  have "sqrt (variance xs) \<le> sqrt (B\<^sup>2)"
    by (rule real_sqrt_le_mono [OF variance_le [OF assms]])
  with B have "sqrt (variance xs) \<le> B" by simp
  with assms mean_within [OF assms] show ?thesis
    by (simp add: summary_def np_mean_def np_std_def variance_nonneg)
qed

text \<open>
  C26. If every value of a non-empty series lies within \<open>B\<close> of a centre \<open>c\<close>, the
  summary reports a mean within \<open>B\<close> of \<open>c\<close> and a standard deviation between \<open>0\<close> and
  \<open>B\<close>.
\<close>

theorem summary_within:
  assumes "xs \<noteq> []" and "\<forall>x \<in> set xs. \<bar>x - c\<bar> \<le> B"
  shows "\<exists>m s. summary xs = (Some m, Some s) \<and> \<bar>m - c\<bar> \<le> B \<and> 0 \<le> s \<and> s \<le> B"
  using assms by (rule summary_bounds)

theorem summary_within_witness:
  "\<exists>m s. summary [1, 3] = (Some m, Some s) \<and> \<bar>m - 2\<bar> \<le> 1 \<and> 0 \<le> s \<and> s \<le> 1"
  using summary_within [of "[1, 3]" 2 1] by simp

text \<open>
  C36. The reported standard deviation is zero exactly when all values of the series
  are equal; an empty series reports no number at all.
\<close>

theorem np_std_eq_0_iff:
  "np_std xs = Some 0 \<longleftrightarrow> xs \<noteq> [] \<and> (\<forall>x \<in> set xs. x = hd xs)"
proof (cases "xs = []")
  case True
  then show ?thesis by (simp add: np_std_def)
next
  case False
  have "(\<forall>x \<in> set xs. x = mean xs) \<longleftrightarrow> (\<forall>x \<in> set xs. x = hd xs)"
  proof
    assume "\<forall>x \<in> set xs. x = mean xs"
    with False show "\<forall>x \<in> set xs. x = hd xs" by (metis hd_in_set)
  next
    assume "\<forall>x \<in> set xs. x = hd xs"
    with False have "mean xs = hd xs" by (intro mean_const) auto
    with \<open>\<forall>x \<in> set xs. x = hd xs\<close> show "\<forall>x \<in> set xs. x = mean xs" by simp
  qed
  with False show ?thesis by (simp add: np_std_def variance_eq_0_iff)
qed

theorem np_std_eq_0_iff_witness:
  "np_std [2, 2, 2] = Some 0 \<and> np_std [] = None \<and> np_std [1, 3] = Some 1"
  using np_std_eq_0_iff [of "[2, 2, 2]"] by (simp add: np_std_def variance_def mean_def)

text \<open>
  C38. The summary follows a change of scale and origin of the slopes: when every
  slope \<open>v\<close> is replaced by \<open>c * v + d\<close>, the reported mean \<open>m\<close> becomes \<open>c * m + d\<close> and the
  reported standard deviation \<open>s\<close> becomes \<open>\<bar>c\<bar> * s\<close>: it is in the unit of the slopes
  and does not depend on the origin. An empty series reports no number before and
  after.
\<close>

theorem summary_affine:
  "summary (map (\<lambda>v. c * v + d) xs)
     = (map_option (\<lambda>m. c * m + d) (np_mean xs), map_option (\<lambda>s. \<bar>c\<bar> * s) (np_std xs))"
  by (simp add: summary_def np_mean_def np_std_def mean_affine variance_affine real_sqrt_mult)

end
