(* ===== verification/Figures.thy ===== *)
theory Figures
  imports Pyplot Regression
begin

text \<open>
  The four plotting cells of the notebook, each as one run on the pyplot state: the
  value of a cell is what it returns or the exception it raises, together with the
  pyplot state it leaves behind, since the artists drawn before a call raises stay on
  the figure. The data a cell plots are its arguments, so that the cells can be
  verified apart from the computations that produce the data; the root theory composes
  them in the order of the script.

  \<^item> \<open>trend_figure\<close> (lines 30 to 52): the data with error bars and the least-squares
    trend, which this cell also computes (\<^verbatim>\<open>np.polyfit\<close>, theory \<open>Regression\<close>). The
    figure is shown but not written to a file.
  \<^item> \<open>weighted_figure\<close> (lines 80 to 103): the data with the unweighted and the weighted
    trend, saved as \<^verbatim>\<open>Browne_et_al_2023_OLS_Models.svg\<close>.
  \<^item> \<open>ensemble_figure\<close> (lines 147 to 175): the data, one grey line per Monte Carlo
    model (the loop of lines 158 to 164 is \<open>plot_models\<close>), and the two trends, saved
    as \<^verbatim>\<open>Browne_et_al_2023_AllModels.svg\<close>.
  \<^item> \<open>histogram_figure\<close> (lines 189 to 201): histograms of the Monte Carlo slopes and
    intercepts, each with two vertical reference lines, saved as
    \<^verbatim>\<open>Browne_et_al_2023_histograms.svg\<close>.

  For each cell the theorems give the figure it saves, artist by artist, the artist
  each legend label is attached to, and the exact condition under which one of its
  calls raises; a cell that raises has written no file.
\<close>

section \<open>The cells\<close>

definition trend_figure ::
  "series \<Rightarrow> series \<Rightarrow> series \<Rightarrow> pyplot \<Rightarrow> (real \<times> real \<times> series, pyplot) run" where
  "trend_figure x y unc_y p0 =
     (let (fig1, p1) = subplots 1 1 p0; axes1 = (fig1, 0)
      in and_then (attempt (errorbar axes1 x y unc_y) p1) (\<lambda>_ p2.
         and_then (ols_trend x y, p2) (\<lambda>(a, b, model) _.
         and_then (attempt (plot axes1 x model ''--'' ''k'') p2) (\<lambda>_ p3.
         let p4 = legend axes1 [''Data'', ''OLS Trend (no weights)''] p3;
             p5 = plt_ylabel ''TEX 86 Index'' p4;
             p6 = plt_xlabel ''Year CE'' p5
         in (Inr (a, b, model), p6)))))"

definition weighted_figure ::
  "series \<Rightarrow> series \<Rightarrow> series \<Rightarrow> real \<Rightarrow> real \<Rightarrow> series \<Rightarrow> pyplot \<Rightarrow> (unit, pyplot) run" where
  "weighted_figure x y unc_y a b model_w p0 =
     (let (fig2, p1) = subplots 1 1 p0; axes2 = (fig2, 0)
      in and_then (attempt (errorbar axes2 x y unc_y) p1) (\<lambda>_ p2.
         let model = map (\<lambda>xi. a * xi + b) x
         in and_then (attempt (plot axes2 x model ''--'' ''grey'') p2) (\<lambda>_ p3.
            and_then (attempt (plot axes2 x model_w ''dashdot'' ''k'') p3) (\<lambda>_ p4.
            let p5 = legend axes2 [''OLS Trend (no weights)'', ''OLS Trend (weighted)'', ''Data''] p4;
                p6 = plt_ylabel ''TEX 86 Index'' p5;
                p7 = plt_xlabel ''Year CE'' p6
            in (Inr (), savefig ''Browne_et_al_2023_OLS_Models.svg'' p7)))))"

fun plot_models ::
  "handle \<Rightarrow> series \<Rightarrow> series list \<Rightarrow> nat list \<Rightarrow> pyplot \<Rightarrow> (unit, pyplot) run" where
  "plot_models axes3 x models [] p = (Inr (), p)"
| "plot_models axes3 x models (ind # inds) p =
     and_then (item models ind, p) (\<lambda>m _.
     and_then (attempt (plot axes3 x m ''-'' ''grey'') p) (\<lambda>_.
     plot_models axes3 x models inds))"

definition ensemble_figure ::
  "series \<Rightarrow> series \<Rightarrow> series \<Rightarrow> real \<Rightarrow> real \<Rightarrow> series \<Rightarrow> series \<Rightarrow> series list
     \<Rightarrow> pyplot \<Rightarrow> (unit, pyplot) run" where
  "ensemble_figure x y unc_y a b model_w slopes models p0 =
     (let (fig3, p1) = subplots 1 1 p0; axes3 = (fig3, 0)
      in and_then (attempt (errorbar axes3 x y unc_y) p1) (\<lambda>_ p2.
         and_then (plot_models axes3 x models [0..<length slopes] p2) (\<lambda>_ p3.
         let model = map (\<lambda>xi. a * xi + b) x
         in and_then (attempt (plot axes3 x model ''--'' ''k'') p3) (\<lambda>_ p4.
            and_then (attempt (plot axes3 x model_w ''dashdot'' ''k'') p4) (\<lambda>_ p5.
            let p6 = plt_ylabel ''TEX 86 Index'' p5;
                p7 = plt_xlabel ''Year CE'' p6
            in (Inr (), savefig ''Browne_et_al_2023_AllModels.svg'' p7))))))"

definition histogram_figure ::
  "(axes \<Rightarrow> real \<times> real) \<Rightarrow> series \<Rightarrow> series \<Rightarrow> real \<Rightarrow> real \<Rightarrow> series \<Rightarrow> pyplot
     \<Rightarrow> (unit, pyplot) run" where
  "histogram_figure autoscale slopes intercepts a b BA p0 =
     (let (fig4, p1) = subplots 2 1 p0;
          p2 = hist (fig4, 0) slopes ''peru'' ''k'' p1;
          ylims = get_ylim autoscale (fig4, 0) p2;
          p3 = vlines (fig4, 0) a (min (fst ylims) (snd ylims)) (max (fst ylims) (snd ylims))
                 ''k'' ''--'' p2
      in and_then (item BA 1, p3) (\<lambda>BA1 _.
         let p4 = vlines (fig4, 0) BA1 (min (fst ylims) (snd ylims)) (max (fst ylims) (snd ylims))
                    ''k'' ''dashdot'' p3;
             p5 = set_title (fig4, 0) ''Slopes'' p4;
             p6 = hist (fig4, 1) intercepts ''mediumslateblue'' ''k'' p5;
             ylims = get_ylim autoscale (fig4, 1) p6;
             p7 = vlines (fig4, 1) b (min (fst ylims) (snd ylims)) (max (fst ylims) (snd ylims))
                    ''k'' ''--'' p6
         in and_then (item BA 0, p7) (\<lambda>BA0 _.
            let p8 = vlines (fig4, 1) BA0 (min (fst ylims) (snd ylims))
                       (max (fst ylims) (snd ylims)) ''k'' ''dashdot'' p7;
                p9 = set_title (fig4, 1) ''Intercepts'' p8
            in (Inr (), savefig ''Browne_et_al_2023_histograms.svg'' p9))))"

subsection \<open>What the saved figures are expected to show\<close>

definition scatter_axes :: "series \<Rightarrow> series \<Rightarrow> series \<Rightarrow> artist list \<Rightarrow> figure" where
  "scatter_axes x y unc_y rest =
     [Errorbar x y unc_y # rest @ [YLabel ''TEX 86 Index'', XLabel ''Year CE'']]"

definition reference_histogram ::
  "(axes \<Rightarrow> real \<times> real) \<Rightarrow> series \<Rightarrow> string \<Rightarrow> real \<Rightarrow> real \<Rightarrow> string \<Rightarrow> axes" where
  "reference_histogram autoscale data color ref1 ref2 title =
     (let bars = Hist data color ''k''; (lo, hi) = autoscale [bars]
      in [bars, VLines ref1 (min lo hi) (max lo hi) ''k'' ''--'',
          VLines ref2 (min lo hi) (max lo hi) ''k'' ''dashdot'', Title title])"

definition trend_line :: "real \<Rightarrow> real \<Rightarrow> series \<Rightarrow> series" where
  "trend_line a b x = map (\<lambda>xi. a * xi + b) x"

section \<open>The loop over the Monte Carlo models\<close>

lemma plot_models_building:
  "k < length fig \<Longrightarrow> \<forall>i \<in> set inds. i < length models \<and> length (models ! i) = length x \<Longrightarrow>
   plot_models (length fs, k) x models inds (building fs fig sv)
     = (Inr (), building fs (fig[k := fig ! k @ map (\<lambda>i. Line x (models ! i) ''-'' ''grey'') inds]) sv)"
  by (induction inds arbitrary: fig) (simp_all add: item_def plot_building attempt_def)

lemma plot_models_ok_iff:
  "is_ok (fst (plot_models h x models inds p))
     \<longleftrightarrow> (\<forall>i \<in> set inds. i < length models \<and> length (models ! i) = length x)"
  by (induction inds arbitrary: p) (auto simp: item_def plot_def attempt_def)

lemma plot_models_all:
  assumes "k < length fig" "length slopes = length models" "\<forall>m \<in> set models. length m = length x"
  shows "plot_models (length fs, k) x models [0..<length slopes] (building fs fig sv)
     = (Inr (), building fs (fig[k := fig ! k @ map (\<lambda>m. Line x m ''-'' ''grey'') models]) sv)"
  using assms map_nth_upt_take [of "length models" models "\<lambda>m. Line x m ''-'' ''grey''"]
  by (simp add: plot_models_building)

lemmas figure_steps = pyplot_steps plot_models_all attempt_def legend_handles_def Let_def

section \<open>Drawing writes no file\<close>

lemma saved_add_artist [simp]: "saved (add_artist h a p) = saved p"
  by (simp add: add_artist_def split_beta)

lemma saved_attempt_errorbar [simp]: "saved (snd (attempt (errorbar h x y e) p)) = saved p"
  by (simp add: attempt_def errorbar_def broadcast_def)

lemma saved_attempt_plot [simp]: "saved (snd (attempt (plot h x y ls col) p)) = saved p"
  by (simp add: attempt_def plot_def)

lemma saved_plot_models [simp]: "saved (snd (plot_models h x models inds p)) = saved p"
  by (induction inds arbitrary: p) (simp_all add: and_then_def split_beta split: sum.splits)

lemma ensemble_figure_raised:
  assumes "\<not> is_ok (fst (ensemble_figure x y unc_y a b model_w slopes models p0))"
  shows "saved (snd (ensemble_figure x y unc_y a b model_w slopes models p0)) = saved p0"
  using assms unfolding ensemble_figure_def Let_def split_beta and_then_def
  by (auto simp: subplots_def split: sum.splits)

section \<open>The state after each cell\<close>

lemma trend_figure_eq:
  assumes "polyfit1 x y = Inr (a, b)" "length unc_y = length x" "\<forall>v \<in> set unc_y. 0 \<le> v"
  shows "trend_figure x y unc_y p0 =
    (Inr (a, b, trend_line a b x),
      building (figs p0)
        (scatter_axes x y unc_y
          [Line x (trend_line a b x) ''--'' ''k'',
           Legend [(''Data'', 1), (''OLS Trend (no weights)'', 0)]])
        (saved p0))"
proof -
  from assms(1) have "length y = length x"
    by (auto simp: polyfit1_def split: if_splits)
  with assms show ?thesis
    by (simp add: trend_figure_def ols_trend_def scatter_axes_def trend_line_def figure_steps)
qed

lemma weighted_figure_eq:
  assumes "length y = length x" "length unc_y = length x" "length model_w = length x"
    and "\<forall>v \<in> set unc_y. 0 \<le> v"
  shows "weighted_figure x y unc_y a b model_w p0 =
    (let fig = scatter_axes x y unc_y
        [Line x (trend_line a b x) ''--'' ''grey'', Line x model_w ''dashdot'' ''k'',
         Legend [(''OLS Trend (no weights)'', 1), (''OLS Trend (weighted)'', 2), (''Data'', 0)]]
     in (Inr (), building (figs p0) fig (saved p0 @ [(''Browne_et_al_2023_OLS_Models.svg'', fig)])))"
  using assms by (simp add: weighted_figure_def scatter_axes_def trend_line_def figure_steps)

lemma ensemble_figure_eq:
  assumes "length y = length x" "length unc_y = length x" "length model_w = length x"
    and "\<forall>v \<in> set unc_y. 0 \<le> v"
    and "length slopes = length models" "\<forall>m \<in> set models. length m = length x"
  shows "ensemble_figure x y unc_y a b model_w slopes models p0 =
    (let fig = scatter_axes x y unc_y
        (map (\<lambda>m. Line x m ''-'' ''grey'') models @
         [Line x (trend_line a b x) ''--'' ''k'', Line x model_w ''dashdot'' ''k''])
     in (Inr (), building (figs p0) fig (saved p0 @ [(''Browne_et_al_2023_AllModels.svg'', fig)])))"
  using assms by (simp add: ensemble_figure_def scatter_axes_def trend_line_def figure_steps)

lemma histogram_figure_eq:
  "histogram_figure autoscale slopes intercepts a b [BA0, BA1] p0 =
    (let fig = [reference_histogram autoscale slopes ''peru'' a BA1 ''Slopes'',
                reference_histogram autoscale intercepts ''mediumslateblue'' b BA0 ''Intercepts'']
     in (Inr (), building (figs p0) fig (saved p0 @ [(''Browne_et_al_2023_histograms.svg'', fig)])))"
  by (simp add: histogram_figure_def reference_histogram_def figure_steps split_beta
      numeral_2_eq_2)

lemmas figure_cells = trend_figure_eq weighted_figure_eq ensemble_figure_eq histogram_figure_eq

section \<open>The saved figures\<close>

text \<open>
  C31. With data, non-negative uncertainties and weighted model of the same length, the
  second cell succeeds and saves, under the name \<^verbatim>\<open>Browne_et_al_2023_OLS_Models.svg\<close>, one
  axes that shows the error bars, the unweighted trend \<open>a * x + b\<close> dashed in grey, the
  weighted trend dash-dotted in black, the legend and the two axis labels, in this
  order; files saved before are kept. The legend attaches each label to the artist it
  names: the two trends are artists 1 and 2 of the axes and the error bars artist 0.
\<close>

theorem weighted_figure_saved:
  assumes "length y = length x" "length unc_y = length x" "length model_w = length x"
    and "\<forall>v \<in> set unc_y. 0 \<le> v"
  shows "\<exists>p. weighted_figure x y unc_y a b model_w p0 = (Inr (), p) \<and>
    saved p = saved p0 @ [(''Browne_et_al_2023_OLS_Models.svg'',
      scatter_axes x y unc_y
        [Line x (trend_line a b x) ''--'' ''grey'', Line x model_w ''dashdot'' ''k'',
         Legend [(''OLS Trend (no weights)'', 1), (''OLS Trend (weighted)'', 2), (''Data'', 0)]])]"
  using assms by (simp add: weighted_figure_eq Let_def)

theorem weighted_figure_saved_witness:
  "\<exists>p. weighted_figure [0, 1] [1, 2] [1, 1] 1 1 [1, 3] pyplot_init = (Inr (), p) \<and>
    saved p = saved pyplot_init @ [(''Browne_et_al_2023_OLS_Models.svg'',
      scatter_axes [0, 1] [1, 2] [1, 1]
        [Line [0, 1] (trend_line 1 1 [0, 1]) ''--'' ''grey'', Line [0, 1] [1, 3] ''dashdot'' ''k'',
         Legend [(''OLS Trend (no weights)'', 1), (''OLS Trend (weighted)'', 2), (''Data'', 0)]])]"
  using weighted_figure_saved [of "[1, 2]" "[0, 1]" "[1, 1]" "[1, 3]" 1 1 pyplot_init] by simp

text \<open>
  C13. When the uncertainties are non-negative, there is one model per slope and every
  series has the length of \<open>x\<close>, the third cell succeeds and saves, as
  \<^verbatim>\<open>Browne_et_al_2023_AllModels.svg\<close>, one axes with the error bars, then one solid grey
  line per Monte Carlo model in the order of the ensemble, then the unweighted trend
  dashed and the weighted trend dash-dotted, both black and therefore drawn over the
  grey lines, then the axis labels.
\<close>

theorem ensemble_figure_saved:
  assumes "length y = length x" "length unc_y = length x" "length model_w = length x"
    and "\<forall>v \<in> set unc_y. 0 \<le> v"
    and "length slopes = length models" "\<forall>m \<in> set models. length m = length x"
  shows "\<exists>p. ensemble_figure x y unc_y a b model_w slopes models p0 = (Inr (), p) \<and>
    saved p = saved p0 @ [(''Browne_et_al_2023_AllModels.svg'',
      scatter_axes x y unc_y
        (map (\<lambda>m. Line x m ''-'' ''grey'') models @
         [Line x (trend_line a b x) ''--'' ''k'', Line x model_w ''dashdot'' ''k'']))]"
  using assms by (simp add: ensemble_figure_eq Let_def)

theorem ensemble_figure_saved_witness:
  "\<exists>p. ensemble_figure [0, 1] [1, 2] [1, 1] 1 1 [1, 3] [2, 3] [[0, 2], [0, 3]] pyplot_init
        = (Inr (), p) \<and>
    saved p = saved pyplot_init @ [(''Browne_et_al_2023_AllModels.svg'',
      scatter_axes [0, 1] [1, 2] [1, 1]
        (map (\<lambda>m. Line [0, 1] m ''-'' ''grey'') [[0, 2], [0, 3]] @
         [Line [0, 1] (trend_line 1 1 [0, 1]) ''--'' ''k'', Line [0, 1] [1, 3] ''dashdot'' ''k'']))]"
  using ensemble_figure_saved [of "[1, 2]" "[0, 1]" "[1, 1]" "[1, 3]" "[2, 3]" "[[0, 2], [0, 3]]"
      1 1 pyplot_init]
  by simp

text \<open>
  C25. For a coefficient vector \<open>BA\<close> with two entries the last cell cannot fail. It
  saves, as \<^verbatim>\<open>Browne_et_al_2023_histograms.svg\<close>, two axes: the histogram of the slopes
  with reference lines at \<open>a\<close> (dashed) and at \<open>BA[1]\<close> (dash-dotted) and the histogram of
  the intercepts with reference lines at \<open>b\<close> and at \<open>BA[0]\<close>, each line spanning the
  limits the axes had after the histogram was drawn.
\<close>

theorem histogram_figure_saved:
  "\<exists>p. histogram_figure autoscale slopes intercepts a b [BA0, BA1] p0 = (Inr (), p) \<and>
    saved p = saved p0 @ [(''Browne_et_al_2023_histograms.svg'',
      [reference_histogram autoscale slopes ''peru'' a BA1 ''Slopes'',
       reference_histogram autoscale intercepts ''mediumslateblue'' b BA0 ''Intercepts''])]"
  by (simp add: histogram_figure_eq Let_def)

text \<open>
  C34. With non-negative uncertainties as long as the data, the first cell returns the
  coefficients of \<open>polyfit1\<close> and the fitted values \<open>a * x + b\<close>, draws them dashed over
  the error bars, and saves nothing: the figure exists in the pyplot state only. Its
  legend is given the labels without handles, so the first label, \<^verbatim>\<open>Data\<close>, is attached
  to the first line of the axes, which is the trend (artist 1), and the label of the
  trend to the error bars (artist 0).
\<close>

theorem trend_figure_result:
  assumes "polyfit1 x y = Inr (a, b)" "length unc_y = length x" "\<forall>v \<in> set unc_y. 0 \<le> v"
  shows "\<exists>p. trend_figure x y unc_y p0 = (Inr (a, b, trend_line a b x), p) \<and>
    saved p = saved p0 \<and>
    figs p = figs p0 @ [scatter_axes x y unc_y
      [Line x (trend_line a b x) ''--'' ''k'',
       Legend [(''Data'', 1), (''OLS Trend (no weights)'', 0)]]]"
  using assms by (simp add: trend_figure_eq)

theorem trend_figure_result_witness:
  "\<exists>p. trend_figure [0, 1] [1, 3] [1, 1] pyplot_init = (Inr (2, 1, trend_line 2 1 [0, 1]), p) \<and>
    saved p = saved pyplot_init \<and>
    figs p = figs pyplot_init @ [scatter_axes [0, 1] [1, 3] [1, 1]
      [Line [0, 1] (trend_line 2 1 [0, 1]) ''--'' ''k'',
       Legend [(''Data'', 1), (''OLS Trend (no weights)'', 0)]]]"
  using trend_figure_result [of "[0, 1]" "[1, 3]" 2 1 "[1, 1]" pyplot_init]
  by (simp add: polyfit1_eval)

text \<open>
  C35. The third cell completes exactly when \<open>x\<close>, \<open>y\<close> and the weighted model have one
  length, the error bars have that length or length one and none of them is negative,
  and the ensemble holds at least as many models as slopes, each of the first of them
  as long as \<open>x\<close>. In every other case one of the plotting calls raises and the cell
  ends with the files that were there before it: it has written none.
\<close>

theorem ensemble_figure_ok_iff:
  "(is_ok (fst (ensemble_figure x y unc_y a b model_w slopes models p0)) \<longleftrightarrow>
     length x = length y \<and> (length unc_y = length y \<or> length unc_y = 1) \<and>
     (\<forall>v \<in> set unc_y. 0 \<le> v) \<and> length model_w = length x \<and>
     (\<forall>i < length slopes. i < length models \<and> length (models ! i) = length x))
   \<and> (\<not> is_ok (fst (ensemble_figure x y unc_y a b model_w slopes models p0)) \<longrightarrow>
       saved (snd (ensemble_figure x y unc_y a b model_w slopes models p0)) = saved p0)"
proof (intro conjI impI)
  show "is_ok (fst (ensemble_figure x y unc_y a b model_w slopes models p0)) \<longleftrightarrow>
     length x = length y \<and> (length unc_y = length y \<or> length unc_y = 1) \<and>
     (\<forall>v \<in> set unc_y. 0 \<le> v) \<and> length model_w = length x \<and>
     (\<forall>i < length slopes. i < length models \<and> length (models ! i) = length x)"
    by (auto simp: ensemble_figure_def Let_def split_beta is_ok_and_then_iff plot_models_ok_iff
        plot_ok_iff errorbar_ok_iff Inr_unit_iff)
qed (rule ensemble_figure_raised)

theorem ensemble_figure_ok_iff_witness:
  "\<not> is_ok (fst (ensemble_figure [0, 1] [1, 2] [1] 1 1 [1, 3] [2, 3] [[0, 2]] pyplot_init)) \<and>
   saved (snd (ensemble_figure [0, 1] [1, 2] [1] 1 1 [1, 3] [2, 3] [[0, 2]] pyplot_init)) = [] \<and>
   is_ok (fst (ensemble_figure [0, 1] [1, 2] [1] 1 1 [1, 3] [2] [[0, 2], [5]] pyplot_init)) \<and>
   \<not> is_ok (fst (ensemble_figure [0, 1] [1, 2] [-1] 1 1 [1, 3] [2] [[0, 2], [5]] pyplot_init))"
  using ensemble_figure_ok_iff [of "[0, 1]" "[1, 2]" "[1]" 1 1 "[1, 3]" "[2, 3]" "[[0, 2]]" pyplot_init]
    ensemble_figure_ok_iff [of "[0, 1]" "[1, 2]" "[1]" 1 1 "[1, 3]" "[2]" "[[0, 2], [5]]" pyplot_init]
    ensemble_figure_ok_iff [of "[0, 1]" "[1, 2]" "[-1]" 1 1 "[1, 3]" "[2]" "[[0, 2], [5]]" pyplot_init]
  by (simp add: less_Suc_eq pyplot_init_def)

end
