(* ===== verification/Spec2Isabelle.thy ===== *)
theory Spec2Isabelle
  imports Py_Prelude Regression Linalg Monte_Carlo Frame Pyplot Report Figures
begin

text \<open>
  \<^bold>\<open>The program.\<close> \<^verbatim>\<open>src/Regressions_Notebook.py\<close> is a notebook exported as a script: it
  asks whether the trend of a TEX86 record with depth is significant. It runs top to
  bottom, once, in seven cells:

  \<^enum> lines 13 to 23 load a table, fill the missing uncertainties with the mean of the
    present ones, filter the rows by depth and select the positions \<open>x\<close>, the values
    \<open>y\<close> and the uncertainties \<open>unc_y\<close>;
  \<^enum> lines 30 to 52 plot the data and the least-squares trend of \<^verbatim>\<open>np.polyfit\<close>;
  \<^enum> lines 63 to 73 repeat the fit with the normal equations and compute a weighted fit;
  \<^enum> lines 80 to 105 plot both trends and save the figure;
  \<^enum> lines 115 to 134 define \<^verbatim>\<open>regress_data\<close>, \<^verbatim>\<open>jiggle_data\<close> and \<^verbatim>\<open>multi_OLS\<close>, the Monte
    Carlo engine: perturb every value uniformly within its uncertainty, refit, repeat;
  \<^enum> lines 145 to 175 run the engine 1000 times with twice the uncertainties and plot
    every fitted line;
  \<^enum> lines 189 to 202 plot histograms of the slopes and intercepts and print the mean
    and the standard deviation of the slopes.

  The cells communicate through the variables \<open>x\<close>, \<open>y\<close>, \<open>unc_y\<close>, \<open>a\<close>, \<open>b\<close>, \<open>BA\<close>,
  \<open>model_w\<close>, \<open>slopes\<close>, \<open>intercepts\<close> and \<open>models\<close>, and through two pieces of global
  state: the random generator of numpy and the figures of pyplot.

  \<^bold>\<open>The theories.\<close> Each theory models one part; its definitions keep the names of the
  script where it has names, and follow the order of its lines.

  \<^item> \<open>Py_Prelude\<close>: exceptions as values (\<open>py_error\<close>, results as sums, \<open>rbind\<close> for the
    sequencing of calls that may raise, \<open>collect\<close> for a sequence of them), runs (an
    outcome together with the state left behind, sequenced by \<open>and_then\<close> and
    \<open>attempt\<close>), Python indexing (\<open>item\<close>), and the lemmas about sums over lists that
    all parts share.
  \<^item> \<open>Frame\<close>: cell 1. A pandas frame is a list of named columns whose cells may be
    missing; \<open>load_data\<close> is the cell, \<open>filter_depth\<close> line 19. Lemmas: the frame
    invariant \<open>wf_frame\<close> is preserved; the cell in closed form (\<open>load_data_eq\<close>);
    which rows survive; alignment, absence of missing cells, origin and sign of the
    uncertainties; the cell raises \<open>KeyError\<close> exactly for a missing column.
  \<^item> \<open>Regression\<close>: \<^verbatim>\<open>np.polyfit\<close> of degree one (\<open>polyfit1\<close>, \<open>lstsq_line\<close>),
    \<open>regress_data\<close> and the trend of lines 44 and 45 (\<open>ols_trend\<close>). Lemmas: the result
    minimises the sum of squared residuals (\<open>sse\<close>) and is the only minimiser when the
    positions are not all equal; when they are all equal it is the minimiser of least
    norm in numpy's scaled coordinates; exact lines are recovered; when the fit
    returns.
  \<^item> \<open>Linalg\<close>: cell 3 (\<open>fit_cell\<close>, with \<open>normal_fit\<close> for line 64 and \<open>weighted_fit\<close>
    for lines 69 and 70) over matrices with explicit shape; a product with the
    pandas series \<open>y\<close> is \<open>rmatmul_series\<close>, which raises pandas' bare \<open>Exception\<close>
    where a product of arrays raises \<open>ValueError\<close>. Lemmas: inverses of
    diagonal and of two-by-two matrices; both fits in closed form; agreement of
    line 64 with \<open>polyfit1\<close> and where it ends; the normal equations line 70 solves,
    which are weighted by the uncertainties and not by their reciprocals;
    regularity of the weighted system for positive uncertainties.
  \<^item> \<open>Monte_Carlo\<close>: cell 5 and line 145. The generator is a record of an arbitrary
    sequence of unit samples and a position (\<open>rng\<close>); \<open>jiggle_data\<close>, \<open>mc_step\<close>,
    \<open>mc_loop\<close> and \<open>multi_OLS\<close> thread it as the script does implicitly. Lemmas: every
    perturbed value lies in its window; the loop refines the list of independent
    iterations \<open>mc_iteration\<close>; size and content of the ensemble; when the run
    returns; how far a slope can move.
  \<^item> \<open>Pyplot\<close>: the pyplot state (\<open>pyplot\<close>: figures, current figure, saved files) and
    the calls the script makes on it. \<open>errorbar\<close> raises for lengths that do not fit
    and for a negative error bar; \<open>legend\<close> records the artist each label is attached
    to (\<open>legend_handles\<close>: lines first, then containers). Lemmas: one equation per
    call on a state whose last figure is under construction (\<open>pyplot_steps\<close>).
  \<^item> \<open>Figures\<close>: cells 2, 4, 6 and 7 as runs on the pyplot state (\<open>trend_figure\<close>,
    \<open>weighted_figure\<close>, \<open>ensemble_figure\<close> with the loop \<open>plot_models\<close>,
    \<open>histogram_figure\<close>). Lemmas: the state after each cell (\<open>figure_cells\<close>), the saved
    figure artist by artist, the artist each legend label ends on, when a cell raises
    and that it has then written no file.
  \<^item> \<open>Report\<close>: line 202 (\<open>summary\<close>, \<open>np_mean\<close>, \<open>np_std\<close>). Lemmas: mean and standard
    deviation are bounded by the spread of the values and follow a change of scale
    and origin.
  \<^item> This theory: \<open>notebook\<close> composes the cells in the order of the script, passing
    results, generator and pyplot state from one to the next; its value is a run, so
    that a notebook that raises still shows the figures and files it had produced.
    Its theorems span the parts: a complete run and what it leaves behind, the bound
    on the printed statistics, the runs that stop at a zero and at a negative
    uncertainty, the reference lines of the histograms.

  \<^bold>\<open>Modelling choices.\<close>

  \<^item> Floats are real numbers. Rounding, overflow and conditioning are outside the
    model; every statement about a fit is a statement about exact arithmetic. A
    missing value (NaN) is \<open>None\<close> in the loader, which is the only part that
    receives one. An operation on which numpy would produce NaN or infinity from
    finite input is either an exception of the model (\<open>polyfit1\<close> on positions that
    are all zero) or cannot occur (line 69 divides Python floats and raises).
  \<^item> The input of the model is the table \<^verbatim>\<open>pd.read_csv\<close> returned, reduced to its
    numeric columns, with rows identified by position. The in-place \<^verbatim>\<open>fillna\<close> of
    line 17 is taken to update that table, as it did in the pandas versions of the
    time of writing; under copy-on-write it would not.
  \<^item> The inverse of \<^verbatim>\<open>np.linalg.inv\<close> is exact, so a matrix is singular when its
    determinant is zero; a matrix that is singular only up to rounding, for which
    numpy returns large numbers instead of raising, is outside the model.
  \<^item> \<^verbatim>\<open>np.random.uniform\<close> is its formula \<open>low + (high - low) * u\<close> also when \<open>high < low\<close>,
    which numpy's documentation leaves open. The functions of cell 5 meet this case
    when they are called with a negative uncertainty; the notebook does not, since it
    stops at line 32 before. The theorems about the window assume a half-width that
    is not negative.
  \<^item> Random samples are the values of an arbitrary function, so a theorem about a
    run holds for every outcome of the generator; theorems that need samples in the
    unit interval assume \<open>unit_draws\<close>. No statement is made about distributions.
  \<^item> Nothing is bounded by fuel: the only loops are the \<^verbatim>\<open>for\<close> loops of \<^verbatim>\<open>multi_OLS\<close>
    and of cell 6 and the comprehensions, all over finite ranges, and are structural
    recursions. The iteration count is the script's constant 1000 and is never
    evaluated: the theorems are proved for it symbolically.
  \<^item> An artist records its data, line style and colour. Axis limits after
    autoscaling are a parameter (\<open>autoscale\<close>), because they are the only value the
    script reads back from matplotlib. A legend records, for each label, the index of
    the artist matplotlib attaches it to when it is given labels without handles.
  \<^item> A call that raises ends the run. The pyplot state of the run is the state before
    the raising call; the generator's state is part of the value of a run that
    returns and is not reported for one that raises, since nothing can observe it.

  \<^bold>\<open>Not modelled.\<close> The parsing of the CSV file, \<^verbatim>\<open>print\<close> and \<^verbatim>\<open>data_df.head()\<close>, the
  rendering and the file format of the figures, the marker arguments of
  \<^verbatim>\<open>errorbar\<close>, warnings (numpy's \<^verbatim>\<open>RankWarning\<close> for a rank-deficient fit among them),
  floating-point rounding, and the statistical meaning of the ensemble.
\<close>

section \<open>The notebook\<close>

definition notebook ::
  "(axes \<Rightarrow> real \<times> real) \<Rightarrow> frame \<Rightarrow> rng \<Rightarrow> pyplot
     \<Rightarrow> ((real option \<times> real option) \<times> rng, pyplot) run" where
  "notebook autoscale csv g p0 =
     and_then (load_data csv, p0) (\<lambda>(data_df, xc, yc, uc) _.
     let x = floats xc; y = floats yc; unc_y = floats uc
     in and_then (trend_figure x y unc_y p0) (\<lambda>(a, b, model) p1.
        and_then (fit_cell x y unc_y, p1) (\<lambda>(BA, BA_w, model_w) _.
        and_then (weighted_figure x y unc_y a b model_w p1) (\<lambda>_ p2.
        and_then (monte_carlo_run x y unc_y g, p2) (\<lambda>((slopes, intercepts, models), g') _.
        and_then (ensemble_figure x y unc_y a b model_w slopes models p2) (\<lambda>_ p3.
        and_then (histogram_figure autoscale slopes intercepts a b BA p3) (\<lambda>_ p4.
          (Inr (summary slopes, g'), p4))))))))"

subsection \<open>What a complete run is expected to leave behind\<close>

definition output_files :: "string list" where
  "output_files = [''Browne_et_al_2023_OLS_Models.svg'', ''Browne_et_al_2023_AllModels.svg'',
     ''Browne_et_al_2023_histograms.svg'']"

definition slope_spread :: "series \<Rightarrow> series \<Rightarrow> real" where
  "slope_spread x unc_y =
     dot (map abs (slope_weights x)) (map (\<lambda>u. 2 * \<bar>u\<bar>) unc_y) / gram_det x"

section \<open>A complete run\<close>

lemma notebook_cells:
  assumes wf: "wf_frame csv" and load: "load_data csv = Inr (data_df, xc, yc, uc)"
    and d: "gram_det (floats xc) \<noteq> 0" and pos: "\<forall>u \<in> set (floats uc). 0 < u"
  obtains a b b0 b1 fits where
    "length (floats yc) = length (floats xc)" "length (floats uc) = length (floats xc)"
    and "\<forall>v \<in> set (floats uc). 0 \<le> v"
    and "polyfit1 (floats xc) (floats yc) = Inr (a, b)"
    and "fit_cell (floats xc) (floats yc) (floats uc)
      = Inr ([b, a], [b0, b1], map (\<lambda>xi. b0 + b1 * xi) (floats xc))"
    and "length fits = 1000"
    and "monte_carlo_run (floats xc) (floats yc) (floats uc) g
      = Inr ((map fst fits, map snd fits,
              map (\<lambda>f. map (\<lambda>xi. xi * fst f + snd f) (floats xc)) fits),
             advance (1000 * length (floats xc)) g)"
proof -
  let ?x = "floats xc" and ?y = "floats yc" and ?u = "floats uc"
  from load_data_shape [OF wf load] have len: "length ?y = length ?x" "length ?u = length ?x"
    by (simp_all add: floats_def)
  from pos have nn: "\<forall>v \<in> set ?u. 0 \<le> v" by (auto intro: less_imp_le)
  from d have "dot ?x ?x \<noteq> 0" by (rule gram_det_nonzero_dot)
  then have nz: "\<exists>xi \<in> set ?x. xi \<noteq> 0" by (simp add: dot_self_eq_0_iff)
  from d len pos obtain a b b0 b1 where
    fit: "polyfit1 ?x ?y = Inr (a, b)"
    and cell: "fit_cell ?x ?y ?u = Inr ([b, a], [b0, b1], map (\<lambda>xi. b0 + b1 * xi) ?x)"
    by (rule fit_cell_polyfit)
  from len nz obtain fits where "length fits = 1000"
    and "monte_carlo_run ?x ?y ?u g
      = Inr ((map fst fits, map snd fits, map (\<lambda>f. map (\<lambda>xi. xi * fst f + snd f) ?x) fits),
             advance (1000 * length ?x) g)"
    by (rule monte_carlo_run_total [where g = g])
  with len nn fit cell show ?thesis by (rule that)
qed

lemmas notebook_unfold = notebook_def Let_def weighted_figure_eq ensemble_figure_eq
  histogram_figure_eq output_files_def comp_def

lemma small_core_loads:
  "wf_frame [(''Depth_cmcd'', [Some 20, Some 30]), (''TEX86'', [Some 1, Some 2]),
             (''TEX86_stdev'', [None, Some (1 / 5)])]"
  "load_data [(''Depth_cmcd'', [Some 20, Some 30]), (''TEX86'', [Some 1, Some 2]),
              (''TEX86_stdev'', [None, Some (1 / 5)])]
     = Inr ([(''Depth_cmcd'', [Some 20, Some 30]), (''TEX86'', [Some 1, Some 2]),
             (''TEX86_stdev'', [Some (1 / 5), Some (1 / 5)])],
            [Some 20, Some 30], [Some 1, Some 2], [Some (1 / 5), Some (1 / 5)])"
  by code_simp+

lemma negative_core_loads:
  "load_data [(''Depth_cmcd'', [Some 20, Some 30]), (''TEX86'', [Some 1, Some 2]),
              (''TEX86_stdev'', [Some (- 1 / 5), Some (1 / 5)])]
     = Inr ([(''Depth_cmcd'', [Some 20, Some 30]), (''TEX86'', [Some 1, Some 2]),
             (''TEX86_stdev'', [Some (- 1 / 5), Some (1 / 5)])],
            [Some 20, Some 30], [Some 1, Some 2], [Some (- 1 / 5), Some (1 / 5)])"
  by code_simp

text \<open>
  C3. On a well-formed table whose loaded positions are not all equal and whose loaded
  uncertainties are all positive, no call of the notebook raises, whatever the random
  samples: the run prints a mean and a standard deviation, leaves four figures in the
  pyplot state, has written exactly the three files of \<open>output_files\<close>, in this order,
  after the files that existed before, and has consumed one random sample per
  observation and iteration.
\<close>

theorem notebook_total:
  assumes "wf_frame csv" and "load_data csv = Inr (data_df, xc, yc, uc)"
    and "gram_det (floats xc) \<noteq> 0" and "\<forall>u \<in> set (floats uc). 0 < u"
  shows "\<exists>m s p g'. notebook autoscale csv g p0 = (Inr ((Some m, Some s), g'), p)
    \<and> map fst (saved p) = map fst (saved p0) @ output_files
    \<and> length (figs p) = length (figs p0) + 4
    \<and> g' = advance (1000 * length (floats xc)) g"
proof -
  from assms obtain a b b0 b1 fits where
    len: "length (floats yc) = length (floats xc)" "length (floats uc) = length (floats xc)"
    and nn: "\<forall>v \<in> set (floats uc). 0 \<le> v"
    and fit: "polyfit1 (floats xc) (floats yc) = Inr (a, b)"
    and cell: "fit_cell (floats xc) (floats yc) (floats uc)
      = Inr ([b, a], [b0, b1], map (\<lambda>xi. b0 + b1 * xi) (floats xc))"
    and n: "length fits = 1000"
    and run: "monte_carlo_run (floats xc) (floats yc) (floats uc) g
      = Inr ((map fst fits, map snd fits,
              map (\<lambda>f. map (\<lambda>xi. xi * fst f + snd f) (floats xc)) fits),
             advance (1000 * length (floats xc)) g)"
    by (rule notebook_cells)
  from n have "fits \<noteq> []" by auto
  with len nn show ?thesis
    by (simp add: notebook_unfold assms(2) trend_figure_eq [OF fit] cell run
        summary_def np_mean_def np_std_def)
qed

theorem notebook_total_witness:
  "\<exists>m s p g'. notebook (\<lambda>_. (0, 1))
      [(''Depth_cmcd'', [Some 20, Some 30]), (''TEX86'', [Some 1, Some 2]),
       (''TEX86_stdev'', [None, Some (1 / 5)])] alternating pyplot_init
      = (Inr ((Some m, Some s), g'), p)
    \<and> map fst (saved p) = map fst (saved pyplot_init) @ output_files
    \<and> length (figs p) = length (figs pyplot_init) + 4
    \<and> g' = advance (1000 * length (floats [Some 20, Some 30])) alternating"
  using notebook_total [OF small_core_loads, of "\<lambda>_. (0, 1)" alternating pyplot_init]
  by (simp add: floats_def gram_det_def power2_eq_square)

text \<open>
  C8. The summary is bounded by the perturbation: if the generator draws from the unit
  interval and the positions are not all equal, the Monte Carlo run of line 145
  returns, and the mean of its slopes lies within \<open>slope_spread x unc_y\<close> of the slope of
  the unperturbed fit, while their standard deviation is at most \<open>slope_spread x unc_y\<close>,
  the largest change of the slope that perturbations of twice the uncertainties can
  cause.
\<close>

theorem monte_carlo_summary_bound:
  assumes "unit_draws g" "length y = length x" "length unc_y = length x"
    and "polyfit1 x y = Inr (a, b)" "gram_det x \<noteq> 0"
  shows "\<exists>slopes intercepts models g' m s.
    monte_carlo_run x y unc_y g = Inr ((slopes, intercepts, models), g')
    \<and> summary slopes = (Some m, Some s)
    \<and> \<bar>m - a\<bar> \<le> slope_spread x unc_y \<and> 0 \<le> s \<and> s \<le> slope_spread x unc_y"
proof -
  let ?u = "map (\<lambda>u. 2 * u) unc_y"
  from assms(5) have "dot x x \<noteq> 0" by (rule gram_det_nonzero_dot)
  then have nz: "\<exists>xi \<in> set x. xi \<noteq> 0" by (simp add: dot_self_eq_0_iff)
  from assms(2,3) have "length x = min (length y) (length ?u)" by simp
  from this nz obtain fits where
    fits: "length fits = nat 1000"
      "\<forall>k < nat 1000. mc_iteration x y ?u g k = Inr (fits ! k)"
    and loop: "multi_OLS x y ?u 1000 g
      = Inr (ensemble_of x fits, advance (nat 1000 * min (length y) (length ?u)) g)"
    by (rule multi_OLS_total [where K = 1000 and g = g])
  have run: "monte_carlo_run x y unc_y g
      = Inr ((map fst fits, map snd fits, map (\<lambda>f. map (\<lambda>xi. xi * fst f + snd f) x) fits),
             advance (1000 * length x) g)"
    using assms(2,3) by (simp add: monte_carlo_run_def loop ensemble_of_def)
  have bound: "\<bar>fst (fits ! k) - a\<bar> \<le> slope_spread x unc_y" if "k < 1000" for k
    using mc_iteration_slope_bound [OF assms(1,2) _ assms(5,4), of ?u k "fst (fits ! k)"
        "snd (fits ! k)"] fits(2) that assms(3)
    by (simp add: slope_spread_def comp_def abs_mult)
  have "\<forall>v \<in> set (map fst fits). \<bar>v - a\<bar> \<le> slope_spread x unc_y"
  proof
    fix v
    assume "v \<in> set (map fst fits)"
    then obtain k where "k < length fits" "v = fst (fits ! k)"
      by (auto simp: in_set_conv_nth)
    with bound [of k] fits(1) show "\<bar>v - a\<bar> \<le> slope_spread x unc_y" by simp
  qed
  moreover from fits(1) have "map fst fits \<noteq> []" by auto
  ultimately obtain m s where "summary (map fst fits) = (Some m, Some s)"
    "\<bar>m - a\<bar> \<le> slope_spread x unc_y" "0 \<le> s" "s \<le> slope_spread x unc_y"
    using summary_bounds [of "map fst fits" a "slope_spread x unc_y"] by blast
  with run show ?thesis by blast
qed

theorem monte_carlo_summary_bound_witness:
  "polyfit1 [0, 1, 2, 3] [1, 2, 3, 41 / 10] = Inr (103 / 100, 49 / 50)
   \<and> slope_spread [0, 1, 2, 3] [1 / 10, 1 / 10, 1 / 10, 1 / 10] = 4 / 25
   \<and> (\<exists>slopes intercepts models g' m s.
      monte_carlo_run [0, 1, 2, 3] [1, 2, 3, 41 / 10] [1 / 10, 1 / 10, 1 / 10, 1 / 10] alternating
        = Inr ((slopes, intercepts, models), g')
      \<and> summary slopes = (Some m, Some s)
      \<and> \<bar>m - 103 / 100\<bar> \<le> 4 / 25 \<and> 0 \<le> s \<and> s \<le> 4 / 25)"
proof -
  have u: "unit_draws alternating" by (simp add: unit_draws_def)
  have p: "polyfit1 [0, 1, 2, 3] [1, 2, 3, 41 / 10] = Inr (103 / 100, 49 / 50)"
    by (simp add: polyfit1_eval)
  have d: "gram_det [0, 1, 2, 3] \<noteq> 0" by (simp add: gram_det_def power2_eq_square)
  have s: "slope_spread [0, 1, 2, 3] [1 / 10, 1 / 10, 1 / 10, 1 / 10] = 4 / 25"
    by (simp add: slope_spread_def slope_weights_def gram_det_def power2_eq_square)
  from monte_carlo_summary_bound [OF u _ _ p d, of "[1 / 10, 1 / 10, 1 / 10, 1 / 10]"] p s
  show ?thesis by simp
qed

text \<open>
  C14. An uncertainty of zero among the loaded observations stops the run. When the
  loaded positions are not all equal and no loaded uncertainty is negative, the first
  figure is drawn, the unweighted fit succeeds, and the division of line 69 raises
  \<open>ZeroDivisionError\<close>: the run ends with one figure more than it started with and
  with the files it started with, none of its own written.
\<close>

theorem notebook_zero_uncertainty:
  assumes "wf_frame csv" and "load_data csv = Inr (data_df, xc, yc, uc)"
    and "gram_det (floats xc) \<noteq> 0" and "0 \<in> set (floats uc)"
    and "\<forall>v \<in> set (floats uc). 0 \<le> v"
  shows "\<exists>p. notebook autoscale csv g p0 = (Inl ZeroDivisionError, p)
    \<and> saved p = saved p0 \<and> length (figs p) = length (figs p0) + 1"
proof -
  let ?x = "floats xc" and ?y = "floats yc" and ?u = "floats uc"
  from load_data_shape [OF assms(1,2)] have len: "length ?y = length ?x" "length ?u = length ?x"
    by (simp_all add: floats_def)
  from assms(3) have "?x \<noteq> []" "dot ?x ?x \<noteq> 0"
    by (rule gram_det_nonzero_nonempty, rule gram_det_nonzero_dot)
  with len assms(3) obtain a b where fit: "polyfit1 ?x ?y = Inr (a, b)"
    by (auto simp: polyfit1_def lstsq_line_def Let_def)
  from len assms(3,4) have "fit_cell ?x ?y ?u = Inl ZeroDivisionError"
    by (simp add: fit_cell_closed)
  with len assms(5) show ?thesis
    by (simp add: notebook_def assms(2) Let_def trend_figure_eq [OF fit])
qed

theorem notebook_zero_uncertainty_witness:
  "\<exists>p. notebook (\<lambda>_. (0, 1)) core_sample alternating pyplot_init = (Inl ZeroDivisionError, p)
    \<and> saved p = saved pyplot_init \<and> length (figs p) = length (figs pyplot_init) + 1"
proof -
  have wf: "wf_frame core_sample" by code_simp
  have l: "load_data core_sample =
       Inr ([(''Depth_cmcd'', [Some 19, Some 50, Some 120, Some 130]),
             (''TEX86'', [Some 2, Some 3, Some 5, Some 7]),
             (''TEX86_stdev'', [Some (12 / 25), Some (3 / 10), Some 0, Some (12 / 25)])],
            [Some 19, Some 50, Some 120, Some 130],
            [Some 2, Some 3, Some 5, Some 7],
            [Some (12 / 25), Some (3 / 10), Some 0, Some (12 / 25)])"
    by code_simp
  show ?thesis
    by (rule notebook_zero_uncertainty [OF wf l])
      (simp_all add: floats_def gram_det_def power2_eq_square)
qed

text \<open>
  C37. A negative uncertainty among the loaded observations stops the run at its first
  plotting call: \<^verbatim>\<open>errorbar\<close> in line 32 raises \<open>ValueError\<close>. The figure of line 30 has
  been created by then; no fit is computed and no file is written.
\<close>

theorem notebook_negative_uncertainty:
  assumes "load_data csv = Inr (data_df, xc, yc, uc)" and "\<exists>v \<in> set (floats uc). v < 0"
  shows "\<exists>p. notebook autoscale csv g p0 = (Inl ValueError, p)
    \<and> saved p = saved p0 \<and> length (figs p) = length (figs p0) + 1"
  using assms(2)
  by (simp add: notebook_def assms(1) Let_def trend_figure_def subplots_building
      attempt_def errorbar_negative)

theorem notebook_negative_uncertainty_witness:
  "\<exists>p. notebook (\<lambda>_. (0, 1))
      [(''Depth_cmcd'', [Some 20, Some 30]), (''TEX86'', [Some 1, Some 2]),
       (''TEX86_stdev'', [Some (- 1 / 5), Some (1 / 5)])] alternating pyplot_init
      = (Inl ValueError, p)
    \<and> saved p = saved pyplot_init \<and> length (figs p) = length (figs pyplot_init) + 1"
  using notebook_negative_uncertainty [OF negative_core_loads, of "\<lambda>_. (0, 1)" alternating
      pyplot_init]
  by (simp add: floats_def)

text \<open>
  C19. In a complete run the two reference lines of each histogram coincide: the
  dashed line is drawn at the \<open>polyfit1\<close> coefficient and the dash-dotted line at the
  coefficient of the unweighted normal-equation fit, which is the same number. The
  weighted coefficients, drawn dash-dotted in the other figures, do not appear in the
  histograms.
\<close>

theorem notebook_reference_lines:
  assumes "wf_frame csv" and "load_data csv = Inr (data_df, xc, yc, uc)"
    and "gram_det (floats xc) \<noteq> 0" and "\<forall>u \<in> set (floats uc). 0 < u"
    and "polyfit1 (floats xc) (floats yc) = Inr (a, b)"
  shows "\<exists>slopes intercepts stats p g'. notebook autoscale csv g p0 = (Inr (stats, g'), p)
    \<and> last (saved p) = (''Browne_et_al_2023_histograms.svg'',
        [reference_histogram autoscale slopes ''peru'' a a ''Slopes'',
         reference_histogram autoscale intercepts ''mediumslateblue'' b b ''Intercepts''])"
proof -
  from assms(1-4) obtain a' b' b0 b1 fits where
    len: "length (floats yc) = length (floats xc)" "length (floats uc) = length (floats xc)"
    and nn: "\<forall>v \<in> set (floats uc). 0 \<le> v"
    and fit: "polyfit1 (floats xc) (floats yc) = Inr (a', b')"
    and cell: "fit_cell (floats xc) (floats yc) (floats uc)
      = Inr ([b', a'], [b0, b1], map (\<lambda>xi. b0 + b1 * xi) (floats xc))"
    and n: "length fits = 1000"
    and run: "monte_carlo_run (floats xc) (floats yc) (floats uc) g
      = Inr ((map fst fits, map snd fits,
              map (\<lambda>f. map (\<lambda>xi. xi * fst f + snd f) (floats xc)) fits),
             advance (1000 * length (floats xc)) g)"
    by (rule notebook_cells)
  from fit assms(5) have "a' = a" "b' = b" by simp_all
  with len nn show ?thesis
    by (intro exI [of _ "map fst fits"] exI [of _ "map snd fits"])
      (simp add: notebook_unfold assms(2) trend_figure_eq [OF fit] cell run)
qed

theorem notebook_reference_lines_witness:
  "\<exists>slopes intercepts stats p g'. notebook (\<lambda>_. (0, 1))
      [(''Depth_cmcd'', [Some 20, Some 30]), (''TEX86'', [Some 1, Some 2]),
       (''TEX86_stdev'', [None, Some (1 / 5)])] alternating pyplot_init = (Inr (stats, g'), p)
    \<and> last (saved p) = (''Browne_et_al_2023_histograms.svg'',
        [reference_histogram (\<lambda>_. (0, 1)) slopes ''peru'' (1 / 10) (1 / 10) ''Slopes'',
         reference_histogram (\<lambda>_. (0, 1)) intercepts ''mediumslateblue'' (- 1) (- 1)
           ''Intercepts''])"
  using notebook_reference_lines [OF small_core_loads, of "1 / 10" "- 1" "\<lambda>_. (0, 1)"
      alternating pyplot_init]
  by (simp add: floats_def polyfit1_eval)

end
